theory Spec2Isabelle
  imports Complex_Main "HOL-Library.Word"
begin

section \<open>Flow routing (flowrout.c)\<close>

text \<open>
  The routing functions of \<^verbatim>\<open>flowrout.c\<close> work on the arrays \<^verbatim>\<open>Node\<close>, \<^verbatim>\<open>Link\<close> and
  \<^verbatim>\<open>Conduit\<close> of the project. An array is a list, an index a natural number, and
  \<^verbatim>\<open>Nobjects[NODE]\<close>, \<^verbatim>\<open>Nobjects[LINK]\<close> are the lengths of the lists. C doubles are
  modelled as reals: comparisons, clamps and the order of the assignments are those of
  the source, rounding is not modelled. Only the fields that the routing step reads or
  writes are kept in the records.
\<close>

datatype NodeType = JUNCTION | OUTFALL | STORAGE | DIVIDER

datatype LinkType = CONDUIT | PUMP | ORIFICE | WEIR | OUTLET

datatype RouteModelType = NO_ROUTING | SF | KW | EKW | DW

datatype XsectType = DUMMY | SHAPE nat

record TXsect =
  xtype :: XsectType
  yFull :: real
  aFull :: real

record TNode =
  ntype :: NodeType
  updated :: bool
  overflow :: real
  inflow :: real
  outflow :: real
  losses :: real
  oldVolume :: real
  newVolume :: real
  fullVolume :: real
  oldNetInflow :: real
  newDepth :: real
  fullDepth :: real
  pondedArea :: real

record TLink =
  ltype :: LinkType
  node1 :: nat
  node2 :: nat
  subIndex :: nat
  xsect :: TXsect
  qFull :: real
  offset1 :: real
  offset2 :: real
  lnewFlow :: real
  lnewDepth :: real
  lnewVolume :: real

record TConduit =
  barrels :: int
  beta :: real
  a1 :: real
  a2 :: real
  q1 :: real
  q2 :: real
  q1Old :: real
  q2Old :: real
  capacityLimited :: bool
  fullState :: nat

record project =
  Node :: "TNode list"
  Link :: "TLink list"
  Conduit :: "TConduit list"
  AllowPonding :: bool
  ErrorCode :: int

text \<open>
  What \<^verbatim>\<open>flowrout.c\<close> takes from headers and modules that are not among the sources is a
  parameter of the model: the tolerance \<^verbatim>\<open>FUDGE\<close> of \<^verbatim>\<open>consts.h\<close>, and the functions of
  \<^verbatim>\<open>link.c\<close>, \<^verbatim>\<open>node.c\<close>, \<^verbatim>\<open>xsect.c\<close>, \<^verbatim>\<open>kinwave.c\<close> and \<^verbatim>\<open>dynwave.c\<close> that the routing
  step calls. The query functions are functions of the project; \<^verbatim>\<open>kinwave_execute\<close>
  returns its step count, the adjusted inflow, the outflow and the conduit array it
  leaves behind; \<^verbatim>\<open>dynwave_execute\<close> returns its step count and the whole project.
\<close>

record env =
  FUDGE :: real
  link_getInflow :: "project \<Rightarrow> nat \<Rightarrow> real"
  link_getLossRate :: "project \<Rightarrow> nat \<Rightarrow> real \<Rightarrow> real \<Rightarrow> real"
  link_getLength :: "project \<Rightarrow> nat \<Rightarrow> real"
  node_getMaxOutflow :: "project \<Rightarrow> nat \<Rightarrow> real \<Rightarrow> real \<Rightarrow> real"
  node_getDepth :: "project \<Rightarrow> nat \<Rightarrow> real \<Rightarrow> real"
  xsect_getAofS :: "TXsect \<Rightarrow> real \<Rightarrow> real"
  xsect_getYofA :: "TXsect \<Rightarrow> real \<Rightarrow> real"
  kinwave_execute :: "project \<Rightarrow> nat \<Rightarrow> real \<Rightarrow> real \<Rightarrow> int \<times> real \<times> real \<times> TConduit list"
  dynwave_execute :: "project \<Rightarrow> real \<Rightarrow> int \<times> project"

definition OMEGA :: real where
  "OMEGA = 0.55"

definition MAXITER :: nat where
  "MAXITER = 10"

definition STOPTOL :: real where
  "STOPTOL = 0.005"

definition ALL_FULL :: nat where
  "ALL_FULL = 3"

subsection \<open>Link inflow and storage outflow\<close>

definition getLinkInflow :: "env \<Rightarrow> project \<Rightarrow> nat \<Rightarrow> real \<Rightarrow> real" where
  "getLinkInflow E sp j dt =
     (let n1 = node1 (Link sp ! j);
          q = (if ltype (Link sp ! j) = CONDUIT \<or> ltype (Link sp ! j) = PUMP
                  \<or> ntype (Node sp ! n1) = STORAGE
               then link_getInflow E sp j else 0)
      in node_getMaxOutflow E sp n1 q dt)"

text \<open>
  The loop of \<^verbatim>\<open>getStorageOutflow\<close>: \<open>k\<close> runs from the position \<open>j\<close> in the array
  \<open>links\<close> and the loop is left at the first link whose upstream node is not \<open>i\<close>.
\<close>

function getStorageOutflow_loop ::
  "env \<Rightarrow> project \<Rightarrow> nat \<Rightarrow> nat list \<Rightarrow> real \<Rightarrow> nat \<Rightarrow> real \<Rightarrow> real" where
  "getStorageOutflow_loop E sp i links dt k outfl =
     (if k < length (Link sp)
      then (let m = links ! k
            in if node1 (Link sp ! m) \<noteq> i then outfl
               else getStorageOutflow_loop E sp i links dt (k + 1)
                      (outfl + getLinkInflow E sp m dt))
      else outfl)"
  by pat_completeness auto
termination
  by (relation "measure (\<lambda>(E, sp, i, links, dt, k, outfl). length (Link sp) - k)") auto

declare getStorageOutflow_loop.simps [simp del]

definition getStorageOutflow :: "env \<Rightarrow> project \<Rightarrow> nat \<Rightarrow> nat \<Rightarrow> nat list \<Rightarrow> real \<Rightarrow> real" where
  "getStorageOutflow E sp i j links dt = getStorageOutflow_loop E sp i links dt j 0"

subsection \<open>Updating a storage node\<close>

text \<open>
  One pass of the loop of \<^verbatim>\<open>updateStorageState\<close>, from the flow balance to the
  under-relaxed depth. It returns the project and the new value of \<open>d1\<close>.
\<close>

definition storage_pass ::
  "env \<Rightarrow> nat \<Rightarrow> nat \<Rightarrow> nat list \<Rightarrow> real \<Rightarrow> real \<Rightarrow> project \<times> real \<Rightarrow> project \<times> real" where
  "storage_pass E i j links dt vFixed s =
     (let sp = fst s; d1 = snd s;
          v2 = vFixed - 0.5 * getStorageOutflow E sp i j links dt * dt;
          v2 = max 0 v2;
          nd = Node sp ! i;
          ovf = (if v2 > fullVolume nd
                 then (let ov = (v2 - max (oldVolume nd) (fullVolume nd)) / dt
                       in if ov < FUDGE E then 0 else ov)
                 else 0);
          v2 = (if v2 > fullVolume nd \<and> (\<not> AllowPonding sp \<or> pondedArea nd = 0)
                then fullVolume nd else v2);
          sp1 = sp\<lparr>Node := (Node sp)[i := nd\<lparr>overflow := ovf, newVolume := v2\<rparr>]\<rparr>;
          d2 = node_getDepth E sp1 i v2;
          sp2 = sp1\<lparr>Node := (Node sp1)[i := (Node sp1 ! i)\<lparr>newDepth := d2\<rparr>]\<rparr>;
          d2 = (1 - OMEGA) * d1 + OMEGA * d2
      in (sp2\<lparr>Node := (Node sp2)[i := (Node sp2 ! i)\<lparr>newDepth := d2\<rparr>]\<rparr>, d2))"

text \<open>
  The \<^verbatim>\<open>while\<close> loop itself, on the project and the locals \<open>d1\<close>, \<open>iter\<close> and
  \<open>stopped\<close>; it returns them as they are when the loop is left.
\<close>

function storage_iterate ::
  "env \<Rightarrow> nat \<Rightarrow> nat \<Rightarrow> nat list \<Rightarrow> real \<Rightarrow> real \<Rightarrow> project \<times> real \<Rightarrow> nat \<Rightarrow> bool
     \<Rightarrow> (project \<times> real) \<times> nat \<times> bool" where
  "storage_iterate E i j links dt vFixed s iter stopped =
     (if iter < MAXITER \<and> \<not> stopped
      then (let s' = storage_pass E i j links dt vFixed s
            in storage_iterate E i j links dt vFixed s' (iter + 1)
                 (\<bar>snd s' - snd s\<bar> \<le> STOPTOL))
      else (s, iter, stopped))"
  by pat_completeness auto
termination
  by (relation "measure (\<lambda>(E, i, j, links, dt, vFixed, s, iter, stopped). MAXITER - iter)") auto

declare storage_iterate.simps [simp del]

definition updateStorageState :: "env \<Rightarrow> project \<Rightarrow> nat \<Rightarrow> nat \<Rightarrow> nat list \<Rightarrow> real \<Rightarrow> project" where
  "updateStorageState E sp i j links dt =
     (if ntype (Node sp ! i) \<noteq> STORAGE then sp
      else if updated (Node sp ! i) then sp
      else (let nd = Node sp ! i;
                vFixed = oldVolume nd + 0.5 * (oldNetInflow nd + inflow nd - outflow nd) * dt;
                d1 = newDepth nd;
                sp' = fst (fst (storage_iterate E i j links dt vFixed (sp, d1) 1 False))
            in sp'\<lparr>Node := (Node sp')[i := (Node sp' ! i)\<lparr>updated := True\<rparr>]\<rparr>))"

subsection \<open>Steady flow routing of one link\<close>

text \<open>
  \<^verbatim>\<open>steadyflow_execute\<close> returns 1 and writes \<^verbatim>\<open>*qin\<close> and \<^verbatim>\<open>*qout\<close>; the model returns
  the three values and the project.
\<close>

definition steadyflow_execute ::
  "env \<Rightarrow> project \<Rightarrow> nat \<Rightarrow> real \<Rightarrow> real \<Rightarrow> int \<times> real \<times> real \<times> project" where
  "steadyflow_execute E sp j qin tStep =
     (let lk = Link sp ! j
      in if ltype lk = CONDUIT
         then (let k = subIndex lk;
                   c = Conduit sp ! k;
                   q = qin / real_of_int (barrels c);
                   r = (if xtype (xsect lk) = DUMMY then (q, 0, qin)
                        else (let q = q - link_getLossRate E sp j q tStep;
                                  q = (if q < 0 then 0 else q)
                              in if q > qFull lk
                                 then (qFull lk, aFull (xsect lk),
                                       qFull lk * real_of_int (barrels c))
                                 else (q, xsect_getAofS E (xsect lk) (q / beta c), qin)));
                   q = fst r;
                   c' = c\<lparr>a1 := fst (snd r), a2 := fst (snd r),
                          q1Old := q1 c, q2Old := q2 c, q1 := q, q2 := q\<rparr>
               in (1, snd (snd r), q * real_of_int (barrels c),
                   sp\<lparr>Conduit := (Conduit sp)[k := c']\<rparr>))
         else (1, qin, qin, sp))"

subsection \<open>New state of nodes and links\<close>

definition setNewNodeState :: "env \<Rightarrow> project \<Rightarrow> nat \<Rightarrow> real \<Rightarrow> project" where
  "setNewNodeState E sp j dt =
     (if ntype (Node sp ! j) = STORAGE
      then (if \<not> updated (Node sp ! j)
            then updateStorageState E sp j (length (Link sp)) [] dt else sp)
      else (let nd = Node sp ! j;
                newNetInflow = inflow nd - outflow nd - losses nd;
                v = oldVolume nd + 0.5 * (oldNetInflow nd + newNetInflow) * dt;
                v = (if v < FUDGE E then 0 else v);
                canPond = (AllowPonding sp \<and> pondedArea nd > 0);
                ovf = (if v > fullVolume nd
                       then (let ov = (v - max (oldVolume nd) (fullVolume nd)) / dt
                             in if ov < FUDGE E then 0 else ov)
                       else 0);
                v = (if v > fullVolume nd \<and> \<not> canPond then fullVolume nd else v);
                sp1 = sp\<lparr>Node := (Node sp)[j := nd\<lparr>newVolume := v, overflow := ovf\<rparr>]\<rparr>
            in sp1\<lparr>Node := (Node sp1)[j := (Node sp1 ! j)
                      \<lparr>newDepth := node_getDepth E sp1 j v\<rparr>]\<rparr>))"

definition updateNodeDepth :: "project \<Rightarrow> nat \<Rightarrow> real \<Rightarrow> project" where
  "updateNodeDepth sp i y =
     (let nd = Node sp ! i
      in if ntype nd = STORAGE then sp
         else (let y = (if ntype nd \<noteq> OUTFALL \<and> overflow nd > 0 then fullDepth nd else y)
               in if newDepth nd < y
                  then sp\<lparr>Node := (Node sp)[i := nd\<lparr>newDepth :=
                          (if fullDepth nd > 0 \<and> y > fullDepth nd then fullDepth nd else y)\<rparr>]\<rparr>
                  else sp))"

definition setNewLinkState :: "env \<Rightarrow> project \<Rightarrow> nat \<Rightarrow> project" where
  "setNewLinkState E sp j =
     (let lk0 = Link sp ! j;
          sp0 = sp\<lparr>Link := (Link sp)[j := lk0\<lparr>lnewDepth := 0, lnewVolume := 0\<rparr>]\<rparr>
      in if ltype lk0 = CONDUIT
         then (let k = subIndex lk0;
                   c = Conduit sp0 ! k;
                   a = 0.5 * (a1 c + a2 c);
                   y1 = xsect_getYofA E (xsect lk0) (a1 c);
                   y2 = xsect_getYofA E (xsect lk0) (a2 c);
                   sp1 = sp0\<lparr>Link := (Link sp0)[j := (Link sp0 ! j)
                            \<lparr>lnewVolume := a * link_getLength E sp0 j * real_of_int (barrels c),
                             lnewDepth := 0.5 * (y1 + y2)\<rparr>]\<rparr>;
                   sp2 = updateNodeDepth sp1 (node1 lk0) (y1 + offset1 lk0);
                   sp3 = updateNodeDepth sp2 (node2 lk0) (y2 + offset2 lk0);
                   full = (a1 c \<ge> aFull (xsect lk0))
               in sp3\<lparr>Conduit := (Conduit sp3)[k := (Conduit sp3 ! k)
                        \<lparr>capacityLimited := full,
                         fullState := (if full then ALL_FULL else 0)\<rparr>]\<rparr>)
         else sp0)"

subsection \<open>The routing step\<close>

definition resetNode :: "real \<Rightarrow> TNode \<Rightarrow> TNode" where
  "resetNode tStep nd =
     (let nd1 = nd\<lparr>updated := False, overflow := 0\<rparr>
      in if ntype nd1 \<noteq> STORAGE \<and> newVolume nd1 > fullVolume nd1
         then nd1\<lparr>overflow := (newVolume nd1 - fullVolume nd1) / tStep\<rparr>
         else nd1)"

text \<open>
  The body of the loop over the positions \<open>i\<close> of the sorted link array. Its last three
  assignments and the choice of the routing method are named, so that the body reads as
  the source does.
\<close>

definition routeFlow ::
  "env \<Rightarrow> RouteModelType \<Rightarrow> project \<Rightarrow> nat \<Rightarrow> real \<Rightarrow> real \<Rightarrow> int \<times> real \<times> real \<times> project" where
  "routeFlow E routingModel sp j qin tStep =
     (if routingModel = SF then steadyflow_execute E sp j qin tStep
      else (case kinwave_execute E sp j qin tStep of
              (n, qin', qout, cs) \<Rightarrow> (n, qin', qout, sp\<lparr>Conduit := cs\<rparr>)))"

definition setLinkFlow :: "project \<Rightarrow> nat \<Rightarrow> real \<Rightarrow> project" where
  "setLinkFlow sp j qout = sp\<lparr>Link := (Link sp)[j := (Link sp ! j)\<lparr>lnewFlow := qout\<rparr>]\<rparr>"

definition addNodeOutflow :: "project \<Rightarrow> nat \<Rightarrow> real \<Rightarrow> project" where
  "addNodeOutflow sp n qin =
     sp\<lparr>Node := (Node sp)[n := (Node sp ! n)\<lparr>outflow := outflow (Node sp ! n) + qin\<rparr>]\<rparr>"

definition addNodeInflow :: "project \<Rightarrow> nat \<Rightarrow> real \<Rightarrow> project" where
  "addNodeInflow sp n qout =
     sp\<lparr>Node := (Node sp)[n := (Node sp ! n)\<lparr>inflow := inflow (Node sp ! n) + qout\<rparr>]\<rparr>"

definition routeLink ::
  "env \<Rightarrow> nat list \<Rightarrow> RouteModelType \<Rightarrow> real \<Rightarrow> nat \<Rightarrow> project \<times> real \<Rightarrow> project \<times> real" where
  "routeLink E links routingModel tStep i s =
     (let sp = fst s; steps = snd s;
          j = links ! i;
          n1 = node1 (Link sp ! j);
          sp1 = (if ntype (Node sp ! n1) = STORAGE
                 then updateStorageState E sp n1 i links tStep else sp);
          qin = getLinkInflow E sp1 j tStep;
          r = routeFlow E routingModel sp1 j qin tStep;
          steps = steps + real_of_int (fst r);
          qin = fst (snd r);
          qout = fst (snd (snd r));
          sp2 = setLinkFlow (snd (snd (snd r))) j qout;
          sp3 = addNodeOutflow sp2 (node1 (Link sp2 ! j)) qin;
          sp4 = addNodeInflow sp3 (node2 (Link sp3 ! j)) qout
      in (sp4, steps))"

definition c_int :: "real \<Rightarrow> int" where
  \<comment> \<open>the C conversion of a double to \<^verbatim>\<open>int\<close>: towards zero\<close>
  "c_int x = (if x \<ge> 0 then \<lfloor>x\<rfloor> else \<lceil>x\<rceil>)"

definition flowrout_execute ::
  "env \<Rightarrow> project \<Rightarrow> nat list \<Rightarrow> RouteModelType \<Rightarrow> real \<Rightarrow> int \<times> project" where
  "flowrout_execute E sp links routingModel tStep =
     (if ErrorCode sp \<noteq> 0 then (0, sp)
      else (let sp1 = sp\<lparr>Node := map (resetNode tStep) (Node sp)\<rparr>
            in if routingModel = DW then dynwave_execute E sp1 tStep
               else (let s = fold (routeLink E links routingModel tStep)
                                  [0..<length (Link sp1)] (sp1, 0);
                         sp2 = fst s;
                         steps = (if length (Link sp2) > 0
                                  then snd s / real (length (Link sp2)) else snd s);
                         sp3 = fold (\<lambda>j p. setNewNodeState E p j tStep) [0..<length (Node sp2)] sp2;
                         sp4 = fold (\<lambda>j p. setNewLinkState E p j) [0..<length (Link sp3)] sp3
                     in (c_int (steps + 0.5), sp4))))"

subsection \<open>Notions used to state and prove the properties of the routing step\<close>

text \<open>
  The stopping test of the pass that starts from \<open>s\<close>, the fixed terms of the flow balance
  that \<^verbatim>\<open>updateStorageState\<close> computes before its loop, and the marking of a node as
  updated, with which it ends.
\<close>

definition storage_converged ::
  "env \<Rightarrow> nat \<Rightarrow> nat \<Rightarrow> nat list \<Rightarrow> real \<Rightarrow> real \<Rightarrow> project \<times> real \<Rightarrow> bool" where
  "storage_converged E i j links dt vFixed s =
     (\<bar>snd (storage_pass E i j links dt vFixed s) - snd s\<bar> \<le> STOPTOL)"

definition storage_vFixed :: "project \<Rightarrow> nat \<Rightarrow> real \<Rightarrow> real" where
  "storage_vFixed sp i dt =
     oldVolume (Node sp ! i)
       + 0.5 * (oldNetInflow (Node sp ! i) + inflow (Node sp ! i) - outflow (Node sp ! i)) * dt"

definition markUpdated :: "nat \<Rightarrow> project \<Rightarrow> project" where
  "markUpdated i sp = sp\<lparr>Node := (Node sp)[i := (Node sp ! i)\<lparr>updated := True\<rparr>]\<rparr>"

definition node_ok :: "env \<Rightarrow> TNode \<Rightarrow> bool" where
  "node_ok E nd \<longleftrightarrow> 0 \<le> newVolume nd \<and> (overflow nd = 0 \<or> FUDGE E \<le> overflow nd)"

definition node_routed :: "env \<Rightarrow> TNode \<Rightarrow> TNode \<Rightarrow> bool" where
  "node_routed E a b \<longleftrightarrow>
     ntype b = ntype a \<and> fullVolume b = fullVolume a
     \<and> (updated a \<longrightarrow> updated b)
     \<and> (updated b \<longrightarrow> updated a \<or> ntype a = STORAGE)
     \<and> (updated a \<or> ntype a \<noteq> STORAGE \<longrightarrow> overflow b = overflow a \<and> newVolume b = newVolume a)
     \<and> (updated b \<and> \<not> updated a \<longrightarrow> 0 \<le> FUDGE E \<and> 0 \<le> fullVolume a \<longrightarrow> node_ok E b)"

definition nodes_closed :: "env \<Rightarrow> project \<Rightarrow> nat \<Rightarrow> project \<Rightarrow> bool" where
  "nodes_closed E sp0 j sp \<longleftrightarrow>
     length (Node sp) = length (Node sp0) \<and>
     (\<forall>k<length (Node sp0).
        ntype (Node sp ! k) = ntype (Node sp0 ! k)
        \<and> fullVolume (Node sp ! k) = fullVolume (Node sp0 ! k)
        \<and> (updated (Node sp ! k) \<longrightarrow> ntype (Node sp0 ! k) = STORAGE)
        \<and> (k < j \<and> ntype (Node sp0 ! k) = STORAGE \<longrightarrow> updated (Node sp ! k))
        \<and> (0 \<le> FUDGE E \<and> 0 \<le> fullVolume (Node sp0 ! k) \<longrightarrow>
             updated (Node sp ! k) \<or> k < j \<longrightarrow> node_ok E (Node sp ! k)))"

subsection \<open>A sample network\<close>

definition E0 :: env where
  "E0 = \<lparr> FUDGE = 0.0001,
          link_getInflow = (\<lambda>sp j. 1),
          link_getLossRate = (\<lambda>sp j q t. 0),
          link_getLength = (\<lambda>sp j. 100),
          node_getMaxOutflow = (\<lambda>sp n q dt. q),
          node_getDepth = (\<lambda>sp n v. v),
          xsect_getAofS = (\<lambda>x s. s),
          xsect_getYofA = (\<lambda>x a. a),
          kinwave_execute = (\<lambda>sp j qin t. (1, qin, qin, Conduit sp)),
          dynwave_execute = (\<lambda>sp t. (1, sp)) \<rparr>"

definition node0 :: TNode where
  "node0 = \<lparr> ntype = JUNCTION, updated = False, overflow = 0, inflow = 0, outflow = 0,
             losses = 0, oldVolume = 0, newVolume = 0, fullVolume = 1000, oldNetInflow = 0,
             newDepth = 0, fullDepth = 1000, pondedArea = 0 \<rparr>"

definition link0 :: TLink where
  "link0 = \<lparr> ltype = CONDUIT, node1 = 0, node2 = 2, subIndex = 0,
             xsect = \<lparr> xtype = SHAPE 1, yFull = 2, aFull = 3 \<rparr>, qFull = 10,
             offset1 = 0, offset2 = 0, lnewFlow = 0, lnewDepth = 0, lnewVolume = 0 \<rparr>"

definition conduit0 :: TConduit where
  "conduit0 = \<lparr> barrels = 2, beta = 4, a1 = 0, a2 = 0, q1 = 0, q2 = 0, q1Old = 0, q2Old = 0,
                capacityLimited = False, fullState = 0 \<rparr>"

definition net0 :: project where
  "net0 = \<lparr> Node = [node0\<lparr>ntype := STORAGE\<rparr>, node0, node0\<lparr>ntype := OUTFALL\<rparr>],
            Link = [link0, link0\<lparr>node1 := 1, subIndex := 1\<rparr>, link0\<lparr>subIndex := 2\<rparr>],
            Conduit = [conduit0, conduit0, conduit0],
            AllowPonding = False, ErrorCode = 0 \<rparr>"

definition tank0 :: project where
  "tank0 = \<lparr> Node = [node0\<lparr>ntype := STORAGE\<rparr>], Link = [], Conduit = [],
             AllowPonding = False, ErrorCode = 0 \<rparr>"


text \<open>
  The sample network with a balance above the full volume at the storage node and the
  junction (an old volume of 990 of 1000 and an inflow of 3 for 60 seconds), and with a
  negative balance there (an old volume of 10 and an outflow of 5 for 60 seconds).
\<close>

definition full0 :: project where
  "full0 = net0\<lparr>Node := [node0\<lparr>ntype := STORAGE, inflow := 3, oldVolume := 990\<rparr>,
                          node0\<lparr>inflow := 3, oldVolume := 990\<rparr>,
                          node0\<lparr>ntype := OUTFALL\<rparr>]\<rparr>"

definition dry0 :: project where
  "dry0 = net0\<lparr>Node := [node0\<lparr>ntype := STORAGE, outflow := 5, oldVolume := 10\<rparr>,
                         node0\<lparr>outflow := 5, oldVolume := 10\<rparr>,
                         node0\<lparr>ntype := OUTFALL\<rparr>]\<rparr>"

section \<open>Binary files\<close>

text \<open>
  The hot start file and the binary output file are read and written through the C
  stream functions. A stream is the list of the bytes of the file, the position of the
  next read or write and the end-of-file indicator. Values are stored as the machine has
  them in memory: an \<^verbatim>\<open>int\<close>, a \<^verbatim>\<open>float\<close> (\<^verbatim>\<open>REAL4\<close>) and a \<^verbatim>\<open>double\<close> (\<^verbatim>\<open>REAL8\<close>) are the
  words of their bits, least significant byte first. Floating-point numbers are not
  interpreted, except for the test whether the bits are those of a NaN.
\<close>

type_synonym byte = "8 word"
type_synonym INT4 = "32 word"
type_synonym REAL4 = "32 word"
type_synonym REAL8 = "64 word"

record FILE =
  content :: "byte list"
  fpos :: nat
  feof :: bool

definition le_nat :: "byte list \<Rightarrow> nat" where
  "le_nat bs = foldr (\<lambda>b n. unat b + 256 * n) bs 0"

primrec le_bytes :: "nat \<Rightarrow> nat \<Rightarrow> byte list" where
  "le_bytes 0 v = []"
| "le_bytes (Suc n) v = of_nat (v mod 256) # le_bytes n (v div 256)"

definition word4 :: "byte list \<Rightarrow> 32 word" where
  "word4 bs = of_nat (le_nat bs)"

definition word8 :: "byte list \<Rightarrow> 64 word" where
  "word8 bs = of_nat (le_nat bs)"

definition bytes4 :: "32 word \<Rightarrow> byte list" where
  "bytes4 w = le_bytes 4 (unat w)"

definition bytes8 :: "64 word \<Rightarrow> byte list" where
  "bytes8 w = le_bytes 8 (unat w)"

text \<open>
  \<^verbatim>\<open>fread(ptr, size, 1, f)\<close> for one element of \<open>n\<close> bytes: the bytes if they are all
  there; otherwise nothing is delivered, the position moves to the end and the
  end-of-file indicator is set (the C standard leaves the value of a partly read element
  indeterminate; the model leaves the destination as it was).
\<close>

definition fread1 :: "nat \<Rightarrow> FILE \<Rightarrow> byte list option \<times> FILE" where
  "fread1 n f =
     (if fpos f + n \<le> length (content f)
      then (Some (take n (drop (fpos f) (content f))), f\<lparr>fpos := fpos f + n\<rparr>)
      else (None, f\<lparr>fpos := max (fpos f) (length (content f)), feof := True\<rparr>))"

text \<open>\<^verbatim>\<open>fread(buf, 1, n, f)\<close> for \<open>n\<close> single bytes: the bytes that are there, at most \<open>n\<close>.\<close>

definition fread_chars :: "nat \<Rightarrow> FILE \<Rightarrow> byte list \<times> FILE" where
  "fread_chars n f =
     (let bs = take n (drop (fpos f) (content f))
      in (bs, f\<lparr>fpos := fpos f + length bs, feof := (feof f \<or> length bs < n)\<rparr>))"

text \<open>
  \<^verbatim>\<open>fwrite\<close> of a list of bytes at the current position, over what is there and beyond
  the end; \<^verbatim>\<open>fseek(f, pos, SEEK_SET)\<close> with a signed offset, which fails and leaves the
  stream alone when the offset is negative.
\<close>

definition fwrite :: "byte list \<Rightarrow> FILE \<Rightarrow> FILE" where
  "fwrite bs f =
     f\<lparr>content := take (fpos f) (content f) @ replicate (fpos f - length (content f)) 0
                    @ bs @ drop (fpos f + length bs) (content f),
       fpos := fpos f + length bs\<rparr>"

definition fseek :: "int \<Rightarrow> FILE \<Rightarrow> FILE" where
  "fseek pos f = (if pos < 0 then f else f\<lparr>fpos := nat pos, feof := False\<rparr>)"

text \<open>
  \<^verbatim>\<open>fwrite(buf, sizeof(REAL4), n, f)\<close> and \<^verbatim>\<open>fread(buf, sizeof(REAL4), n, f)\<close> on an array of
  floats, which is a function from indices to floats. Reading delivers the elements that
  are there in full, at most \<open>n\<close>, into the first places of the array.
\<close>

definition floats :: "nat \<Rightarrow> (nat \<Rightarrow> REAL4) \<Rightarrow> byte list" where
  "floats n buf = concat (map (\<lambda>i. bytes4 (buf i)) [0..<n])"

definition fread_floats :: "nat \<Rightarrow> FILE \<Rightarrow> (nat \<Rightarrow> REAL4) \<Rightarrow> (nat \<Rightarrow> REAL4) \<times> FILE" where
  "fread_floats n f buf =
     (let m = min n ((length (content f) - fpos f) div 4)
      in ((\<lambda>i. if i < m then word4 (take 4 (drop (fpos f + 4 * i) (content f))) else buf i),
          (if m = n then f\<lparr>fpos := fpos f + 4 * n\<rparr>
           else f\<lparr>fpos := max (fpos f) (length (content f)), feof := True\<rparr>)))"

definition float_isNaN :: "REAL4 \<Rightarrow> bool" where
  \<comment> \<open>\<^verbatim>\<open>x != x\<close> for a float: exponent bits all set and a mantissa that is not 0\<close>
  "float_isNaN w \<longleftrightarrow> (unat w div 2 ^ 23) mod 2 ^ 8 = 255 \<and> unat w mod 2 ^ 23 \<noteq> 0"

definition double_isNaN :: "REAL8 \<Rightarrow> bool" where
  "double_isNaN w \<longleftrightarrow> (unat w div 2 ^ 52) mod 2 ^ 11 = 2047 \<and> unat w mod 2 ^ 52 \<noteq> 0"


section \<open>Hot start files (hotstart.c)\<close>

text \<open>
  Reading a hot start file stores the values it reads in the project and calls functions
  of other modules with them. None of this decides what is read next or whether the
  reading goes on: the model records each assignment and each call, in order, and keeps
  of the project what the reading depends on, namely the numbers of objects, the flow
  units, which subcatchments have a groundwater or a snow pack component and which nodes
  are storage nodes.
\<close>

datatype ErrorType = ERR_HOTSTART_FILE_OPEN | ERR_HOTSTART_FILE_FORMAT | ERR_HOTSTART_FILE_READ

datatype FileUsageType = NO_FILE | SCRATCH_FILE | USE_FILE | SAVE_FILE

datatype hs_value = Float "REAL4" | Double "REAL8" | MISSING

text \<open>
  The fields of a subcatchment that \<^verbatim>\<open>readRunoff\<close> reads in place; the project keeps their
  values, as a read that fails leaves or resets them.
\<close>

datatype hs_place =
    Subcatch_subArea_depth nat nat
  | Subcatch_newRunoff nat
  | Subcatch_newQual nat nat
  | Subcatch_pondedQual nat nat
  | Subcatch_buildup nat nat nat
  | Subcatch_lastSwept nat nat

text \<open>The assignments of \<^verbatim>\<open>readRouting\<close> and the calls into other modules.\<close>

datatype hs_effect =
    Node_newDepth nat "REAL4"
  | Node_newLatFlow nat "REAL4"
  | Storage_hrt nat "REAL4"
  | Node_newQual nat nat "REAL4"
  | Link_newFlow nat "REAL4"
  | Link_newDepth nat "REAL4"
  | Link_setting nat "REAL4"
  | Link_targetSetting nat "REAL4"
  | Link_newQual nat nat "REAL4"
  | infil_setState nat "REAL8 list"
  | gwater_setState nat "hs_value list"
  | snow_setState nat nat "REAL8 list"
  | link_setTargetSetting nat
  | link_setSetting nat

text \<open>
  The project as the hot start functions see it. \<open>x6\<close> is the local array \<^verbatim>\<open>x[6]\<close> of
  \<^verbatim>\<open>readRunoff\<close> and \<open>xf\<close> the local \<^verbatim>\<open>float x\<close> of \<^verbatim>\<open>readRouting\<close>: they are not
  initialised by the source, so their values at the call are whatever the record holds.
\<close>

record hsproject =
  Fhotstart1_mode :: FileUsageType
  Fhotstart1_file :: FILE
  FileVersion :: int
  nSubcatch :: nat
  nLandUses :: nat
  nNodes :: nat
  nLinks :: nat
  nPollut :: nat
  FlowUnits :: int
  groundwater :: "bool list"
  snowpack :: "bool list"
  nodeType :: "NodeType list"
  nodeSubIndex :: "nat list"
  hsErrorCode :: "ErrorType option"
  subcatchState :: "hs_place \<Rightarrow> REAL8"
  effects :: "hs_effect list"
  x6 :: "nat \<Rightarrow> REAL8"
  xf :: "REAL4"

type_synonym hs_step = "hsproject \<Rightarrow> bool \<times> hsproject"

definition report_writeErrorMsg :: "ErrorType \<Rightarrow> hsproject \<Rightarrow> hsproject" where
  \<comment> \<open>report.c: the message goes to the report file, the code to \<^verbatim>\<open>ErrorCode\<close>\<close>
  "report_writeErrorMsg code sp = sp\<lparr>hsErrorCode := Some code\<rparr>"

subsection \<open>Reading one number\<close>

text \<open>
  \<^verbatim>\<open>readFloat\<close> and \<^verbatim>\<open>readDouble\<close> take the value that the destination holds before the
  call, and return their result, the value of the destination and the project with its
  stream advanced.
\<close>

definition readFloat :: "REAL4 \<Rightarrow> hsproject \<Rightarrow> bool \<times> REAL4 \<times> hsproject" where
  "readFloat x sp =
     (case fread1 4 (Fhotstart1_file sp) of
        (r, f) \<Rightarrow>
          (let x1 = (case r of Some bs \<Rightarrow> word4 bs | None \<Rightarrow> x);
               sp1 = sp\<lparr>Fhotstart1_file := f\<rparr>
           in if float_isNaN x1
              then (False, 0, report_writeErrorMsg ERR_HOTSTART_FILE_READ sp1)
              else (True, x1, sp1)))"

definition readDouble :: "REAL8 \<Rightarrow> hsproject \<Rightarrow> bool \<times> REAL8 \<times> hsproject" where
  "readDouble x sp =
     (if feof (Fhotstart1_file sp)
      then (False, 0, report_writeErrorMsg ERR_HOTSTART_FILE_READ sp)
      else (case fread1 8 (Fhotstart1_file sp) of
              (r, f) \<Rightarrow>
                (let x1 = (case r of Some bs \<Rightarrow> word8 bs | None \<Rightarrow> x);
                     sp1 = sp\<lparr>Fhotstart1_file := f\<rparr>
                 in if double_isNaN x1 then (False, 0, sp1) else (True, x1, sp1))))"

subsection \<open>Sequences of reads\<close>

text \<open>
  The reading functions are sequences and loops of steps of the form
  \<^verbatim>\<open>if ( !read(...) ) return;\<close>. A step returns whether the function goes on;
  \<open>andThen\<close> and \<open>forEach\<close> stop at the first step that does not.
\<close>

definition andThen :: "hs_step \<Rightarrow> hs_step \<Rightarrow> hs_step" where
  "andThen p q sp = (case p sp of (ok, sp1) \<Rightarrow> if ok then q sp1 else (False, sp1))"

fun forEach :: "nat list \<Rightarrow> (nat \<Rightarrow> hs_step) \<Rightarrow> hs_step" where
  "forEach [] body sp = (True, sp)"
| "forEach (i # js) body sp =
     (case body i sp of (ok, sp1) \<Rightarrow> if ok then forEach js body sp1 else (False, sp1))"

definition effect :: "(hsproject \<Rightarrow> hs_effect) \<Rightarrow> hs_step" where
  "effect e sp = (True, sp\<lparr>effects := effects sp @ [e sp]\<rparr>)"

definition onlyIf :: "(hsproject \<Rightarrow> bool) \<Rightarrow> hs_step \<Rightarrow> hs_step" where
  "onlyIf c p sp = (if c sp then p sp else (True, sp))"

definition readDoubleAt :: "hs_place \<Rightarrow> hs_step" where
  \<comment> \<open>\<^verbatim>\<open>readDouble(sp, &field, f)\<close> on a field of a subcatchment\<close>
  "readDoubleAt p sp =
     (case readDouble (subcatchState sp p) sp of
        (ok, v, sp1) \<Rightarrow> (ok, sp1\<lparr>subcatchState := (subcatchState sp1)(p := v)\<rparr>))"

definition readDoubleX :: "nat \<Rightarrow> hs_step" where
  \<comment> \<open>\<^verbatim>\<open>readDouble(sp, &x[j], f)\<close> on the local array\<close>
  "readDoubleX j sp =
     (case readDouble (x6 sp j) sp of
        (ok, v, sp1) \<Rightarrow> (ok, sp1\<lparr>x6 := (x6 sp1)(j := v)\<rparr>))"

definition readFloatX :: hs_step where
  \<comment> \<open>\<^verbatim>\<open>readFloat(sp, &x, f)\<close> on the local \<open>x\<close>\<close>
  "readFloatX sp =
     (case readFloat (xf sp) sp of (ok, v, sp1) \<Rightarrow> (ok, sp1\<lparr>xf := v\<rparr>))"

subsection \<open>readRunoff and readRouting\<close>

definition readRunoff_subcatch :: "nat \<Rightarrow> hs_step" where
  "readRunoff_subcatch i =
     andThen (forEach [0..<3] (\<lambda>j. readDoubleAt (Subcatch_subArea_depth i j)))
    (andThen (readDoubleAt (Subcatch_newRunoff i))
    (andThen (forEach [0..<6] readDoubleX)
    (andThen (effect (\<lambda>sp. infil_setState i (map (x6 sp) [0..<6])))
    (andThen (onlyIf (\<lambda>sp. groundwater sp ! i)
               (andThen (forEach [0..<4] readDoubleX)
                        (effect (\<lambda>sp. gwater_setState i (map (\<lambda>k. Double (x6 sp k)) [0..<4])))))
    (andThen (onlyIf (\<lambda>sp. snowpack sp ! i)
               (forEach [0..<3] (\<lambda>j.
                  andThen (forEach [0..<5] readDoubleX)
                          (effect (\<lambda>sp. snow_setState i j (map (x6 sp) [0..<5]))))))
             (\<lambda>sp. onlyIf (\<lambda>sp. nPollut sp > 0)
               (andThen (forEach [0..<nPollut sp] (\<lambda>j. readDoubleAt (Subcatch_newQual i j)))
               (andThen (forEach [0..<nPollut sp] (\<lambda>j. readDoubleAt (Subcatch_pondedQual i j)))
                        (forEach [0..<nLandUses sp] (\<lambda>k.
                           andThen (forEach [0..<nPollut sp]
                                      (\<lambda>j. readDoubleAt (Subcatch_buildup i k j)))
                                   (readDoubleAt (Subcatch_lastSwept i k)))))) sp))))))"

definition readRunoff :: "hsproject \<Rightarrow> hsproject" where
  "readRunoff sp = snd (forEach [0..<nSubcatch sp] readRunoff_subcatch sp)"

definition readRouting_gw :: "nat \<Rightarrow> hs_step" where
  \<comment> \<open>file format 2: moisture content and water table elevation of a subcatchment\<close>
  "readRouting_gw i =
     andThen readFloatX (\<lambda>sp0.
       andThen readFloatX
         (onlyIf (\<lambda>sp. groundwater sp ! i)
            (effect (\<lambda>sp. gwater_setState i [Float (xf sp0), Float (xf sp), Double 0, MISSING])))
         sp0)"

definition readRouting_node :: "nat \<Rightarrow> hs_step" where
  "readRouting_node i =
     andThen readFloatX
    (andThen (effect (\<lambda>sp. Node_newDepth i (xf sp)))
    (andThen readFloatX
    (andThen (effect (\<lambda>sp. Node_newLatFlow i (xf sp)))
    (andThen (onlyIf (\<lambda>sp. FileVersion sp \<ge> 4 \<and> nodeType sp ! i = STORAGE)
               (andThen readFloatX (effect (\<lambda>sp. Storage_hrt (nodeSubIndex sp ! i) (xf sp)))))
    (andThen (\<lambda>sp. forEach [0..<nPollut sp]
                (\<lambda>j. andThen readFloatX (effect (\<lambda>sp. Node_newQual i j (xf sp)))) sp)
             (onlyIf (\<lambda>sp. FileVersion sp \<le> 2)
                (\<lambda>sp. forEach [0..<nPollut sp] (\<lambda>j. readFloatX) sp)))))))"

definition readRouting_link :: "nat \<Rightarrow> hs_step" where
  "readRouting_link i =
     andThen readFloatX
    (andThen (effect (\<lambda>sp. Link_newFlow i (xf sp)))
    (andThen readFloatX
    (andThen (effect (\<lambda>sp. Link_newDepth i (xf sp)))
    (andThen readFloatX
    (andThen (effect (\<lambda>sp. Link_setting i (xf sp)))
    (andThen (effect (\<lambda>sp. Link_targetSetting i (xf sp)))
    (andThen (effect (\<lambda>sp. link_setTargetSetting i))
    (andThen (effect (\<lambda>sp. link_setSetting i))
             (\<lambda>sp. forEach [0..<nPollut sp]
                (\<lambda>j. andThen readFloatX (effect (\<lambda>sp. Link_newQual i j (xf sp)))) sp)))))))))"

definition readRouting :: "hsproject \<Rightarrow> hsproject" where
  "readRouting sp =
     snd (andThen (onlyIf (\<lambda>sp. FileVersion sp = 2)
                     (\<lambda>sp. forEach [0..<nSubcatch sp] readRouting_gw sp))
         (andThen (\<lambda>sp. forEach [0..<nNodes sp] readRouting_node sp)
                  (\<lambda>sp. forEach [0..<nLinks sp] readRouting_link sp)) sp)"

subsection \<open>Opening the hot start file\<close>

definition stamp :: "string \<Rightarrow> byte list" where
  "stamp s = map (\<lambda>c. of_nat (of_char c)) s"

definition readInt :: "int \<Rightarrow> FILE \<Rightarrow> int \<times> FILE" where
  \<comment> \<open>\<^verbatim>\<open>fread(&n, sizeof(int), 1, f)\<close> on a variable that holds \<open>n\<close>\<close>
  "readInt n f = (case fread1 4 f of (r, f1) \<Rightarrow>
                    ((case r of Some bs \<Rightarrow> sint (word4 bs) | None \<Rightarrow> n), f1))"

text \<open>
  \<^verbatim>\<open>openHotstartFile1\<close>, in three parts: the check of the stamp, which gives the version
  of the file, or 0 when the stamp is none of the four; the check of the counts and the
  reading of the contents; and the function itself. Its second argument is what \<^verbatim>\<open>fopen\<close>
  finds under the name of the file: nothing, or the bytes of the file. The stamp is read
  into a buffer that holds \<^verbatim>\<open>SWMM5-HOTSTARTx\<close>; \<^verbatim>\<open>strcmp\<close> with a stamp that has no zero
  byte is the equality of the buffers.
\<close>

definition readStamp :: "FILE \<Rightarrow> int \<times> FILE" where
  "readStamp f0 =
     (let r = fread_chars 15 f0;
          fStampx = fst r @ drop (length (fst r)) (stamp ''SWMM5-HOTSTARTx'')
      in if fStampx = stamp ''SWMM5-HOTSTART4'' then (4, snd r)
         else if fStampx = stamp ''SWMM5-HOTSTART3'' then (3, snd r)
         else if fStampx = stamp ''SWMM5-HOTSTART2'' then (2, snd r)
         else (let r1 = fread_chars 14 (f0\<lparr>fpos := 0, feof := False\<rparr>);
                   fStamp = fst r1 @ drop (length (fst r1)) (stamp ''SWMM5-HOTSTART'')
               in if fStamp \<noteq> stamp ''SWMM5-HOTSTART'' then (0, snd r1) else (1, snd r1)))"

definition readContents :: "hsproject \<Rightarrow> FILE \<Rightarrow> bool \<times> hsproject" where
  "readContents sp1 f1 =
     (let a = (if FileVersion sp1 \<ge> 2 then readInt (- 1) f1 else (int (nSubcatch sp1), f1));
          b = (if FileVersion sp1 \<ge> 3 then readInt (- 1) (snd a)
               else (int (nLandUses sp1), snd a));
          c = readInt (- 1) (snd b);
          d = readInt (- 1) (snd c);
          e = readInt (- 1) (snd d);
          u = readInt (- 1) (snd e);
          sp2 = sp1\<lparr>Fhotstart1_file := snd u\<rparr>
      in if fst a \<noteq> int (nSubcatch sp2) \<or> fst b \<noteq> int (nLandUses sp2)
            \<or> fst c \<noteq> int (nNodes sp2) \<or> fst d \<noteq> int (nLinks sp2)
            \<or> fst e \<noteq> int (nPollut sp2) \<or> fst u \<noteq> FlowUnits sp2
         then (False, report_writeErrorMsg ERR_HOTSTART_FILE_FORMAT sp2)
         else (let sp3 = (if FileVersion sp2 \<ge> 3 then readRunoff sp2 else sp2);
                   sp4 = readRouting sp3
               in if hsErrorCode sp4 \<noteq> None then (False, sp4) else (True, sp4)))"

definition openHotstartFile1 :: "hsproject \<Rightarrow> byte list option \<Rightarrow> bool \<times> hsproject" where
  "openHotstartFile1 sp disk =
     (if Fhotstart1_mode sp \<noteq> USE_FILE then (True, sp)
      else (case disk of
          None \<Rightarrow> (False, report_writeErrorMsg ERR_HOTSTART_FILE_OPEN sp)
        | Some bytes \<Rightarrow>
            (let v = readStamp \<lparr>content = bytes, fpos = 0, feof = False\<rparr>
             in if fst v = 0
                then (False, report_writeErrorMsg ERR_HOTSTART_FILE_FORMAT
                               (sp\<lparr>Fhotstart1_file := snd v\<rparr>))
                else readContents (sp\<lparr>FileVersion := fst v\<rparr>) (snd v))))"

subsection \<open>A sample hot start file\<close>

text \<open>
  A project with one subcatchment, one junction and nothing else, and a hot start file of
  version 4 for it: the stamp, the six counts, ten doubles for the subcatchment and two
  floats for the node. All numbers in it are 0, except that the first double, the ponded
  depth of the first subarea, is a NaN.
\<close>

definition hs0 :: hsproject where
  "hs0 = \<lparr> Fhotstart1_mode = USE_FILE,
           Fhotstart1_file = \<lparr>content = [], fpos = 0, feof = False\<rparr>,
           FileVersion = 0, nSubcatch = 1, nLandUses = 0, nNodes = 1, nLinks = 0, nPollut = 0,
           FlowUnits = 0, groundwater = [False], snowpack = [False], nodeType = [JUNCTION],
           nodeSubIndex = [0], hsErrorCode = None, subcatchState = (\<lambda>p. 0), effects = [],
           x6 = (\<lambda>k. 0), xf = 0 \<rparr>"

definition nan8 :: "byte list" where
  "nan8 = [0, 0, 0, 0, 0, 0, 0xF8, 0x7F]"

definition zero8 :: "byte list" where
  "zero8 = [0, 0, 0, 0, 0, 0, 0, 0]"

definition hotfile0 :: "byte list" where
  "hotfile0 = stamp ''SWMM5-HOTSTART4''
     @ [1, 0, 0, 0] @ [0, 0, 0, 0] @ [1, 0, 0, 0] @ [0, 0, 0, 0] @ [0, 0, 0, 0] @ [0, 0, 0, 0]
     @ nan8 @ zero8 @ zero8 @ zero8 @ zero8 @ zero8 @ zero8 @ zero8 @ zero8 @ zero8
     @ [0, 0, 0, 0] @ [0, 0, 0, 0]"

definition hf :: "nat \<Rightarrow> FILE" where
  \<comment> \<open>the stream on the sample file, at position \<open>p\<close>\<close>
  "hf p = \<lparr>content = hotfile0, fpos = p, feof = False\<rparr>"


section \<open>The binary output file (output.c)\<close>

text \<open>
  The project as the output functions see it: the reporting flags of the subcatchments,
  nodes and links (the lengths of the three lists are the numbers of objects), the number
  of pollutants, the start of reporting, the output stream \<^verbatim>\<open>Fout.file\<close>, the number of
  periods written, and the variables shared by the functions of \<^verbatim>\<open>output.c\<close>. The three
  result arrays and \<^verbatim>\<open>SysResults\<close> are functions from indices to floats.

  What the functions of other modules return depends on the state of the simulation, of
  which the model keeps nothing else. It is part of the record: the date of an elapsed
  time, the results of a subcatchment, node or link for a weight \<open>f\<close>, the bits of a
  date as a double, and the float arithmetic on the system-wide totals, which is not
  interpreted. \<^verbatim>\<open>MAX_SYS_RESULTS\<close>, a constant of \<^verbatim>\<open>enums.h\<close>, is kept there as well.
\<close>

record oproject =
  subcatchRpt :: "bool list"
  nodeRpt :: "bool list"
  linkRpt :: "bool list"
  NobjPollut :: nat
  IgnoreQuality_out :: bool
  ReportStart :: real
  OldRunoffTime :: real
  NewRunoffTime :: real
  OldRoutingTime :: real
  NewRoutingTime :: real
  MAX_SYS_RESULTS :: nat
  getDateTime :: "real \<Rightarrow> real"
  double_bits :: "real \<Rightarrow> REAL8"
  subcatch_getResults :: "nat \<Rightarrow> real \<Rightarrow> nat \<Rightarrow> REAL4"
  node_getResults :: "nat \<Rightarrow> real \<Rightarrow> nat \<Rightarrow> REAL4"
  link_getResults :: "nat \<Rightarrow> real \<Rightarrow> nat \<Rightarrow> REAL4"
  sys_subcatch :: "nat \<Rightarrow> (nat \<Rightarrow> REAL4) \<Rightarrow> (nat \<Rightarrow> REAL4)"
  sys_subcatch_end :: "(nat \<Rightarrow> REAL4) \<Rightarrow> (nat \<Rightarrow> REAL4)"
  sys_node :: "nat \<Rightarrow> (nat \<Rightarrow> REAL4) \<Rightarrow> (nat \<Rightarrow> REAL4)"
  sys_node_end :: "(nat \<Rightarrow> REAL4) \<Rightarrow> (nat \<Rightarrow> REAL4)"
  sys_link :: "nat \<Rightarrow> real \<Rightarrow> (nat \<Rightarrow> REAL4) \<Rightarrow> (nat \<Rightarrow> REAL4)"
  Fout :: FILE
  Nperiods :: int
  NumPolluts :: nat
  NsubcatchResults :: nat
  NnodeResults :: nat
  NlinkResults :: nat
  NumSubcatch :: nat
  NumNodes :: nat
  NumLinks :: nat
  BytesPerPeriod :: INT4
  OutputStartPos :: INT4
  SysResults :: "nat \<Rightarrow> REAL4"
  SubcatchResults :: "nat \<Rightarrow> REAL4"
  NodeResults :: "nat \<Rightarrow> REAL4"
  LinkResults :: "nat \<Rightarrow> REAL4"

definition MAX_SUBCATCH_RESULTS :: nat where
  \<comment> \<open>Modelled from the spec: the constant of \<^verbatim>\<open>enums.h\<close> is not among the sources; the
      spec has \<open>NsubcatchResults = 8 + NumPolluts\<close>.\<close>
  "MAX_SUBCATCH_RESULTS = 9"

definition MAX_NODE_RESULTS :: nat where
  \<comment> \<open>Modelled from the spec: the constant of \<^verbatim>\<open>enums.h\<close> is not among the sources; the
      spec has \<open>NnodeResults = 6 + NumPolluts\<close>.\<close>
  "MAX_NODE_RESULTS = 7"

definition MAX_LINK_RESULTS :: nat where
  \<comment> \<open>Modelled from the spec: the constant of \<^verbatim>\<open>enums.h\<close> is not among the sources; the
      spec has \<open>NlinkResults = 5 + NumPolluts\<close>.\<close>
  "MAX_LINK_RESULTS = 6"

subsection \<open>Opening the file\<close>

text \<open>
  \<^verbatim>\<open>output_open\<close>: the counts, the size of a period and the start of the results. The
  arguments say whether \<^verbatim>\<open>fopen\<close> has opened the file, which is new and empty, and give the
  bytes that the header takes (the calls of \<^verbatim>\<open>fwrite\<close> between \<^verbatim>\<open>fseek\<close> to 0 and
  \<^verbatim>\<open>ftell\<close>). The result is nothing when the file cannot be opened. The size of a period
  and the start of the results are 4-byte integers.
\<close>

definition countRpt :: "bool list \<Rightarrow> nat" where
  "countRpt flags = length (filter (\<lambda>b. b) flags)"

definition output_open :: "oproject \<Rightarrow> bool \<Rightarrow> byte list \<Rightarrow> oproject option" where
  "output_open sp opened header =
     (if \<not> opened then None
      else (let np = (if IgnoreQuality_out sp then 0 else NobjPollut sp);
                ns = MAX_SUBCATCH_RESULTS - 1 + np;
                nn = MAX_NODE_RESULTS - 1 + np;
                nl = MAX_LINK_RESULTS - 1 + np;
                f = fwrite header (fseek 0 \<lparr>content = [], fpos = 0, feof = False\<rparr>)
            in Some (sp\<lparr>NumPolluts := np, NsubcatchResults := ns, NnodeResults := nn,
                        NlinkResults := nl,
                        NumSubcatch := countRpt (subcatchRpt sp),
                        NumNodes := countRpt (nodeRpt sp),
                        NumLinks := countRpt (linkRpt sp),
                        BytesPerPeriod :=
                          8 + of_nat (countRpt (subcatchRpt sp)) * of_nat ns * 4
                            + of_nat (countRpt (nodeRpt sp)) * of_nat nn * 4
                            + of_nat (countRpt (linkRpt sp)) * of_nat nl * 4
                            + of_nat (MAX_SYS_RESULTS sp) * 4,
                        Nperiods := 0,
                        Fout := f,
                        OutputStartPos := of_nat (fpos f)\<rparr>)))"

subsection \<open>Writing the results of a period\<close>

definition output_saveSubcatchResults :: "oproject \<Rightarrow> real \<Rightarrow> oproject" where
  "output_saveSubcatchResults sp reportTime =
     (let f = (reportTime - OldRunoffTime sp) / (NewRunoffTime sp - OldRunoffTime sp);
          sp1 = fold (\<lambda>j p.
                  (let p1 = p\<lparr>SubcatchResults := subcatch_getResults p j f\<rparr>;
                       p2 = (if subcatchRpt p1 ! j
                             then p1\<lparr>Fout := fwrite (floats (NsubcatchResults p1)
                                                         (SubcatchResults p1)) (Fout p1)\<rparr>
                             else p1)
                   in p2\<lparr>SysResults := sys_subcatch p2 j (SysResults p2)\<rparr>))
                  [0..<length (subcatchRpt sp)] sp
      in sp1\<lparr>SysResults := sys_subcatch_end sp1 (SysResults sp1)\<rparr>)"

definition output_saveNodeResults :: "oproject \<Rightarrow> real \<Rightarrow> oproject" where
  "output_saveNodeResults sp reportTime =
     (let f = (reportTime - OldRoutingTime sp) / (NewRoutingTime sp - OldRoutingTime sp);
          sp1 = fold (\<lambda>j p.
                  (let p1 = p\<lparr>NodeResults := node_getResults p j f\<rparr>;
                       p2 = (if nodeRpt p1 ! j
                             then p1\<lparr>Fout := fwrite (floats (NnodeResults p1)
                                                         (NodeResults p1)) (Fout p1)\<rparr>
                             else p1)
                   in p2\<lparr>SysResults := sys_node p2 j (SysResults p2)\<rparr>))
                  [0..<length (nodeRpt sp)] sp
      in sp1\<lparr>SysResults := sys_node_end sp1 (SysResults sp1)\<rparr>)"

definition output_saveLinkResults :: "oproject \<Rightarrow> real \<Rightarrow> oproject" where
  "output_saveLinkResults sp reportTime =
     (let f = (reportTime - OldRoutingTime sp) / (NewRoutingTime sp - OldRoutingTime sp)
      in fold (\<lambda>j p.
           (let p1 = p\<lparr>LinkResults := link_getResults p j f\<rparr>;
                p2 = (if linkRpt p1 ! j
                      then p1\<lparr>Fout := fwrite (floats (NlinkResults p1)
                                                  (LinkResults p1)) (Fout p1)\<rparr>
                      else p1)
            in p2\<lparr>SysResults := sys_link p2 j f (SysResults p2)\<rparr>))
           [0..<length (linkRpt sp)] sp)"

text \<open>
  \<^verbatim>\<open>output_saveResults\<close>. The results of the outlets, which it may save at the end, go to
  another file.
\<close>

definition output_saveResults :: "oproject \<Rightarrow> real \<Rightarrow> oproject" where
  "output_saveResults sp reportTime =
     (let reportDate = getDateTime sp reportTime
      in if reportDate < ReportStart sp then sp
         else (let sp1 = sp\<lparr>SysResults :=
                           (\<lambda>i. if i < MAX_SYS_RESULTS sp then 0 else SysResults sp i)\<rparr>;
                   sp2 = sp1\<lparr>Fout := fwrite (bytes8 (double_bits sp1 reportDate)) (Fout sp1)\<rparr>;
                   sp3 = (if length (subcatchRpt sp2) > 0
                          then output_saveSubcatchResults sp2 reportTime else sp2);
                   sp4 = (if length (nodeRpt sp3) > 0
                          then output_saveNodeResults sp3 reportTime else sp3);
                   sp5 = (if length (linkRpt sp4) > 0
                          then output_saveLinkResults sp4 reportTime else sp4);
                   sp6 = sp5\<lparr>Fout := fwrite (floats (MAX_SYS_RESULTS sp5) (SysResults sp5))
                                          (Fout sp5)\<rparr>
               in sp6\<lparr>Nperiods := Nperiods sp6 + 1\<rparr>))"

subsection \<open>Reading the results of a period\<close>

text \<open>
  The position \<^verbatim>\<open>bytePos\<close> is a 4-byte integer: it is computed in 32 bits and given to
  \<^verbatim>\<open>fseek\<close> as a signed number.
\<close>

definition output_readSubcatchResults :: "oproject \<Rightarrow> int \<Rightarrow> int \<Rightarrow> oproject" where
  "output_readSubcatchResults sp period index =
     (let bytePos = OutputStartPos sp + of_int (period - 1) * BytesPerPeriod sp;
          bytePos = bytePos + (8 + of_int index * of_nat (NsubcatchResults sp) * 4);
          r = fread_floats (NsubcatchResults sp) (fseek (sint bytePos) (Fout sp))
                (SubcatchResults sp)
      in sp\<lparr>SubcatchResults := fst r, Fout := snd r\<rparr>)"

definition output_readNodeResults :: "oproject \<Rightarrow> int \<Rightarrow> int \<Rightarrow> oproject" where
  "output_readNodeResults sp period index =
     (let bytePos = OutputStartPos sp + of_int (period - 1) * BytesPerPeriod sp;
          bytePos = bytePos
                    + (8 + of_nat (NumSubcatch sp) * of_nat (NsubcatchResults sp) * 4);
          bytePos = bytePos + of_int index * of_nat (NnodeResults sp) * 4;
          r = fread_floats (NnodeResults sp) (fseek (sint bytePos) (Fout sp)) (NodeResults sp)
      in sp\<lparr>NodeResults := fst r, Fout := snd r\<rparr>)"

definition output_readLinkResults :: "oproject \<Rightarrow> int \<Rightarrow> int \<Rightarrow> oproject" where
  "output_readLinkResults sp period index =
     (let bytePos = OutputStartPos sp + of_int (period - 1) * BytesPerPeriod sp;
          bytePos = bytePos
                    + (8 + of_nat (NumSubcatch sp) * of_nat (NsubcatchResults sp) * 4);
          bytePos = bytePos + of_nat (NumNodes sp) * of_nat (NnodeResults sp) * 4;
          bytePos = bytePos + of_int index * of_nat (NlinkResults sp) * 4;
          r = fread_floats (NlinkResults sp) (fseek (sint bytePos) (Fout sp)) (LinkResults sp);
          r1 = fread_floats (MAX_SYS_RESULTS sp) (snd r) (SysResults sp)
      in sp\<lparr>LinkResults := fst r, SysResults := fst r1, Fout := snd r1\<rparr>)"


subsection \<open>Notions used to state the properties of the output file\<close>

text \<open>
  The indices of the objects that are reported, the weights that the writer computes from
  the report time, and the bytes that the writer appends for the reported subcatchments,
  nodes and links of a period.
\<close>

definition reported :: "bool list \<Rightarrow> nat list" where
  "reported flags = filter (\<lambda>j. flags ! j) [0..<length flags]"

definition weightRunoff :: "oproject \<Rightarrow> real \<Rightarrow> real" where
  "weightRunoff sp reportTime =
     (reportTime - OldRunoffTime sp) / (NewRunoffTime sp - OldRunoffTime sp)"

definition weightRouting :: "oproject \<Rightarrow> real \<Rightarrow> real" where
  "weightRouting sp reportTime =
     (reportTime - OldRoutingTime sp) / (NewRoutingTime sp - OldRoutingTime sp)"

definition subcatchBytes :: "oproject \<Rightarrow> real \<Rightarrow> nat list \<Rightarrow> byte list" where
  "subcatchBytes sp reportTime js =
     concat (map (\<lambda>j. floats (NsubcatchResults sp)
                         (subcatch_getResults sp j (weightRunoff sp reportTime))) js)"

definition nodeBytes :: "oproject \<Rightarrow> real \<Rightarrow> nat list \<Rightarrow> byte list" where
  "nodeBytes sp reportTime js =
     concat (map (\<lambda>j. floats (NnodeResults sp)
                         (node_getResults sp j (weightRouting sp reportTime))) js)"

definition linkBytes :: "oproject \<Rightarrow> real \<Rightarrow> nat list \<Rightarrow> byte list" where
  "linkBytes sp reportTime js =
     concat (map (\<lambda>j. floats (NlinkResults sp)
                         (link_getResults sp j (weightRouting sp reportTime))) js)"

text \<open>
  The size of the record of a period, as a number; the part of the project that the
  simulation leaves alone between two reports; and the state of the stream while
  results are written: the position is at the end, the counts are those of the
  reporting flags, and the file is the header and one record for each period.
\<close>

definition recordSize :: "oproject \<Rightarrow> nat" where
  "recordSize sp =
     8 + 4 * (NumSubcatch sp * NsubcatchResults sp + NumNodes sp * NnodeResults sp
              + NumLinks sp * NlinkResults sp + MAX_SYS_RESULTS sp)"

definition layout ::
  "oproject \<Rightarrow> (bool list \<times> bool list \<times> bool list) \<times> nat \<times> (nat \<times> nat \<times> nat \<times> nat)
                \<times> (nat \<times> nat \<times> nat) \<times> INT4 \<times> INT4" where
  "layout sp =
     ((subcatchRpt sp, nodeRpt sp, linkRpt sp), MAX_SYS_RESULTS sp,
      (NumPolluts sp, NsubcatchResults sp, NnodeResults sp, NlinkResults sp),
      (NumSubcatch sp, NumNodes sp, NumLinks sp), BytesPerPeriod sp, OutputStartPos sp)"

definition keeps_output :: "(oproject \<Rightarrow> oproject) \<Rightarrow> bool" where
  "keeps_output g \<longleftrightarrow>
     (\<forall>s. layout (g s) = layout s \<and> Fout (g s) = Fout s \<and> Nperiods (g s) = Nperiods s)"

definition stream_ok :: "oproject \<Rightarrow> bool" where
  "stream_ok sp \<longleftrightarrow>
     fpos (Fout sp) = length (content (Fout sp))
     \<and> NumSubcatch sp = countRpt (subcatchRpt sp)
     \<and> NumNodes sp = countRpt (nodeRpt sp)
     \<and> NumLinks sp = countRpt (linkRpt sp)
     \<and> BytesPerPeriod sp = of_nat (recordSize sp)
     \<and> 0 \<le> Nperiods sp
     \<and> length (content (Fout sp))
         = unat (OutputStartPos sp) + nat (Nperiods sp) * recordSize sp"

text \<open>
  A run of the simulation, as far as the output file sees it: a list of report times,
  each with the change that the simulation makes to the project before the results of
  that time are saved. \<open>written_at\<close> lists the states and times at which a record is
  written.
\<close>

fun output_run :: "oproject \<Rightarrow> (real \<times> (oproject \<Rightarrow> oproject)) list \<Rightarrow> oproject" where
  "output_run sp [] = sp"
| "output_run sp ((t, g) # steps) = output_run (output_saveResults (g sp) t) steps"

fun written_at ::
  "oproject \<Rightarrow> (real \<times> (oproject \<Rightarrow> oproject)) list \<Rightarrow> (oproject \<times> real) list" where
  "written_at sp [] = []"
| "written_at sp ((t, g) # steps) =
     (if getDateTime (g sp) t < ReportStart (g sp) then [] else [(g sp, t)])
       @ written_at (output_saveResults (g sp) t) steps"

text \<open>The project without the stream and the four result arrays, which writing changes.\<close>

definition oframe :: "oproject \<Rightarrow> oproject" where
  "oframe sp = sp\<lparr>Fout := \<lparr>content = [], fpos = 0, feof = False\<rparr>, SysResults := (\<lambda>i. 0),
                  SubcatchResults := (\<lambda>i. 0), NodeResults := (\<lambda>i. 0), LinkResults := (\<lambda>i. 0)\<rparr>"

text \<open>
  The stream is positioned at its end; and the bytes of the record of a period before the
  system-wide totals: the date and the results of the reported subcatchments, nodes and
  links.
\<close>

definition at_end :: "FILE \<Rightarrow> bool" where
  "at_end f \<longleftrightarrow> fpos f = length (content f)"

definition recordHead :: "oproject \<Rightarrow> real \<Rightarrow> byte list" where
  "recordHead sp reportTime =
     bytes8 (double_bits sp (getDateTime sp reportTime))
       @ subcatchBytes sp reportTime (reported (subcatchRpt sp))
       @ nodeBytes sp reportTime (reported (nodeRpt sp))
       @ linkBytes sp reportTime (reported (linkRpt sp))"

text \<open>
  The counts of the header are those of the reporting flags; and a list of bytes is the
  record of the results of a state at a report time, whatever the system-wide totals are.
\<close>

definition counts_ok :: "oproject \<Rightarrow> bool" where
  "counts_ok sp \<longleftrightarrow> NumSubcatch sp = countRpt (subcatchRpt sp)
     \<and> NumNodes sp = countRpt (nodeRpt sp) \<and> NumLinks sp = countRpt (linkRpt sp)"

definition is_record :: "byte list \<Rightarrow> oproject \<times> real \<Rightarrow> bool" where
  "is_record bs w \<longleftrightarrow>
     (\<exists>sys. bs = recordHead (fst w) (snd w) @ floats (MAX_SYS_RESULTS (fst w)) sys)"

text \<open>What the writer reads of the project, besides the stream and the number of periods.\<close>

definition oview :: "oproject \<Rightarrow> oproject" where
  "oview sp = (oframe sp)\<lparr>Nperiods := 0\<rparr>"


subsection \<open>A sample project for the output file\<close>

text \<open>
  One reported subcatchment, two nodes of which the second is reported, one reported
  link, no pollutant, 15 system-wide totals, reporting from date 1 on. The date of a time
  is the time itself, the weights are the report times, and the results written at time
  2 (100 and more) differ from those written at other times (200 and more). The header
  is the magic number. \<open>steps0\<close> reports at times 0, 2 and 3; \<open>bigsteps0\<close> reports
  14913082 times at time 2 and once at time 3. The simulation changes nothing of the
  project between the reports.
\<close>

definition hdr0 :: "byte list" where
  "hdr0 = bytes4 516114522"

definition z0 :: oproject where
  "z0 = \<lparr>subcatchRpt = [True], nodeRpt = [False, True], linkRpt = [True],
         NobjPollut = 0, IgnoreQuality_out = False, ReportStart = 1,
         OldRunoffTime = 0, NewRunoffTime = 1, OldRoutingTime = 0, NewRoutingTime = 1,
         MAX_SYS_RESULTS = 15, getDateTime = (\<lambda>t. t), double_bits = (\<lambda>d. 0),
         subcatch_getResults = (\<lambda>j f i. (if f = 2 then 100 else 200) + 10 * of_nat j + of_nat i),
         node_getResults = (\<lambda>j f i. (if f = 2 then 100 else 200) + 10 * of_nat j + of_nat i),
         link_getResults = (\<lambda>j f i. (if f = 2 then 100 else 200) + 10 * of_nat j + of_nat i),
         sys_subcatch = (\<lambda>j r. r), sys_subcatch_end = (\<lambda>r. r),
         sys_node = (\<lambda>j r. r), sys_node_end = (\<lambda>r. r), sys_link = (\<lambda>j f r. r),
         Fout = \<lparr>content = [], fpos = 0, feof = False\<rparr>, Nperiods = 0,
         NumPolluts = 0, NsubcatchResults = 0, NnodeResults = 0, NlinkResults = 0,
         NumSubcatch = 0, NumNodes = 0, NumLinks = 0, BytesPerPeriod = 0, OutputStartPos = 0,
         SysResults = (\<lambda>i. 0), SubcatchResults = (\<lambda>i. 0), NodeResults = (\<lambda>i. 0),
         LinkResults = (\<lambda>i. 0)\<rparr>"

definition out0 :: oproject where
  "out0 = (case output_open z0 True hdr0 of Some p \<Rightarrow> p | None \<Rightarrow> z0)"

definition steps0 :: "(real \<times> (oproject \<Rightarrow> oproject)) list" where
  "steps0 = [(0, \<lambda>s. s), (2, \<lambda>s. s), (3, \<lambda>s. s)]"

definition bigsteps0 :: "(real \<times> (oproject \<Rightarrow> oproject)) list" where
  "bigsteps0 = replicate 14913082 (2, \<lambda>s. s) @ [(3, \<lambda>s. s)]"


section \<open>Runoff from a subarea (subcatch.c)\<close>










subsection \<open>A sample subarea\<close>




section \<open>Pollutant buildup and washoff in a runoff step (runoff.c)\<close>

text \<open>
  The part of \<^verbatim>\<open>runoff_execute\<close> that decides on street sweeping and that goes through
  the subcatchments for runoff, buildup, sweeping and washoff. The functions of
  \<^verbatim>\<open>surfqual.c\<close> change pollutant loads only: the model records the calls, in order.
  \<^verbatim>\<open>subcatch_getRunoff\<close> and the tolerance \<^verbatim>\<open>MIN_RUNOFF\<close> of \<^verbatim>\<open>consts.h\<close> are parameters.
  \<open>SweepStart\<close> is the first day of the sweeping season as the input gives it.
\<close>

datatype qual_call =
    surfqual_getBuildup nat real
  | surfqual_sweepBuildup nat real
  | surfqual_getWashoff nat real real

record TSubcatch =
  area :: real
  rainfall :: real
  newSnowDepth :: real

record rproject =
  ReportStep :: int
  SweepStart :: int
  SweepEnd :: int
  IgnoreQuality :: bool
  Subcatch :: "TSubcatch list"
  HasRunoff :: bool
  HasSnow :: bool
  HasWetLids :: bool
  qualCalls :: "qual_call list"

record renv =
  MIN_RUNOFF :: real
  subcatch_getRunoff :: "rproject \<Rightarrow> nat \<Rightarrow> real \<Rightarrow> real \<times> rproject"

definition canSweep :: "rproject \<Rightarrow> int \<Rightarrow> bool" where
  \<comment> \<open>``see if street sweeping can occur on current date'', for the day of the year\<close>
  "canSweep sp day = (if day \<ge> ReportStep sp \<and> day \<le> SweepEnd sp then True else False)"

definition qualCall :: "qual_call \<Rightarrow> rproject \<Rightarrow> rproject" where
  "qualCall c sp = sp\<lparr>qualCalls := qualCalls sp @ [c]\<rparr>"

text \<open>The body of the loop over the subcatchments, and the loop with the three flags reset.\<close>

definition runoffSubcatch :: "renv \<Rightarrow> bool \<Rightarrow> real \<Rightarrow> real \<Rightarrow> nat \<Rightarrow> rproject \<Rightarrow> rproject" where
  "runoffSubcatch E sweep currentDate runoffStep j sp =
     (if area (Subcatch sp ! j) = 0 then sp
      else (let r = subcatch_getRunoff E sp j runoffStep;
                runoff = fst r;
                sp1 = snd r;
                sp2 = (if runoff > 0 then sp1\<lparr>HasRunoff := True\<rparr> else sp1);
                sp3 = (if newSnowDepth (Subcatch sp2 ! j) > 0 then sp2\<lparr>HasSnow := True\<rparr> else sp2)
            in if IgnoreQuality sp3 then sp3
               else (let sp4 = (if runoff < MIN_RUNOFF E
                                then qualCall (surfqual_getBuildup j runoffStep) sp3 else sp3);
                         sp5 = (if sweep \<and> rainfall (Subcatch sp4 ! j) \<le> MIN_RUNOFF E
                                then qualCall (surfqual_sweepBuildup j currentDate) sp4 else sp4)
                     in qualCall (surfqual_getWashoff j runoff runoffStep) sp5)))"

definition runoffQuality :: "renv \<Rightarrow> int \<Rightarrow> real \<Rightarrow> real \<Rightarrow> rproject \<Rightarrow> rproject" where
  "runoffQuality E day currentDate runoffStep sp =
     fold (runoffSubcatch E (canSweep sp day) currentDate runoffStep) [0..<length (Subcatch sp)]
       (sp\<lparr>HasSnow := False, HasRunoff := False, HasWetLids := False\<rparr>)"

subsection \<open>A sample project\<close>

text \<open>
  One dry subcatchment without runoff, a sweeping season from day 60 to day 300 of the
  year, and a reporting step of 900 seconds.
\<close>

definition renv0 :: renv where
  "renv0 = \<lparr> MIN_RUNOFF = 0.0000000231481, subcatch_getRunoff = (\<lambda>sp j t. (0, sp)) \<rparr>"

definition rp0 :: rproject where
  "rp0 = \<lparr> ReportStep = 900, SweepStart = 60, SweepEnd = 300, IgnoreQuality = False,
           Subcatch = [\<lparr> area = 1000, rainfall = 0, newSnowDepth = 0 \<rparr>],
           HasRunoff = False, HasSnow = False, HasWetLids = False, qualCalls = [] \<rparr>"


section \<open>Properties of the routing step\<close>

lemma getStorageOutflow_loop_sum:
  "length (Link sp) \<le> length links \<or> length (Link sp) \<le> k \<Longrightarrow>
   getStorageOutflow_loop E sp i links dt k acc =
     acc + (\<Sum>m\<leftarrow>takeWhile (\<lambda>m. node1 (Link sp ! m) = i) (drop k (take (length (Link sp)) links)).
              getLinkInflow E sp m dt)"
proof (induction E sp i links dt k acc rule: getStorageOutflow_loop.induct)
  case (1 E sp i links dt k outfl)
  show ?case
  proof (cases "k < length (Link sp)")
    case False
    then show ?thesis by (simp add: getStorageOutflow_loop.simps [of E sp i links dt k])
  next
    case True
    with "1.prems" have len: "length (Link sp) \<le> length links" by simp
    with True have k: "k < length (take (length (Link sp)) links)" by simp
    have d: "drop k (take (length (Link sp)) links)
               = links ! k # drop (Suc k) (take (length (Link sp)) links)"
      using Cons_nth_drop_Suc [OF k] True by simp
    show ?thesis
    proof (cases "node1 (Link sp ! (links ! k)) = i")
      case False
      with True d show ?thesis
        by (simp add: getStorageOutflow_loop.simps [of E sp i links dt k])
    next
      case same: True
      have "getStorageOutflow_loop E sp i links dt (k + 1) (outfl + getLinkInflow E sp (links ! k) dt)
            = (outfl + getLinkInflow E sp (links ! k) dt) +
              (\<Sum>m\<leftarrow>takeWhile (\<lambda>m. node1 (Link sp ! m) = i)
                     (drop (k + 1) (take (length (Link sp)) links)). getLinkInflow E sp m dt)"
        using "1.IH" [OF True refl] same len by simp
      with True same d show ?thesis
        by (simp add: getStorageOutflow_loop.simps [of E sp i links dt k])
    qed
  qed
qed

lemma storage_iterate_passes:
  "storage_iterate E i j links dt vFixed s iter stopped = (s', iter', stopped') \<Longrightarrow>
   \<not> stopped \<Longrightarrow> iter \<le> MAXITER \<Longrightarrow>
   \<exists>n. iter' = iter + n \<and> iter' \<le> MAXITER
     \<and> s' = ((storage_pass E i j links dt vFixed) ^^ n) s
     \<and> (\<forall>m<n. storage_converged E i j links dt vFixed
                  (((storage_pass E i j links dt vFixed) ^^ m) s) \<longleftrightarrow> (Suc m = n \<and> stopped'))
     \<and> (stopped' \<or> iter' = MAXITER) \<and> (stopped' \<longrightarrow> 0 < n)"
proof (induction E i j links dt vFixed s iter stopped arbitrary: s' iter' stopped'
        rule: storage_iterate.induct)
  case (1 E i j links dt vFixed s iter stopped)
  let ?P = "storage_pass E i j links dt vFixed"
  let ?C = "storage_converged E i j links dt vFixed"
  show ?case
  proof (cases "iter < MAXITER")
    case False
    then have "storage_iterate E i j links dt vFixed s iter stopped = (s, iter, stopped)"
      by (subst storage_iterate.simps) simp
    with "1.prems" have "s' = s" "iter' = iter" "stopped' = stopped" by simp_all
    moreover from False "1.prems" have "iter = MAXITER" by simp
    ultimately show ?thesis using "1.prems" by (intro exI [of _ 0]) simp
  next
    case True
    with "1.prems" have "storage_iterate E i j links dt vFixed s iter stopped
        = storage_iterate E i j links dt vFixed (?P s) (iter + 1) (?C s)"
      by (subst storage_iterate.simps) (simp add: storage_converged_def Let_def)
    with "1.prems" have run:
      "storage_iterate E i j links dt vFixed (?P s) (iter + 1) (?C s) = (s', iter', stopped')"
      by simp
    show ?thesis
    proof (cases "?C s")
      case conv: True
      have "storage_iterate E i j links dt vFixed (?P s) (iter + 1) True = (?P s, iter + 1, True)"
        by (subst storage_iterate.simps) simp
      with run conv have "s' = ?P s" "iter' = iter + 1" "stopped'" by simp_all
      with True conv show ?thesis by (intro exI [of _ 1]) simp
    next
      case nconv: False
      from True "1.prems" have c: "iter < MAXITER \<and> \<not> stopped" by simp
      have "\<exists>n. iter' = (iter + 1) + n \<and> iter' \<le> MAXITER \<and> s' = (?P ^^ n) (?P s)
              \<and> (\<forall>m<n. ?C ((?P ^^ m) (?P s)) \<longleftrightarrow> (Suc m = n \<and> stopped'))
              \<and> (stopped' \<or> iter' = MAXITER) \<and> (stopped' \<longrightarrow> 0 < n)"
      proof (rule "1.IH" [OF c refl])
        show "storage_iterate E i j links dt vFixed (?P s) (iter + 1)
                (\<bar>snd (?P s) - snd s\<bar> \<le> STOPTOL) = (s', iter', stopped')"
          using run by (simp add: storage_converged_def)
        show "\<not> \<bar>snd (?P s) - snd s\<bar> \<le> STOPTOL"
          using nconv by (simp add: storage_converged_def)
        show "iter + 1 \<le> MAXITER" using True by simp
      qed
      then obtain n where n: "iter' = (iter + 1) + n" "iter' \<le> MAXITER" "s' = (?P ^^ n) (?P s)"
        "\<forall>m<n. ?C ((?P ^^ m) (?P s)) \<longleftrightarrow> (Suc m = n \<and> stopped')"
        "stopped' \<or> iter' = MAXITER" "stopped' \<longrightarrow> 0 < n" by blast
      have all: "\<forall>m<Suc n. ?C ((?P ^^ m) s) \<longleftrightarrow> (Suc m = Suc n \<and> stopped')"
      proof (intro allI impI)
        fix m assume m: "m < Suc n"
        show "?C ((?P ^^ m) s) \<longleftrightarrow> (Suc m = Suc n \<and> stopped')"
        proof (cases m)
          case 0
          with nconv n(6) show ?thesis by auto
        next
          case (Suc m')
          with m have "m' < n" by simp
          with n(4) have "?C ((?P ^^ m') (?P s)) \<longleftrightarrow> (Suc m' = n \<and> stopped')" by blast
          with Suc show ?thesis by (simp add: funpow_swap1)
        qed
      qed
      show ?thesis
        using n(1,2,3,5) all by (intro exI [of _ "Suc n"]) (simp add: funpow_swap1)
    qed
  qed
qed

lemma storage_pass_length:
  "length (Node (fst (storage_pass E i j links dt vFixed s))) = length (Node (fst s))"
  by (simp add: storage_pass_def Let_def)

lemma storage_pass_frame:
  "Link (fst (storage_pass E i j links dt vFixed s)) = Link (fst s)"
  "Conduit (fst (storage_pass E i j links dt vFixed s)) = Conduit (fst s)"
  "AllowPonding (fst (storage_pass E i j links dt vFixed s)) = AllowPonding (fst s)"
  "ErrorCode (fst (storage_pass E i j links dt vFixed s)) = ErrorCode (fst s)"
  by (simp_all add: storage_pass_def Let_def)

lemma storage_pass_other:
  "k \<noteq> i \<Longrightarrow> Node (fst (storage_pass E i j links dt vFixed s)) ! k = Node (fst s) ! k"
  by (simp add: storage_pass_def Let_def)

lemma storage_pass_same:
  assumes "i < length (Node (fst s))"
  shows "ntype (Node (fst (storage_pass E i j links dt vFixed s)) ! i) = ntype (Node (fst s) ! i)"
    and "updated (Node (fst (storage_pass E i j links dt vFixed s)) ! i) = updated (Node (fst s) ! i)"
    and "fullVolume (Node (fst (storage_pass E i j links dt vFixed s)) ! i) = fullVolume (Node (fst s) ! i)"
  using assms by (simp_all add: storage_pass_def Let_def)

lemma storage_pass_ok:
  assumes "i < length (Node (fst s))" "0 \<le> FUDGE E" "0 \<le> fullVolume (Node (fst s) ! i)"
  shows "node_ok E (Node (fst (storage_pass E i j links dt vFixed s)) ! i)"
  using assms by (simp add: storage_pass_def Let_def node_ok_def)

lemma storage_pass_depth:
  assumes "i < length (Node (fst s))"
  shows "newDepth (Node (fst (storage_pass E i j links dt vFixed s)) ! i)
           = snd (storage_pass E i j links dt vFixed s)"
  using assms by (simp add: storage_pass_def Let_def)


lemma storage_funpow_length:
  "length (Node (fst (((storage_pass E i j links dt vFixed) ^^ n) s))) = length (Node (fst s))"
  by (induction n) (simp_all add: storage_pass_length)

lemma storage_funpow_frame:
  "Link (fst (((storage_pass E i j links dt vFixed) ^^ n) s)) = Link (fst s)"
  "Conduit (fst (((storage_pass E i j links dt vFixed) ^^ n) s)) = Conduit (fst s)"
  "AllowPonding (fst (((storage_pass E i j links dt vFixed) ^^ n) s)) = AllowPonding (fst s)"
  "ErrorCode (fst (((storage_pass E i j links dt vFixed) ^^ n) s)) = ErrorCode (fst s)"
  by (induction n) (simp_all add: storage_pass_frame)

lemma storage_funpow_other:
  "k \<noteq> i \<Longrightarrow> Node (fst (((storage_pass E i j links dt vFixed) ^^ n) s)) ! k = Node (fst s) ! k"
  by (induction n) (simp_all add: storage_pass_other)

lemma storage_funpow_same:
  assumes "i < length (Node (fst s))"
  shows "ntype (Node (fst (((storage_pass E i j links dt vFixed) ^^ n) s)) ! i) = ntype (Node (fst s) ! i)
       \<and> updated (Node (fst (((storage_pass E i j links dt vFixed) ^^ n) s)) ! i) = updated (Node (fst s) ! i)
       \<and> fullVolume (Node (fst (((storage_pass E i j links dt vFixed) ^^ n) s)) ! i) = fullVolume (Node (fst s) ! i)"
  using assms by (induction n) (simp_all add: storage_pass_same storage_funpow_length)

lemma storage_funpow_ok:
  assumes "i < length (Node (fst s))" "0 \<le> FUDGE E" "0 \<le> fullVolume (Node (fst s) ! i)" "0 < n"
  shows "node_ok E (Node (fst (((storage_pass E i j links dt vFixed) ^^ n) s)) ! i)"
proof -
  from assms(4) obtain m where n: "n = Suc m" by (cases n) auto
  let ?t = "((storage_pass E i j links dt vFixed) ^^ m) s"
  have "i < length (Node (fst ?t))" using assms(1) by (simp add: storage_funpow_length)
  moreover have "0 \<le> fullVolume (Node (fst ?t) ! i)"
    using assms(1,3) storage_funpow_same [OF assms(1), where n = m and E = E and j = j and links = links
        and dt = dt and vFixed = vFixed] by simp
  ultimately have "node_ok E (Node (fst (storage_pass E i j links dt vFixed ?t)) ! i)"
    using assms(2) by (simp add: storage_pass_ok)
  then show ?thesis by (simp add: n)
qed

text \<open>The loop entered by updateStorageState makes between one and nine passes.\<close>

lemma storage_iterate_from_one:
  obtains n where "1 \<le> n" "n \<le> 9"
    and "fst (storage_iterate E i j links dt vFixed s 1 False)
           = ((storage_pass E i j links dt vFixed) ^^ n) s"
    and "\<forall>m<n - 1. \<not> storage_converged E i j links dt vFixed
                        (((storage_pass E i j links dt vFixed) ^^ m) s)"
    and "storage_converged E i j links dt vFixed
           (((storage_pass E i j links dt vFixed) ^^ (n - 1)) s) \<or> n = 9"
proof -
  obtain s' iter' stopped' where r:
    "storage_iterate E i j links dt vFixed s 1 False = (s', iter', stopped')"
    by (cases "storage_iterate E i j links dt vFixed s 1 False") auto
  from storage_iterate_passes [OF r] obtain n where n:
    "iter' = 1 + n" "iter' \<le> MAXITER" "s' = ((storage_pass E i j links dt vFixed) ^^ n) s"
    "\<forall>m<n. storage_converged E i j links dt vFixed
              (((storage_pass E i j links dt vFixed) ^^ m) s) \<longleftrightarrow> (Suc m = n \<and> stopped')"
    "stopped' \<or> iter' = MAXITER" "stopped' \<longrightarrow> 0 < n"
    by (auto simp: MAXITER_def)
  from n(1,5,6) have pos: "1 \<le> n" by (auto simp: MAXITER_def)
  from n(1,2) have le: "n \<le> 9" by (simp add: MAXITER_def)
  have early: "\<forall>m<n - 1. \<not> storage_converged E i j links dt vFixed
                        (((storage_pass E i j links dt vFixed) ^^ m) s)"
    using n(4) by auto
  have last: "storage_converged E i j links dt vFixed
           (((storage_pass E i j links dt vFixed) ^^ (n - 1)) s) \<or> n = 9"
  proof (cases stopped')
    case True
    with n(4) pos have "storage_converged E i j links dt vFixed
           (((storage_pass E i j links dt vFixed) ^^ (n - 1)) s)"
      by (auto dest!: spec [of _ "n - 1"])
    then show ?thesis ..
  next
    case False
    with n(1,5) show ?thesis by (simp add: MAXITER_def)
  qed
  show thesis using that [OF pos le _ early last] r n(3) by simp
qed



lemma updateStorageState_noop:
  "ntype (Node sp ! i) \<noteq> STORAGE \<or> updated (Node sp ! i) \<Longrightarrow>
   updateStorageState E sp i j links dt = sp"
  by (auto simp: updateStorageState_def)

lemma updateStorageState_run:
  assumes "ntype (Node sp ! i) = STORAGE" "\<not> updated (Node sp ! i)"
  obtains n where "1 \<le> n" "n \<le> 9"
    and "updateStorageState E sp i j links dt
           = markUpdated i (fst (((storage_pass E i j links dt (storage_vFixed sp i dt)) ^^ n)
                                   (sp, newDepth (Node sp ! i))))"
    and "\<forall>m<n - 1. \<not> storage_converged E i j links dt (storage_vFixed sp i dt)
            (((storage_pass E i j links dt (storage_vFixed sp i dt)) ^^ m) (sp, newDepth (Node sp ! i)))"
    and "storage_converged E i j links dt (storage_vFixed sp i dt)
            (((storage_pass E i j links dt (storage_vFixed sp i dt)) ^^ (n - 1))
               (sp, newDepth (Node sp ! i))) \<or> n = 9"
proof -
  have u: "updateStorageState E sp i j links dt
        = markUpdated i (fst (fst (storage_iterate E i j links dt (storage_vFixed sp i dt)
                                     (sp, newDepth (Node sp ! i)) 1 False)))"
    using assms by (simp add: updateStorageState_def Let_def storage_vFixed_def markUpdated_def)
  show thesis
    by (rule storage_iterate_from_one [of E i j links dt "storage_vFixed sp i dt"
             "(sp, newDepth (Node sp ! i))"])
       (rule that, simp_all add: u)
qed

lemma markUpdated_simps:
  "length (Node (markUpdated i sp)) = length (Node sp)"
  "Link (markUpdated i sp) = Link sp"
  "Conduit (markUpdated i sp) = Conduit sp"
  "AllowPonding (markUpdated i sp) = AllowPonding sp"
  "ErrorCode (markUpdated i sp) = ErrorCode sp"
  "k \<noteq> i \<Longrightarrow> Node (markUpdated i sp) ! k = Node sp ! k"
  "i < length (Node sp) \<Longrightarrow> Node (markUpdated i sp) ! i = (Node sp ! i)\<lparr>updated := True\<rparr>"
  by (simp_all add: markUpdated_def)

lemma updateStorageState_length:
  "length (Node (updateStorageState E sp i j links dt)) = length (Node sp)"
proof (cases "ntype (Node sp ! i) = STORAGE \<and> \<not> updated (Node sp ! i)")
  case False
  then show ?thesis by (simp add: updateStorageState_noop)
next
  case True
  then obtain n where "updateStorageState E sp i j links dt
           = markUpdated i (fst (((storage_pass E i j links dt (storage_vFixed sp i dt)) ^^ n)
                                   (sp, newDepth (Node sp ! i))))"
    using updateStorageState_run [of sp i E j links dt] by blast
  then show ?thesis by (simp add: markUpdated_simps storage_funpow_length)
qed

lemma updateStorageState_frame:
  "Link (updateStorageState E sp i j links dt) = Link sp
   \<and> Conduit (updateStorageState E sp i j links dt) = Conduit sp
   \<and> AllowPonding (updateStorageState E sp i j links dt) = AllowPonding sp
   \<and> ErrorCode (updateStorageState E sp i j links dt) = ErrorCode sp"
proof (cases "ntype (Node sp ! i) = STORAGE \<and> \<not> updated (Node sp ! i)")
  case False
  then show ?thesis by (simp add: updateStorageState_noop)
next
  case True
  then obtain n where "updateStorageState E sp i j links dt
           = markUpdated i (fst (((storage_pass E i j links dt (storage_vFixed sp i dt)) ^^ n)
                                   (sp, newDepth (Node sp ! i))))"
    using updateStorageState_run [of sp i E j links dt] by blast
  then show ?thesis by (simp add: markUpdated_simps storage_funpow_frame)
qed

lemma updateStorageState_other:
  "k \<noteq> i \<Longrightarrow> Node (updateStorageState E sp i j links dt) ! k = Node sp ! k"
proof (cases "ntype (Node sp ! i) = STORAGE \<and> \<not> updated (Node sp ! i)")
  case False
  then show ?thesis by (simp add: updateStorageState_noop)
next
  case True
  assume k: "k \<noteq> i"
  from True obtain n where "updateStorageState E sp i j links dt
           = markUpdated i (fst (((storage_pass E i j links dt (storage_vFixed sp i dt)) ^^ n)
                                   (sp, newDepth (Node sp ! i))))"
    using updateStorageState_run [of sp i E j links dt] by blast
  with k show ?thesis by (simp add: markUpdated_simps storage_funpow_other)
qed

lemma updateStorageState_self:
  assumes "i < length (Node sp)" "ntype (Node sp ! i) = STORAGE" "\<not> updated (Node sp ! i)"
  shows "ntype (Node (updateStorageState E sp i j links dt) ! i) = STORAGE"
    and "fullVolume (Node (updateStorageState E sp i j links dt) ! i) = fullVolume (Node sp ! i)"
    and "updated (Node (updateStorageState E sp i j links dt) ! i)"
    and "0 \<le> FUDGE E \<Longrightarrow> 0 \<le> fullVolume (Node sp ! i) \<Longrightarrow>
         node_ok E (Node (updateStorageState E sp i j links dt) ! i)"
proof -
  let ?P = "storage_pass E i j links dt (storage_vFixed sp i dt)"
  let ?s = "(sp, newDepth (Node sp ! i))"
  from assms(2,3) obtain n where n: "1 \<le> n"
    "updateStorageState E sp i j links dt = markUpdated i (fst ((?P ^^ n) ?s))"
    using updateStorageState_run [of sp i E j links dt] by blast
  have len: "i < length (Node (fst ((?P ^^ n) ?s)))"
    using assms(1) by (simp add: storage_funpow_length)
  have same: "ntype (Node (fst ((?P ^^ n) ?s)) ! i) = ntype (Node sp ! i)"
    "fullVolume (Node (fst ((?P ^^ n) ?s)) ! i) = fullVolume (Node sp ! i)"
    using storage_funpow_same [where s = ?s and i = i and n = n and E = E and j = j
        and links = links and dt = dt and vFixed = "storage_vFixed sp i dt"] assms(1)
    by simp_all
  show "ntype (Node (updateStorageState E sp i j links dt) ! i) = STORAGE"
    using len same assms(2) by (simp add: n(2) markUpdated_simps)
  show "fullVolume (Node (updateStorageState E sp i j links dt) ! i) = fullVolume (Node sp ! i)"
    using len same by (simp add: n(2) markUpdated_simps)
  show "updated (Node (updateStorageState E sp i j links dt) ! i)"
    using len by (simp add: n(2) markUpdated_simps)
  show "node_ok E (Node (updateStorageState E sp i j links dt) ! i)"
    if "0 \<le> FUDGE E" "0 \<le> fullVolume (Node sp ! i)"
  proof -
    have "node_ok E (Node (fst ((?P ^^ n) ?s)) ! i)"
      using assms(1) that n(1) by (simp add: storage_funpow_ok)
    then show ?thesis using len by (simp add: n(2) markUpdated_simps node_ok_def)
  qed
qed

lemma nth_update_field:
  "g x = g (xs ! i) \<Longrightarrow> g (xs[i := x] ! k) = g (xs ! k)"
  by (cases "i < length xs"; cases "k = i") (simp_all add: list_update_beyond)

lemma steadyflow_execute_Node:
  "Node (snd (snd (snd (steadyflow_execute E sp j qin tStep)))) = Node sp"
  by (simp add: steadyflow_execute_def Let_def)

lemma routeFlow_Node:
  "Node (snd (snd (snd (routeFlow E routingModel sp j qin tStep)))) = Node sp"
  by (simp add: routeFlow_def steadyflow_execute_Node split_beta)

lemma setLinkFlow_Node: "Node (setLinkFlow sp j q) = Node sp"
  by (simp add: setLinkFlow_def)

lemma addNodeOutflow_fields:
  "length (Node (addNodeOutflow sp n q)) = length (Node sp)"
  "ntype (Node (addNodeOutflow sp n q) ! k) = ntype (Node sp ! k)"
  "fullVolume (Node (addNodeOutflow sp n q) ! k) = fullVolume (Node sp ! k)"
  "updated (Node (addNodeOutflow sp n q) ! k) = updated (Node sp ! k)"
  "overflow (Node (addNodeOutflow sp n q) ! k) = overflow (Node sp ! k)"
  "newVolume (Node (addNodeOutflow sp n q) ! k) = newVolume (Node sp ! k)"
  by (simp_all add: addNodeOutflow_def nth_update_field)

lemma addNodeInflow_fields:
  "length (Node (addNodeInflow sp n q)) = length (Node sp)"
  "ntype (Node (addNodeInflow sp n q) ! k) = ntype (Node sp ! k)"
  "fullVolume (Node (addNodeInflow sp n q) ! k) = fullVolume (Node sp ! k)"
  "updated (Node (addNodeInflow sp n q) ! k) = updated (Node sp ! k)"
  "overflow (Node (addNodeInflow sp n q) ! k) = overflow (Node sp ! k)"
  "newVolume (Node (addNodeInflow sp n q) ! k) = newVolume (Node sp ! k)"
  by (simp_all add: addNodeInflow_def nth_update_field)

lemmas routeLink_simps = routeLink_def Let_def addNodeInflow_fields addNodeOutflow_fields
  setLinkFlow_Node routeFlow_Node

lemma routeLink_length:
  "length (Node (fst (routeLink E links routingModel tStep i s))) = length (Node (fst s))"
  by (simp add: routeLink_simps updateStorageState_length)

lemma routeLink_fields:
  fixes E links tStep i s k routingModel
  defines "sp1 \<equiv> (if ntype (Node (fst s) ! node1 (Link (fst s) ! (links ! i))) = STORAGE
                  then updateStorageState E (fst s) (node1 (Link (fst s) ! (links ! i))) i links tStep
                  else fst s)"
  shows "ntype (Node (fst (routeLink E links routingModel tStep i s)) ! k) = ntype (Node sp1 ! k)"
    and "fullVolume (Node (fst (routeLink E links routingModel tStep i s)) ! k) = fullVolume (Node sp1 ! k)"
    and "updated (Node (fst (routeLink E links routingModel tStep i s)) ! k) = updated (Node sp1 ! k)"
    and "overflow (Node (fst (routeLink E links routingModel tStep i s)) ! k) = overflow (Node sp1 ! k)"
    and "newVolume (Node (fst (routeLink E links routingModel tStep i s)) ! k) = newVolume (Node sp1 ! k)"
  unfolding sp1_def by (simp_all add: routeLink_simps)

lemma node_routed_refl: "node_routed E a a"
  by (simp add: node_routed_def)

lemma node_routed_trans:
  "node_routed E a b \<Longrightarrow> node_routed E b c \<Longrightarrow> node_routed E a c"
  unfolding node_routed_def node_ok_def by metis

lemma node_routed_cong:
  "node_routed E a b \<Longrightarrow> ntype c = ntype b \<Longrightarrow> fullVolume c = fullVolume b \<Longrightarrow>
   updated c = updated b \<Longrightarrow> overflow c = overflow b \<Longrightarrow> newVolume c = newVolume b \<Longrightarrow>
   node_routed E a c"
  by (simp add: node_routed_def node_ok_def)

lemma updateStorageState_routed:
  assumes "k < length (Node sp)"
  shows "node_routed E (Node sp ! k) (Node (updateStorageState E sp i j links dt) ! k)"
proof (cases "k = i \<and> ntype (Node sp ! i) = STORAGE \<and> \<not> updated (Node sp ! i)")
  case True
  with assms updateStorageState_self [of i sp E j links dt] show ?thesis
    by (simp add: node_routed_def)
next
  case False
  then have "Node (updateStorageState E sp i j links dt) ! k = Node sp ! k"
    using updateStorageState_other [of k i E sp j links dt]
      updateStorageState_noop [of sp i E j links dt] by auto
  then show ?thesis by (simp add: node_routed_refl)
qed

lemma routeLink_routed:
  assumes "k < length (Node (fst s))"
  shows "node_routed E (Node (fst s) ! k) (Node (fst (routeLink E links routingModel tStep i s)) ! k)"
proof -
  let ?sp1 = "(if ntype (Node (fst s) ! node1 (Link (fst s) ! (links ! i))) = STORAGE
               then updateStorageState E (fst s) (node1 (Link (fst s) ! (links ! i))) i links tStep
               else fst s)"
  have "node_routed E (Node (fst s) ! k) (Node ?sp1 ! k)"
    using assms by (simp add: updateStorageState_routed node_routed_refl)
  then show ?thesis
    by (rule node_routed_cong) (simp_all only: routeLink_fields)
qed

lemma fold_routeLink_routed:
  "length (Node (fst (fold (routeLink E links routingModel tStep) js s))) = length (Node (fst s))
   \<and> (\<forall>k<length (Node (fst s)).
         node_routed E (Node (fst s) ! k)
           (Node (fst (fold (routeLink E links routingModel tStep) js s)) ! k))"
proof (induction js arbitrary: s)
  case Nil
  show ?case by (simp add: node_routed_refl)
next
  case (Cons j js)
  let ?t = "routeLink E links routingModel tStep j s"
  have len: "length (Node (fst ?t)) = length (Node (fst s))" by (rule routeLink_length)
  from Cons.IH [of ?t] len show ?case
    by (auto intro: node_routed_trans [OF routeLink_routed])
qed

lemma fold_upt_invariant:
  assumes "P 0 s" and "\<And>j t. j < n \<Longrightarrow> P j t \<Longrightarrow> P (Suc j) (f j t)"
  shows "P n (fold f [0..<n] s)"
  using assms(2)
proof (induction n)
  case 0
  show ?case using assms(1) by simp
next
  case (Suc n)
  have "P n (fold f [0..<n] s)" by (rule Suc.IH) (simp add: Suc.prems)
  then show ?case by (simp add: Suc.prems)
qed

subsection \<open>setNewNodeState\<close>

lemma setNewNodeState_length:
  "length (Node (setNewNodeState E sp j dt)) = length (Node sp)"
  by (simp add: setNewNodeState_def Let_def updateStorageState_length)

lemma setNewNodeState_other:
  "k \<noteq> j \<Longrightarrow> Node (setNewNodeState E sp j dt) ! k = Node sp ! k"
  by (simp add: setNewNodeState_def Let_def updateStorageState_other)

lemma setNewNodeState_storage:
  assumes "j < length (Node sp)" "ntype (Node sp ! j) = STORAGE"
  shows "ntype (Node (setNewNodeState E sp j dt) ! j) = STORAGE"
    and "fullVolume (Node (setNewNodeState E sp j dt) ! j) = fullVolume (Node sp ! j)"
    and "updated (Node (setNewNodeState E sp j dt) ! j)"
    and "0 \<le> FUDGE E \<Longrightarrow> 0 \<le> fullVolume (Node sp ! j) \<Longrightarrow>
         (updated (Node sp ! j) \<longrightarrow> node_ok E (Node sp ! j)) \<Longrightarrow>
         node_ok E (Node (setNewNodeState E sp j dt) ! j)"
  using assms updateStorageState_self [of j sp E "length (Link sp)" "[]" dt]
  by (auto simp: setNewNodeState_def)

lemma setNewNodeState_plain:
  assumes "j < length (Node sp)" "ntype (Node sp ! j) \<noteq> STORAGE"
  shows "ntype (Node (setNewNodeState E sp j dt) ! j) = ntype (Node sp ! j)"
    and "fullVolume (Node (setNewNodeState E sp j dt) ! j) = fullVolume (Node sp ! j)"
    and "updated (Node (setNewNodeState E sp j dt) ! j) = updated (Node sp ! j)"
    and "0 \<le> FUDGE E \<Longrightarrow> 0 \<le> fullVolume (Node sp ! j) \<Longrightarrow>
         node_ok E (Node (setNewNodeState E sp j dt) ! j)"
  using assms by (simp_all add: setNewNodeState_def Let_def node_ok_def)

subsection \<open>setNewLinkState\<close>

lemma updateNodeDepth_fields:
  "length (Node (updateNodeDepth sp i y)) = length (Node sp)"
  "ntype (Node (updateNodeDepth sp i y) ! k) = ntype (Node sp ! k)"
  "fullVolume (Node (updateNodeDepth sp i y) ! k) = fullVolume (Node sp ! k)"
  "updated (Node (updateNodeDepth sp i y) ! k) = updated (Node sp ! k)"
  "overflow (Node (updateNodeDepth sp i y) ! k) = overflow (Node sp ! k)"
  "newVolume (Node (updateNodeDepth sp i y) ! k) = newVolume (Node sp ! k)"
  by (simp_all add: updateNodeDepth_def Let_def nth_update_field)

lemma setNewLinkState_fields:
  "length (Node (setNewLinkState E sp j)) = length (Node sp)"
  "ntype (Node (setNewLinkState E sp j) ! k) = ntype (Node sp ! k)"
  "fullVolume (Node (setNewLinkState E sp j) ! k) = fullVolume (Node sp ! k)"
  "updated (Node (setNewLinkState E sp j) ! k) = updated (Node sp ! k)"
  "overflow (Node (setNewLinkState E sp j) ! k) = overflow (Node sp ! k)"
  "newVolume (Node (setNewLinkState E sp j) ! k) = newVolume (Node sp ! k)"
  by (simp_all add: setNewLinkState_def Let_def updateNodeDepth_fields)

lemma fold_setNewLinkState_fields:
  "length (Node (fold (\<lambda>j p. setNewLinkState E p j) js sp)) = length (Node sp)"
  "ntype (Node (fold (\<lambda>j p. setNewLinkState E p j) js sp) ! k) = ntype (Node sp ! k)"
  "fullVolume (Node (fold (\<lambda>j p. setNewLinkState E p j) js sp) ! k) = fullVolume (Node sp ! k)"
  "updated (Node (fold (\<lambda>j p. setNewLinkState E p j) js sp) ! k) = updated (Node sp ! k)"
  "overflow (Node (fold (\<lambda>j p. setNewLinkState E p j) js sp) ! k) = overflow (Node sp ! k)"
  "newVolume (Node (fold (\<lambda>j p. setNewLinkState E p j) js sp) ! k) = newVolume (Node sp ! k)"
  by (induction js arbitrary: sp) (simp_all add: setNewLinkState_fields)

lemma resetNode_fields:
  "ntype (resetNode tStep nd) = ntype nd"
  "fullVolume (resetNode tStep nd) = fullVolume nd"
  "\<not> updated (resetNode tStep nd)"
  by (simp_all add: resetNode_def Let_def)

lemma nodes_closed_links:
  "nodes_closed E sp 0
     (fst (fold (routeLink E links routingModel tStep) js
             (sp\<lparr>Node := map (resetNode tStep) (Node sp)\<rparr>, x)))"
proof -
  let ?s = "(sp\<lparr>Node := map (resetNode tStep) (Node sp)\<rparr>, x)"
  let ?t = "fold (routeLink E links routingModel tStep) js ?s"
  from fold_routeLink_routed [of E links routingModel tStep js ?s]
  have len: "length (Node (fst ?t)) = length (Node sp)"
    and r: "\<And>k. k < length (Node sp) \<Longrightarrow>
              node_routed E (resetNode tStep (Node sp ! k)) (Node (fst ?t) ! k)"
    by simp_all
  show ?thesis
    unfolding nodes_closed_def
  proof (intro conjI allI impI)
    show "length (Node (fst ?t)) = length (Node sp)" by (rule len)
  next
    fix k assume "k < length (Node sp)"
    from r [OF this] show "ntype (Node (fst ?t) ! k) = ntype (Node sp ! k)"
      by (simp add: node_routed_def resetNode_fields)
  next
    fix k assume "k < length (Node sp)"
    from r [OF this] show "fullVolume (Node (fst ?t) ! k) = fullVolume (Node sp ! k)"
      by (simp add: node_routed_def resetNode_fields)
  next
    fix k assume "k < length (Node sp)" "updated (Node (fst ?t) ! k)"
    with r [of k] show "ntype (Node sp ! k) = STORAGE"
      by (simp add: node_routed_def resetNode_fields)
  next
    fix k assume "k < length (Node sp)" "k < 0 \<and> ntype (Node sp ! k) = STORAGE"
    then show "updated (Node (fst ?t) ! k)" by simp
  next
    fix k assume "k < length (Node sp)" "0 \<le> FUDGE E \<and> 0 \<le> fullVolume (Node sp ! k)"
      "updated (Node (fst ?t) ! k) \<or> k < 0"
    with r [of k] show "node_ok E (Node (fst ?t) ! k)"
      by (simp add: node_routed_def resetNode_fields)
  qed
qed

lemma nodes_closed_step:
  assumes "nodes_closed E sp0 j sp" "j < length (Node sp0)"
  shows "nodes_closed E sp0 (Suc j) (setNewNodeState E sp j dt)"
proof -
  from assms have len: "length (Node sp) = length (Node sp0)" and j: "j < length (Node sp)"
    by (simp_all add: nodes_closed_def)
  from assms(1) have inv: "\<And>k. k < length (Node sp0) \<Longrightarrow>
        ntype (Node sp ! k) = ntype (Node sp0 ! k)
        \<and> fullVolume (Node sp ! k) = fullVolume (Node sp0 ! k)
        \<and> (updated (Node sp ! k) \<longrightarrow> ntype (Node sp0 ! k) = STORAGE)
        \<and> (k < j \<and> ntype (Node sp0 ! k) = STORAGE \<longrightarrow> updated (Node sp ! k))
        \<and> (0 \<le> FUDGE E \<and> 0 \<le> fullVolume (Node sp0 ! k) \<longrightarrow>
             updated (Node sp ! k) \<or> k < j \<longrightarrow> node_ok E (Node sp ! k))"
    by (simp add: nodes_closed_def)
  let ?sp' = "setNewNodeState E sp j dt"
  have "ntype (Node ?sp' ! k) = ntype (Node sp0 ! k)
        \<and> fullVolume (Node ?sp' ! k) = fullVolume (Node sp0 ! k)
        \<and> (updated (Node ?sp' ! k) \<longrightarrow> ntype (Node sp0 ! k) = STORAGE)
        \<and> (k < Suc j \<and> ntype (Node sp0 ! k) = STORAGE \<longrightarrow> updated (Node ?sp' ! k))
        \<and> (0 \<le> FUDGE E \<and> 0 \<le> fullVolume (Node sp0 ! k) \<longrightarrow>
             updated (Node ?sp' ! k) \<or> k < Suc j \<longrightarrow> node_ok E (Node ?sp' ! k))"
    if k: "k < length (Node sp0)" for k
  proof (cases "k = j")
    case False
    then have "Node ?sp' ! k = Node sp ! k" by (rule setNewNodeState_other)
    with inv [OF k] False show ?thesis by auto
  next
    case True
    show ?thesis
    proof (cases "ntype (Node sp ! j) = STORAGE")
      case st: True
      from setNewNodeState_storage [OF j st, of E dt] inv [OF assms(2)] True st
      show ?thesis by auto
    next
      case pl: False
      from setNewNodeState_plain [OF j pl, of E dt] inv [OF assms(2)] True pl
      show ?thesis by auto
    qed
  qed
  then show ?thesis
    by (simp add: nodes_closed_def setNewNodeState_length len)
qed

lemma nodes_closed_fold:
  assumes "nodes_closed E sp0 0 sp"
  shows "nodes_closed E sp0 (length (Node sp0))
           (fold (\<lambda>j p. setNewNodeState E p j dt) [0..<length (Node sp0)] sp)"
  by (rule fold_upt_invariant [where P = "nodes_closed E sp0"])
     (simp_all add: assms nodes_closed_step)

lemma nodes_closed_links_frame:
  "nodes_closed E sp0 j (fold (\<lambda>j p. setNewLinkState E p j) js t) = nodes_closed E sp0 j t"
  unfolding nodes_closed_def node_ok_def by (simp only: fold_setNewLinkState_fields)

lemma flowrout_execute_closed:
  assumes "ErrorCode sp = 0" "routingModel \<noteq> DW"
  shows "nodes_closed E sp (length (Node sp))
           (snd (flowrout_execute E sp links routingModel tStep))"
proof -
  let ?s = "fold (routeLink E links routingModel tStep) [0..<length (Link sp)]
              (sp\<lparr>Node := map (resetNode tStep) (Node sp)\<rparr>, 0)"
  let ?sp3 = "fold (\<lambda>j p. setNewNodeState E p j tStep) [0..<length (Node sp)] (fst ?s)"
  have c0: "nodes_closed E sp 0 (fst ?s)" by (rule nodes_closed_links)
  then have len: "length (Node (fst ?s)) = length (Node sp)" by (simp add: nodes_closed_def)
  have c3: "nodes_closed E sp (length (Node sp)) ?sp3" using c0 by (rule nodes_closed_fold)
  have "nodes_closed E sp (length (Node sp)) (fold (\<lambda>j p. setNewLinkState E p j) js ?sp3)" for js
    using c3 by (simp only: nodes_closed_links_frame)
  then show ?thesis
    using assms by (simp add: flowrout_execute_def Let_def len)
qed

text \<open>What a pass of the storage iteration and the update of another node write.\<close>

lemma storage_pass_writes:
  assumes "i < length (Node (fst s))"
  shows "newVolume (Node (fst (storage_pass E i j links dt vFixed s)) ! i)
           = (let nd = Node (fst s) ! i;
                  v = max 0 (vFixed - 0.5 * getStorageOutflow E (fst s) i j links dt * dt)
              in if AllowPonding (fst s) \<and> pondedArea nd \<noteq> 0 then v
                 else min v (fullVolume nd))"
    and "overflow (Node (fst (storage_pass E i j links dt vFixed s)) ! i)
           = (let nd = Node (fst s) ! i;
                  v = max 0 (vFixed - 0.5 * getStorageOutflow E (fst s) i j links dt * dt);
                  q = (v - max (oldVolume nd) (fullVolume nd)) / dt
              in if v > fullVolume nd \<and> FUDGE E \<le> q then q else 0)"
  using assms by (auto simp add: storage_pass_def Let_def min_def)

lemma storage_pass_keeps:
  assumes "i < length (Node (fst s))"
  shows "oldVolume (Node (fst (storage_pass E i j links dt vFixed s)) ! i) = oldVolume (Node (fst s) ! i)"
    and "pondedArea (Node (fst (storage_pass E i j links dt vFixed s)) ! i) = pondedArea (Node (fst s) ! i)"
  using assms by (simp_all add: storage_pass_def Let_def)

lemma storage_funpow_keeps:
  assumes "i < length (Node (fst s))"
  shows "oldVolume (Node (fst (((storage_pass E i j links dt vFixed) ^^ n) s)) ! i) = oldVolume (Node (fst s) ! i)
       \<and> pondedArea (Node (fst (((storage_pass E i j links dt vFixed) ^^ n) s)) ! i) = pondedArea (Node (fst s) ! i)"
  using assms by (induction n) (simp_all add: storage_pass_keeps storage_funpow_length)

lemma updateStorageState_writes:
  assumes "i < length (Node sp)" "ntype (Node sp ! i) = STORAGE" "\<not> updated (Node sp ! i)"
  shows "\<exists>n. 1 \<le> n \<and> n \<le> 9 \<and>
     (let s = ((storage_pass E i j links dt (storage_vFixed sp i dt)) ^^ (n - 1))
                (sp, newDepth (Node sp ! i));
          nd = Node sp ! i;
          v = max 0 (storage_vFixed sp i dt - 0.5 * getStorageOutflow E (fst s) i j links dt * dt);
          q = (v - max (oldVolume nd) (fullVolume nd)) / dt;
          nd' = Node (updateStorageState E sp i j links dt) ! i
      in newVolume nd' = (if AllowPonding sp \<and> pondedArea nd \<noteq> 0 then v
                          else min v (fullVolume nd))
         \<and> overflow nd' = (if v > fullVolume nd \<and> FUDGE E \<le> q then q else 0))"
proof -
  define P where "P = storage_pass E i j links dt (storage_vFixed sp i dt)"
  from updateStorageState_run [OF assms(2,3), of E j links dt] obtain n where
    n: "1 \<le> n" "n \<le> 9"
    and u: "updateStorageState E sp i j links dt
           = markUpdated i (fst ((P ^^ n) (sp, newDepth (Node sp ! i))))"
    unfolding P_def by blast
  define s where "s = (P ^^ (n - 1)) (sp, newDepth (Node sp ! i))"
  have "P ^^ n = P ^^ (Suc (n - 1))" using n(1) by simp
  then have pn: "(P ^^ n) (sp, newDepth (Node sp ! i)) = P s" by (simp add: s_def)
  have len: "length (Node (fst s)) = length (Node sp)"
    unfolding s_def P_def by (simp add: storage_funpow_length)
  have ii: "i < length (Node (fst s))" using assms(1) len by simp
  have k: "oldVolume (Node (fst s) ! i) = oldVolume (Node sp ! i)"
    "pondedArea (Node (fst s) ! i) = pondedArea (Node sp ! i)"
    using storage_funpow_keeps [where i = i and s = "(sp, newDepth (Node sp ! i))" and E = E
        and j = j and links = links and dt = dt and vFixed = "storage_vFixed sp i dt"
        and n = "n - 1"] assms(1)
    by (simp_all add: s_def P_def)
  have f: "fullVolume (Node (fst s) ! i) = fullVolume (Node sp ! i)"
    using storage_funpow_same [where i = i and s = "(sp, newDepth (Node sp ! i))" and E = E
        and j = j and links = links and dt = dt and vFixed = "storage_vFixed sp i dt"
        and n = "n - 1"] assms(1)
    by (simp add: s_def P_def)
  have a: "AllowPonding (fst s) = AllowPonding sp"
    unfolding s_def P_def by (simp add: storage_funpow_frame)
  have lp: "i < length (Node (fst (P s)))"
    using ii unfolding P_def by (simp add: storage_pass_length)
  have nd': "Node (updateStorageState E sp i j links dt) ! i
               = (Node (fst (P s)) ! i)\<lparr>updated := True\<rparr>"
    using lp by (simp add: u pn markUpdated_simps)
  have "newVolume (Node (updateStorageState E sp i j links dt) ! i)
          = newVolume (Node (fst (P s)) ! i)"
    and "overflow (Node (updateStorageState E sp i j links dt) ! i)
          = overflow (Node (fst (P s)) ! i)"
    by (simp_all add: nd')
  then have "let nd = Node sp ! i;
          v = max 0 (storage_vFixed sp i dt - 0.5 * getStorageOutflow E (fst s) i j links dt * dt);
          q = (v - max (oldVolume nd) (fullVolume nd)) / dt;
          nd' = Node (updateStorageState E sp i j links dt) ! i
      in newVolume nd' = (if AllowPonding sp \<and> pondedArea nd \<noteq> 0 then v
                          else min v (fullVolume nd))
         \<and> overflow nd' = (if v > fullVolume nd \<and> FUDGE E \<le> q then q else 0)"
    using storage_pass_writes [OF ii, where E = E and j = j and links = links and dt = dt
        and vFixed = "storage_vFixed sp i dt"] k f a
    by (simp add: P_def Let_def)
  then show ?thesis using n unfolding s_def P_def Let_def by blast
qed

lemma setNewNodeState_writes:
  assumes "j < length (Node sp)" "ntype (Node sp ! j) \<noteq> STORAGE"
  shows "let nd = Node sp ! j;
             v = oldVolume nd + 0.5 * (oldNetInflow nd + (inflow nd - outflow nd - losses nd)) * dt;
             v = (if v < FUDGE E then 0 else v);
             q = (v - max (oldVolume nd) (fullVolume nd)) / dt;
             nd' = Node (setNewNodeState E sp j dt) ! j
         in newVolume nd' = (if AllowPonding sp \<and> pondedArea nd > 0 then v
                             else min v (fullVolume nd))
            \<and> overflow nd' = (if v > fullVolume nd \<and> FUDGE E \<le> q then q else 0)"
  using assms by (auto simp add: setNewNodeState_def Let_def min_def)

lemma getStorageOutflow_end:
  "length (Link sp) \<le> j \<Longrightarrow> getStorageOutflow E sp i j links dt = 0"
  by (simp add: getStorageOutflow_def getStorageOutflow_loop_sum)


section \<open>Properties of the hot start reader\<close>

lemma stamp4: "stamp ''SWMM5-HOTSTART4'' = [83, 87, 77, 77, 53, 45, 72, 79, 84, 83, 84, 65, 82, 84, 52]"
  by (simp add: stamp_def)

lemma hotfile0_bytes: "hotfile0 = [83, 87, 77, 77, 53, 45, 72, 79, 84, 83, 84, 65, 82, 84, 52,
   1, 0, 0, 0,  0, 0, 0, 0,  1, 0, 0, 0,  0, 0, 0, 0,  0, 0, 0, 0,  0, 0, 0, 0,
   0, 0, 0, 0, 0, 0, 0xF8, 0x7F,
   0, 0, 0, 0, 0, 0, 0, 0,  0, 0, 0, 0, 0, 0, 0, 0,  0, 0, 0, 0, 0, 0, 0, 0,
   0, 0, 0, 0, 0, 0, 0, 0,  0, 0, 0, 0, 0, 0, 0, 0,  0, 0, 0, 0, 0, 0, 0, 0,
   0, 0, 0, 0, 0, 0, 0, 0,  0, 0, 0, 0, 0, 0, 0, 0,  0, 0, 0, 0, 0, 0, 0, 0,
   0, 0, 0, 0,  0, 0, 0, 0]"
  by (simp add: hotfile0_def stamp_def nan8_def zero8_def)


lemma hf_chars: "fread_chars 15 (hf 0) = (stamp ''SWMM5-HOTSTART4'', hf 15)"
  by (simp add: hf_def fread_chars_def Let_def stamp4 hotfile0_bytes)

lemma hf_ints:
  "readInt (- 1) (hf 15) = (1, hf 19)"
  "readInt (- 1) (hf 19) = (0, hf 23)"
  "readInt (- 1) (hf 23) = (1, hf 27)"
  "readInt (- 1) (hf 27) = (0, hf 31)"
  "readInt (- 1) (hf 31) = (0, hf 35)"
  "readInt (- 1) (hf 35) = (0, hf 39)"
  by (simp_all add: hf_def readInt_def fread1_def hotfile0_bytes word4_def le_nat_def)

lemma hf_double: "fread1 8 (hf 39) = (Some nan8, hf 47)"
  by (simp add: hf_def fread1_def hotfile0_bytes nan8_def)

lemma hf_floats:
  "fread1 4 (hf 47) = (Some [0, 0, 0, 0], hf 51)"
  "fread1 4 (hf 51) = (Some [0, 0, 0, 0], hf 55)"
  by (simp_all add: hf_def fread1_def hotfile0_bytes)

lemma nan8_isNaN: "double_isNaN (word8 nan8)"
  by (simp add: double_isNaN_def word8_def le_nat_def nan8_def)

lemma zero4_notNaN: "\<not> float_isNaN (word4 [0, 0, 0, 0])"
  by (simp add: float_isNaN_def word4_def le_nat_def)

lemma hf_feof: "\<not> feof (hf p)"
  by (simp add: hf_def)

lemma readRunoff_nan:
  assumes "Fhotstart1_file sp = hf 39" "nSubcatch sp = 1"
  shows "Fhotstart1_file (readRunoff sp) = hf 47"
    and "hsErrorCode (readRunoff sp) = hsErrorCode sp"
    and "FileVersion (readRunoff sp) = FileVersion sp"
    and "nNodes (readRunoff sp) = nNodes sp"
    and "nLinks (readRunoff sp) = nLinks sp"
    and "nPollut (readRunoff sp) = nPollut sp"
    and "nodeType (readRunoff sp) = nodeType sp"
  using assms
  by (simp_all add: readRunoff_def readRunoff_subcatch_def andThen_def readDoubleAt_def
        readDouble_def hf_double hf_feof nan8_isNaN upt_rec)

lemma readRouting_ok:
  assumes "Fhotstart1_file sp = hf 47" "FileVersion sp = 4" "nNodes sp = 1" "nLinks sp = 0"
    "nPollut sp = 0" "nodeType sp = [JUNCTION]"
  shows "hsErrorCode (readRouting sp) = hsErrorCode sp"
  using assms
  by (simp add: readRouting_def readRouting_node_def andThen_def onlyIf_def effect_def
        readFloatX_def readFloat_def hf_floats zero4_notNaN upt_rec Let_def)


lemma stampx: "stamp ''SWMM5-HOTSTARTx'' = [83, 87, 77, 77, 53, 45, 72, 79, 84, 83, 84, 65, 82, 84, 120]"
  by (simp add: stamp_def)

lemma hf_readStamp: "readStamp (hf 0) = (4, hf 15)"
  by (simp add: readStamp_def Let_def hf_chars stamp4 stampx)

lemma hf_readContents:
  assumes "FileVersion sp = 4" "nSubcatch sp = 1" "nLandUses sp = 0" "nNodes sp = 1"
    "nLinks sp = 0" "nPollut sp = 0" "FlowUnits sp = 0"
  shows "readContents sp (hf 15)
           = (hsErrorCode (readRouting (readRunoff (sp\<lparr>Fhotstart1_file := hf 39\<rparr>))) = None,
              readRouting (readRunoff (sp\<lparr>Fhotstart1_file := hf 39\<rparr>)))"
  using assms by (simp add: readContents_def Let_def hf_ints)


text \<open>A float that is a NaN is reported by \<^verbatim>\<open>readFloat\<close>, as is the end of the file by \<^verbatim>\<open>readDouble\<close>.\<close>

lemma readFloat_NaN:
  assumes "fread1 4 (Fhotstart1_file sp) = (Some bs, f)" "float_isNaN (word4 bs)"
  shows "readFloat x sp = (False, 0, sp\<lparr>Fhotstart1_file := f, hsErrorCode := Some ERR_HOTSTART_FILE_READ\<rparr>)"
  using assms by (simp add: readFloat_def report_writeErrorMsg_def)

lemma readDouble_NaN:
  assumes "\<not> feof (Fhotstart1_file sp)" "fread1 8 (Fhotstart1_file sp) = (Some bs, f)"
    "double_isNaN (word8 bs)"
  shows "readDouble x sp = (False, 0, sp\<lparr>Fhotstart1_file := f\<rparr>)"
  using assms by (simp add: readDouble_def)


section \<open>Properties of the binary output file\<close>

lemma le_nat_Cons: "le_nat (b # bs) = unat b + 256 * le_nat bs"
  by (simp add: le_nat_def)

lemma le_nat_Nil: "le_nat [] = 0"
  by (simp add: le_nat_def)

lemma le_nat_le_bytes: "le_nat (le_bytes n v) = v mod 256 ^ n"
proof (induction n arbitrary: v)
  case 0
  show ?case by (simp add: le_nat_Nil)
next
  case (Suc n)
  have "unat (of_nat (v mod 256) :: byte) = v mod 256"
    by (simp add: unat_of_nat)
  then have "le_nat (le_bytes (Suc n) v) = v mod 256 + 256 * ((v div 256) mod 256 ^ n)"
    by (simp add: le_nat_Cons Suc.IH)
  also have "\<dots> = v mod 256 ^ Suc n"
    by (simp add: mod_mult2_eq)
  finally show ?case .
qed

lemma length_le_bytes: "length (le_bytes n v) = n"
  by (induction n arbitrary: v) simp_all

lemma word4_bytes4: "word4 (bytes4 w) = w"
proof -
  have "unat w < 256 ^ 4" using unsigned_less [of w, where 'a = nat] by simp
  then show ?thesis by (simp add: word4_def bytes4_def le_nat_le_bytes)
qed

lemma length_bytes4: "length (bytes4 w) = 4"
  by (simp add: bytes4_def length_le_bytes)

lemma length_bytes8: "length (bytes8 w) = 8"
  by (simp add: bytes8_def length_le_bytes)

lemma length_floats: "length (floats n buf) = 4 * n"
  by (induction n) (simp_all add: floats_def length_bytes4)


lemma take_drop_chunks:
  "i < length ws \<Longrightarrow>
   take 4 (drop (4 * i) (concat (map bytes4 ws) @ rest)) = bytes4 (ws ! i)"
proof (induction ws arbitrary: i)
  case Nil
  then show ?case by simp
next
  case (Cons w ws)
  show ?case
  proof (cases i)
    case 0
    then show ?thesis by (simp add: length_bytes4)
  next
    case (Suc k)
    with Cons.prems have "k < length ws" by simp
    from Cons.IH [OF this] Suc show ?thesis by (simp add: length_bytes4)
  qed
qed

lemma floats_chunks: "floats n buf = concat (map bytes4 (map buf [0..<n]))"
  by (simp add: floats_def comp_def)

lemma take_drop_floats:
  assumes "i < n"
  shows "take 4 (drop (4 * i) (floats n buf @ rest)) = bytes4 (buf i)"
  using take_drop_chunks [of i "map buf [0..<n]" rest] assms by (simp add: floats_chunks)

lemma fread_floats_written:
  assumes "content f = pre @ floats n buf @ post" "fpos f = length pre"
  shows "\<forall>i<n. fst (fread_floats n f b0) i = buf i"
    and "fpos (snd (fread_floats n f b0)) = length pre + 4 * n"
proof -
  have m: "min n ((length (content f) - fpos f) div 4) = n"
    using assms by (simp add: length_floats)
  show "\<forall>i<n. fst (fread_floats n f b0) i = buf i"
  proof (intro allI impI)
    fix i assume i: "i < n"
    have "take 4 (drop (fpos f + 4 * i) (content f)) = take 4 (drop (4 * i) (floats n buf @ post))"
      using assms by simp
    also have "\<dots> = bytes4 (buf i)" using i by (rule take_drop_floats)
    finally show "fst (fread_floats n f b0) i = buf i"
      using i m by (simp add: fread_floats_def Let_def word4_bytes4)
  qed
  show "fpos (snd (fread_floats n f b0)) = length pre + 4 * n"
    using assms m by (simp add: fread_floats_def Let_def)
qed

lemma fwrite_at_end:
  assumes "fpos f = length (content f)"
  shows "fwrite bs f = f\<lparr>content := content f @ bs, fpos := length (content f) + length bs\<rparr>"
  using assms by (simp add: fwrite_def)

lemma oframe_fields:
  assumes "oframe a = oframe b"
  shows "subcatchRpt a = subcatchRpt b" "nodeRpt a = nodeRpt b" "linkRpt a = linkRpt b"
    "MAX_SYS_RESULTS a = MAX_SYS_RESULTS b" "getDateTime a = getDateTime b"
    "double_bits a = double_bits b" "ReportStart a = ReportStart b"
    "subcatch_getResults a = subcatch_getResults b" "node_getResults a = node_getResults b"
    "link_getResults a = link_getResults b"
    "OldRunoffTime a = OldRunoffTime b" "NewRunoffTime a = NewRunoffTime b"
    "OldRoutingTime a = OldRoutingTime b" "NewRoutingTime a = NewRoutingTime b"
    "NsubcatchResults a = NsubcatchResults b" "NnodeResults a = NnodeResults b"
    "NlinkResults a = NlinkResults b" "NumSubcatch a = NumSubcatch b"
    "NumNodes a = NumNodes b" "NumLinks a = NumLinks b" "NumPolluts a = NumPolluts b"
    "BytesPerPeriod a = BytesPerPeriod b" "OutputStartPos a = OutputStartPos b"
    "Nperiods a = Nperiods b"
proof -
  have *: "\<And>sel. (\<And>s. sel (oframe s) = sel s) \<Longrightarrow> sel a = sel b"
    using assms by metis
  show "subcatchRpt a = subcatchRpt b" by (rule *) (simp add: oframe_def)
  show "nodeRpt a = nodeRpt b" by (rule *) (simp add: oframe_def)
  show "linkRpt a = linkRpt b" by (rule *) (simp add: oframe_def)
  show "MAX_SYS_RESULTS a = MAX_SYS_RESULTS b" by (rule *) (simp add: oframe_def)
  show "getDateTime a = getDateTime b" by (rule *) (simp add: oframe_def)
  show "double_bits a = double_bits b" by (rule *) (simp add: oframe_def)
  show "ReportStart a = ReportStart b" by (rule *) (simp add: oframe_def)
  show "subcatch_getResults a = subcatch_getResults b" by (rule *) (simp add: oframe_def)
  show "node_getResults a = node_getResults b" by (rule *) (simp add: oframe_def)
  show "link_getResults a = link_getResults b" by (rule *) (simp add: oframe_def)
  show "OldRunoffTime a = OldRunoffTime b" by (rule *) (simp add: oframe_def)
  show "NewRunoffTime a = NewRunoffTime b" by (rule *) (simp add: oframe_def)
  show "OldRoutingTime a = OldRoutingTime b" by (rule *) (simp add: oframe_def)
  show "NewRoutingTime a = NewRoutingTime b" by (rule *) (simp add: oframe_def)
  show "NsubcatchResults a = NsubcatchResults b" by (rule *) (simp add: oframe_def)
  show "NnodeResults a = NnodeResults b" by (rule *) (simp add: oframe_def)
  show "NlinkResults a = NlinkResults b" by (rule *) (simp add: oframe_def)
  show "NumSubcatch a = NumSubcatch b" by (rule *) (simp add: oframe_def)
  show "NumNodes a = NumNodes b" by (rule *) (simp add: oframe_def)
  show "NumLinks a = NumLinks b" by (rule *) (simp add: oframe_def)
  show "NumPolluts a = NumPolluts b" by (rule *) (simp add: oframe_def)
  show "BytesPerPeriod a = BytesPerPeriod b" by (rule *) (simp add: oframe_def)
  show "OutputStartPos a = OutputStartPos b" by (rule *) (simp add: oframe_def)
  show "Nperiods a = Nperiods b" by (rule *) (simp add: oframe_def)
qed

lemma oframe_updates:
  "oframe (p\<lparr>Fout := f\<rparr>) = oframe p"
  "oframe (p\<lparr>SysResults := x\<rparr>) = oframe p"
  "oframe (p\<lparr>SubcatchResults := x\<rparr>) = oframe p"
  "oframe (p\<lparr>NodeResults := x\<rparr>) = oframe p"
  "oframe (p\<lparr>LinkResults := x\<rparr>) = oframe p"
  by (simp_all add: oframe_def)

lemma fwrite_at_end_content:
  assumes "at_end f"
  shows "content (fwrite bs f) = content f @ bs" "at_end (fwrite bs f)"
  using assms by (simp_all add: at_end_def fwrite_def)

lemma fold_subcatch:
  fixes f :: real
  defines "B \<equiv> (\<lambda>j p.
             (let p1 = p\<lparr>SubcatchResults := subcatch_getResults p j f\<rparr>;
                  p2 = (if subcatchRpt p1 ! j
                        then p1\<lparr>Fout := fwrite (floats (NsubcatchResults p1)
                                                    (SubcatchResults p1)) (Fout p1)\<rparr>
                        else p1)
              in p2\<lparr>SysResults := sys_subcatch p2 j (SysResults p2)\<rparr>))"
  assumes "at_end (Fout p)"
  shows "oframe (fold B js p) = oframe p \<and> at_end (Fout (fold B js p))
    \<and> content (Fout (fold B js p))
        = content (Fout p) @ concat (map (\<lambda>j. floats (NsubcatchResults p) (subcatch_getResults p j f))
                                       (filter (\<lambda>j. subcatchRpt p ! j) js))"
  using assms(2)
proof (induction js arbitrary: p)
  case Nil
  then show ?case by simp
next
  case (Cons j js)
  have fr: "oframe (B j p) = oframe p" by (simp add: B_def Let_def oframe_updates)
  have e: "at_end (Fout (B j p))"
    using Cons.prems by (simp add: B_def Let_def fwrite_at_end_content)
  have c: "content (Fout (B j p)) = content (Fout p) @
             (if subcatchRpt p ! j then floats (NsubcatchResults p) (subcatch_getResults p j f) else [])"
    using Cons.prems by (simp add: B_def Let_def fwrite_at_end_content)
  from Cons.IH [OF e] fr c oframe_fields [OF fr] show ?case by simp
qed

lemma fold_node:
  fixes f :: real
  defines "B \<equiv> (\<lambda>j p.
             (let p1 = p\<lparr>NodeResults := node_getResults p j f\<rparr>;
                  p2 = (if nodeRpt p1 ! j
                        then p1\<lparr>Fout := fwrite (floats (NnodeResults p1)
                                                    (NodeResults p1)) (Fout p1)\<rparr>
                        else p1)
              in p2\<lparr>SysResults := sys_node p2 j (SysResults p2)\<rparr>))"
  assumes "at_end (Fout p)"
  shows "oframe (fold B js p) = oframe p \<and> at_end (Fout (fold B js p))
    \<and> content (Fout (fold B js p))
        = content (Fout p) @ concat (map (\<lambda>j. floats (NnodeResults p) (node_getResults p j f))
                                       (filter (\<lambda>j. nodeRpt p ! j) js))"
  using assms(2)
proof (induction js arbitrary: p)
  case Nil
  then show ?case by simp
next
  case (Cons j js)
  have fr: "oframe (B j p) = oframe p" by (simp add: B_def Let_def oframe_updates)
  have e: "at_end (Fout (B j p))"
    using Cons.prems by (simp add: B_def Let_def fwrite_at_end_content)
  have c: "content (Fout (B j p)) = content (Fout p) @
             (if nodeRpt p ! j then floats (NnodeResults p) (node_getResults p j f) else [])"
    using Cons.prems by (simp add: B_def Let_def fwrite_at_end_content)
  from Cons.IH [OF e] fr c oframe_fields [OF fr] show ?case by simp
qed

lemma fold_link:
  fixes f :: real
  defines "B \<equiv> (\<lambda>j p.
             (let p1 = p\<lparr>LinkResults := link_getResults p j f\<rparr>;
                  p2 = (if linkRpt p1 ! j
                        then p1\<lparr>Fout := fwrite (floats (NlinkResults p1)
                                                    (LinkResults p1)) (Fout p1)\<rparr>
                        else p1)
              in p2\<lparr>SysResults := sys_link p2 j f (SysResults p2)\<rparr>))"
  assumes "at_end (Fout p)"
  shows "oframe (fold B js p) = oframe p \<and> at_end (Fout (fold B js p))
    \<and> content (Fout (fold B js p))
        = content (Fout p) @ concat (map (\<lambda>j. floats (NlinkResults p) (link_getResults p j f))
                                       (filter (\<lambda>j. linkRpt p ! j) js))"
  using assms(2)
proof (induction js arbitrary: p)
  case Nil
  then show ?case by simp
next
  case (Cons j js)
  have fr: "oframe (B j p) = oframe p" by (simp add: B_def Let_def oframe_updates)
  have e: "at_end (Fout (B j p))"
    using Cons.prems by (simp add: B_def Let_def fwrite_at_end_content)
  have c: "content (Fout (B j p)) = content (Fout p) @
             (if linkRpt p ! j then floats (NlinkResults p) (link_getResults p j f) else [])"
    using Cons.prems by (simp add: B_def Let_def fwrite_at_end_content)
  from Cons.IH [OF e] fr c oframe_fields [OF fr] show ?case by simp
qed


lemma output_saveSubcatchResults_frame:
  assumes "at_end (Fout sp)"
  shows "oframe (output_saveSubcatchResults sp t) = oframe sp"
    and "at_end (Fout (output_saveSubcatchResults sp t))"
    and "content (Fout (output_saveSubcatchResults sp t))
           = content (Fout sp) @ subcatchBytes sp t (reported (subcatchRpt sp))"
  using fold_subcatch [OF assms, of "weightRunoff sp t" "[0..<length (subcatchRpt sp)]"]
  by (simp_all add: output_saveSubcatchResults_def Let_def oframe_updates subcatchBytes_def
        reported_def weightRunoff_def)

lemma output_saveNodeResults_frame:
  assumes "at_end (Fout sp)"
  shows "oframe (output_saveNodeResults sp t) = oframe sp"
    and "at_end (Fout (output_saveNodeResults sp t))"
    and "content (Fout (output_saveNodeResults sp t))
           = content (Fout sp) @ nodeBytes sp t (reported (nodeRpt sp))"
  using fold_node [OF assms, of "weightRouting sp t" "[0..<length (nodeRpt sp)]"]
  by (simp_all add: output_saveNodeResults_def Let_def oframe_updates nodeBytes_def
        reported_def weightRouting_def)

lemma output_saveLinkResults_frame:
  assumes "at_end (Fout sp)"
  shows "oframe (output_saveLinkResults sp t) = oframe sp"
    and "at_end (Fout (output_saveLinkResults sp t))"
    and "content (Fout (output_saveLinkResults sp t))
           = content (Fout sp) @ linkBytes sp t (reported (linkRpt sp))"
  using fold_link [OF assms, of "weightRouting sp t" "[0..<length (linkRpt sp)]"]
  by (simp_all add: output_saveLinkResults_def Let_def oframe_updates linkBytes_def
        reported_def weightRouting_def)

lemma bytes_cong:
  assumes "oframe a = oframe b"
  shows "subcatchBytes a t js = subcatchBytes b t js"
    and "nodeBytes a t js = nodeBytes b t js"
    and "linkBytes a t js = linkBytes b t js"
  using oframe_fields [OF assms]
  by (simp_all add: subcatchBytes_def nodeBytes_def linkBytes_def weightRunoff_def
        weightRouting_def)

lemma reported_Nil: "reported [] = []"
  by (simp add: reported_def)

lemma bytes_Nil:
  "subcatchBytes a t [] = []" "nodeBytes a t [] = []" "linkBytes a t [] = []"
  by (simp_all add: subcatchBytes_def nodeBytes_def linkBytes_def)

lemma output_saveResults_skip:
  "getDateTime sp t < ReportStart sp \<Longrightarrow> output_saveResults sp t = sp"
  by (simp add: output_saveResults_def)

lemma output_saveResults_write:
  assumes d: "\<not> getDateTime sp t < ReportStart sp" and e: "at_end (Fout sp)"
  shows "oframe (output_saveResults sp t) = (oframe sp)\<lparr>Nperiods := Nperiods sp + 1\<rparr>"
    and "at_end (Fout (output_saveResults sp t))"
    and "\<exists>sys. content (Fout (output_saveResults sp t))
                 = content (Fout sp) @ recordHead sp t @ floats (MAX_SYS_RESULTS sp) sys"
    and "\<exists>sp4. oframe sp4 = oframe sp \<and> at_end (Fout sp4)
           \<and> LinkResults (output_saveResults sp t)
               = LinkResults (if length (linkRpt sp4) > 0
                              then output_saveLinkResults sp4 t else sp4)"
proof -
  define sp1 where "sp1 = sp\<lparr>SysResults :=
                           (\<lambda>i. if i < MAX_SYS_RESULTS sp then 0 else SysResults sp i)\<rparr>"
  define sp2 where
    "sp2 = sp1\<lparr>Fout := fwrite (bytes8 (double_bits sp1 (getDateTime sp t))) (Fout sp1)\<rparr>"
  define sp3 where "sp3 = (if length (subcatchRpt sp2) > 0
                          then output_saveSubcatchResults sp2 t else sp2)"
  define sp4 where "sp4 = (if length (nodeRpt sp3) > 0
                          then output_saveNodeResults sp3 t else sp3)"
  define sp5 where "sp5 = (if length (linkRpt sp4) > 0
                          then output_saveLinkResults sp4 t else sp4)"
  define sp6 where "sp6 = sp5\<lparr>Fout := fwrite (floats (MAX_SYS_RESULTS sp5) (SysResults sp5))
                                          (Fout sp5)\<rparr>"
  have res: "output_saveResults sp t = sp6\<lparr>Nperiods := Nperiods sp6 + 1\<rparr>"
    using d by (simp add: output_saveResults_def Let_def sp1_def sp2_def sp3_def sp4_def
        sp5_def sp6_def)
  have f1: "oframe sp1 = oframe sp" and o1: "Fout sp1 = Fout sp"
    by (simp_all add: sp1_def oframe_updates)
  have f2: "oframe sp2 = oframe sp" using f1 by (simp add: sp2_def oframe_updates)
  have e2: "at_end (Fout sp2)" using e o1 by (simp add: sp2_def fwrite_at_end_content)
  have c2: "content (Fout sp2)
              = content (Fout sp) @ bytes8 (double_bits sp (getDateTime sp t))"
    using e o1 oframe_fields(6) [OF f1] by (simp add: sp2_def fwrite_at_end_content)
  have f3: "oframe sp3 = oframe sp"
    using f2 output_saveSubcatchResults_frame(1) [OF e2] by (simp add: sp3_def)
  have e3: "at_end (Fout sp3)"
    using e2 output_saveSubcatchResults_frame(2) [OF e2] by (simp add: sp3_def)
  have "content (Fout sp3)
          = content (Fout sp2) @ subcatchBytes sp2 t (reported (subcatchRpt sp2))"
    using output_saveSubcatchResults_frame(3) [OF e2]
    by (simp add: sp3_def reported_Nil bytes_Nil)
  then have c3: "content (Fout sp3)
          = content (Fout sp2) @ subcatchBytes sp t (reported (subcatchRpt sp))"
    using bytes_cong(1) [OF f2] oframe_fields(1) [OF f2] by simp
  have f4: "oframe sp4 = oframe sp"
    using f3 output_saveNodeResults_frame(1) [OF e3] by (simp add: sp4_def)
  have e4: "at_end (Fout sp4)"
    using e3 output_saveNodeResults_frame(2) [OF e3] by (simp add: sp4_def)
  have "content (Fout sp4) = content (Fout sp3) @ nodeBytes sp3 t (reported (nodeRpt sp3))"
    using output_saveNodeResults_frame(3) [OF e3]
    by (simp add: sp4_def reported_Nil bytes_Nil)
  then have c4: "content (Fout sp4)
          = content (Fout sp3) @ nodeBytes sp t (reported (nodeRpt sp))"
    using bytes_cong(2) [OF f3] oframe_fields(2) [OF f3] by simp
  have f5: "oframe sp5 = oframe sp"
    using f4 output_saveLinkResults_frame(1) [OF e4] by (simp add: sp5_def)
  have e5: "at_end (Fout sp5)"
    using e4 output_saveLinkResults_frame(2) [OF e4] by (simp add: sp5_def)
  have "content (Fout sp5) = content (Fout sp4) @ linkBytes sp4 t (reported (linkRpt sp4))"
    using output_saveLinkResults_frame(3) [OF e4]
    by (simp add: sp5_def reported_Nil bytes_Nil)
  then have c5: "content (Fout sp5)
          = content (Fout sp4) @ linkBytes sp t (reported (linkRpt sp))"
    using bytes_cong(3) [OF f4] oframe_fields(3) [OF f4] by simp
  have f6: "oframe sp6 = oframe sp" using f5 by (simp add: sp6_def oframe_updates)
  have e6: "at_end (Fout sp6)" using e5 by (simp add: sp6_def fwrite_at_end_content)
  have c6: "content (Fout sp6)
              = content (Fout sp5) @ floats (MAX_SYS_RESULTS sp) (SysResults sp5)"
    using e5 oframe_fields(4) [OF f5] by (simp add: sp6_def fwrite_at_end_content)
  have "oframe (sp6\<lparr>Nperiods := Nperiods sp6 + 1\<rparr>) = (oframe sp6)\<lparr>Nperiods := Nperiods sp6 + 1\<rparr>"
    by (simp add: oframe_def)
  then show "oframe (output_saveResults sp t) = (oframe sp)\<lparr>Nperiods := Nperiods sp + 1\<rparr>"
    using f6 oframe_fields(24) [OF f6] by (simp add: res)
  show "at_end (Fout (output_saveResults sp t))" using e6 by (simp add: res)
  have "content (Fout (output_saveResults sp t))
          = content (Fout sp) @ recordHead sp t @ floats (MAX_SYS_RESULTS sp) (SysResults sp5)"
    by (simp add: res c6 c5 c4 c3 c2 recordHead_def)
  then show "\<exists>sys. content (Fout (output_saveResults sp t))
                 = content (Fout sp) @ recordHead sp t @ floats (MAX_SYS_RESULTS sp) sys"
    by blast
  have "LinkResults (output_saveResults sp t) = LinkResults sp5"
    by (simp add: res sp6_def)
  then show "\<exists>sp4. oframe sp4 = oframe sp \<and> at_end (Fout sp4)
           \<and> LinkResults (output_saveResults sp t)
               = LinkResults (if length (linkRpt sp4) > 0
                              then output_saveLinkResults sp4 t else sp4)"
    using f4 e4 sp5_def by auto
qed

lemma layout_oframe: "layout (oframe s) = layout s"
  by (simp add: layout_def oframe_def)

lemma layout_Nperiods: "layout (s\<lparr>Nperiods := n\<rparr>) = layout s"
  by (simp add: layout_def)

lemma output_saveResults_layout:
  assumes "at_end (Fout sp)"
  shows "layout (output_saveResults sp t) = layout sp"
proof (cases "getDateTime sp t < ReportStart sp")
  case True
  then show ?thesis by (simp add: output_saveResults_skip)
next
  case False
  have "layout (output_saveResults sp t) = layout (oframe (output_saveResults sp t))"
    by (simp only: layout_oframe)
  also have "\<dots> = layout sp"
    by (simp only: output_saveResults_write(1) [OF False assms] layout_Nperiods layout_oframe)
  finally show ?thesis .
qed

lemma output_saveResults_Nperiods:
  assumes "\<not> getDateTime sp t < ReportStart sp" "at_end (Fout sp)"
  shows "Nperiods (output_saveResults sp t) = Nperiods sp + 1"
proof -
  have "Nperiods (output_saveResults sp t) = Nperiods (oframe (output_saveResults sp t))"
    by (simp add: oframe_def)
  also have "\<dots> = Nperiods sp + 1"
    by (simp only: output_saveResults_write(1) [OF assms]) simp
  finally show ?thesis .
qed

lemma length_reported: "length (reported flags) = countRpt flags"
proof -
  have "filter (\<lambda>b. b) (map ((!) flags) [0..<length flags])
          = map ((!) flags) (filter ((!) flags) [0..<length flags])"
    by (simp add: filter_map comp_def)
  then have "length (filter (\<lambda>b. b) flags) = length (filter ((!) flags) [0..<length flags])"
    by (simp add: map_nth)
  then show ?thesis by (simp add: reported_def countRpt_def)
qed

lemma length_concat_uniform:
  assumes "\<forall>x\<in>set xs. length (f x) = n"
  shows "length (concat (map f xs)) = n * length xs"
  using assms by (induction xs) simp_all

lemma length_bytes:
  "length (subcatchBytes sp t js) = 4 * NsubcatchResults sp * length js"
  "length (nodeBytes sp t js) = 4 * NnodeResults sp * length js"
  "length (linkBytes sp t js) = 4 * NlinkResults sp * length js"
  by (simp_all add: subcatchBytes_def nodeBytes_def linkBytes_def length_concat_uniform
        length_floats)

lemma length_record:
  assumes "counts_ok sp"
  shows "length (recordHead sp t @ floats (MAX_SYS_RESULTS sp) sys) = recordSize sp"
  using assms
  by (simp add: recordHead_def length_bytes length_bytes8 length_floats length_reported
        recordSize_def counts_ok_def algebra_simps)

lemma layout_fields:
  assumes "layout a = layout b"
  shows "subcatchRpt a = subcatchRpt b" "nodeRpt a = nodeRpt b" "linkRpt a = linkRpt b"
    "MAX_SYS_RESULTS a = MAX_SYS_RESULTS b" "NumPolluts a = NumPolluts b"
    "NsubcatchResults a = NsubcatchResults b" "NnodeResults a = NnodeResults b"
    "NlinkResults a = NlinkResults b" "NumSubcatch a = NumSubcatch b"
    "NumNodes a = NumNodes b" "NumLinks a = NumLinks b"
    "BytesPerPeriod a = BytesPerPeriod b" "OutputStartPos a = OutputStartPos b"
  using assms by (simp_all add: layout_def)

lemma counts_ok_layout: "layout a = layout b \<Longrightarrow> counts_ok a = counts_ok b"
  using layout_fields [of a b] by (simp add: counts_ok_def)

lemma recordSize_layout: "layout a = layout b \<Longrightarrow> recordSize a = recordSize b"
  using layout_fields [of a b] by (simp add: recordSize_def)

lemma is_record_length:
  assumes "is_record bs (s, t)" "counts_ok s"
  shows "length bs = recordSize s"
  using assms length_record [of s t] by (auto simp add: is_record_def)

lemma output_run_content:
  assumes "at_end (Fout sp)" "\<forall>x\<in>set steps. keeps_output (snd x)"
  shows "layout (output_run sp steps) = layout sp \<and> at_end (Fout (output_run sp steps))
    \<and> Nperiods (output_run sp steps) = Nperiods sp + int (length (written_at sp steps))
    \<and> (\<forall>w\<in>set (written_at sp steps). layout (fst w) = layout sp)
    \<and> (\<exists>recs. content (Fout (output_run sp steps)) = content (Fout sp) @ concat recs
               \<and> list_all2 is_record recs (written_at sp steps))"
  using assms
proof (induction steps arbitrary: sp)
  case Nil
  then show ?case by simp
next
  case (Cons x steps)
  obtain t g where x: "x = (t, g)" by (cases x)
  define s1 where "s1 = g sp"
  define s2 where "s2 = output_saveResults s1 t"
  have k: "keeps_output g" using Cons.prems(2) x by simp
  have l1: "layout s1 = layout sp" and o1: "Fout s1 = Fout sp"
    and n1: "Nperiods s1 = Nperiods sp"
    using k by (simp_all add: keeps_output_def s1_def)
  have e1: "at_end (Fout s1)" using Cons.prems(1) o1 by simp
  have l2: "layout s2 = layout sp"
    using output_saveResults_layout [OF e1] l1 by (simp add: s2_def)
  have run: "output_run sp (x # steps) = output_run s2 steps"
    by (simp add: x s1_def s2_def)
  have ks: "\<forall>x\<in>set steps. keeps_output (snd x)" using Cons.prems(2) by simp
  show ?case
  proof (cases "getDateTime s1 t < ReportStart s1")
    case True
    then have s2: "s2 = s1" by (simp add: s2_def output_saveResults_skip)
    have w: "written_at sp (x # steps) = written_at s2 steps"
      using True by (simp add: x s1_def [symmetric] s2_def [symmetric])
    from Cons.IH [of s2, OF _ ks] e1 s2 l2 n1 o1 show ?thesis
      by (simp only: run w) simp
  next
    case False
    have w: "written_at sp (x # steps) = (s1, t) # written_at s2 steps"
      using False by (simp add: x s1_def [symmetric] s2_def [symmetric])
    have e2: "at_end (Fout s2)"
      using output_saveResults_write(2) [OF False e1] by (simp add: s2_def)
    have n2: "Nperiods s2 = Nperiods sp + 1"
      using output_saveResults_Nperiods [OF False e1] n1 by (simp add: s2_def)
    obtain sys where c2: "content (Fout s2)
        = content (Fout sp) @ recordHead s1 t @ floats (MAX_SYS_RESULTS s1) sys"
      using output_saveResults_write(3) [OF False e1] o1 by (auto simp add: s2_def)
    have r0: "is_record (recordHead s1 t @ floats (MAX_SYS_RESULTS s1) sys) (s1, t)"
      by (auto simp add: is_record_def)
    from Cons.IH [of s2, OF e2 ks] obtain recs where
      i1: "layout (output_run s2 steps) = layout s2"
      and i2: "at_end (Fout (output_run s2 steps))"
      and i3: "Nperiods (output_run s2 steps) = Nperiods s2 + int (length (written_at s2 steps))"
      and i4: "\<forall>w\<in>set (written_at s2 steps). layout (fst w) = layout s2"
      and i5: "content (Fout (output_run s2 steps)) = content (Fout s2) @ concat recs"
      and i6: "list_all2 is_record recs (written_at s2 steps)"
      by blast
    have "content (Fout (output_run s2 steps)) = content (Fout sp)
            @ concat ((recordHead s1 t @ floats (MAX_SYS_RESULTS s1) sys) # recs)
        \<and> list_all2 is_record ((recordHead s1 t @ floats (MAX_SYS_RESULTS s1) sys) # recs)
             ((s1, t) # written_at s2 steps)"
      using i5 i6 c2 r0 by simp
    then have ex: "\<exists>recs. content (Fout (output_run s2 steps)) = content (Fout sp) @ concat recs
        \<and> list_all2 is_record recs ((s1, t) # written_at s2 steps)"
      by blast
    show ?thesis
      using i1 i2 i3 i4 ex l2 l1 n2 by (simp only: run w) simp
  qed
qed

lemma length_concat_same:
  assumes "\<forall>x\<in>set xs. length x = n"
  shows "length (concat xs) = length xs * n"
  using assms by (induction xs) simp_all

lemma concat_uniform_nth:
  assumes "\<forall>x\<in>set xs. length x = n" "k < length xs"
  shows "\<exists>pre post. concat xs = pre @ xs ! k @ post \<and> length pre = k * n"
proof -
  have xs: "xs = take k xs @ xs ! k # drop (Suc k) xs"
    using assms(2) by (rule id_take_nth_drop)
  have "concat xs = concat (take k xs @ xs ! k # drop (Suc k) xs)"
    using xs by simp
  then have c: "concat xs = concat (take k xs) @ xs ! k @ concat (drop (Suc k) xs)"
    by simp
  have "\<forall>x\<in>set (take k xs). length x = n"
    using assms(1) by (meson in_set_takeD)
  then have "length (concat (take k xs)) = length (take k xs) * n"
    by (rule length_concat_same)
  then have "length (concat (take k xs)) = k * n" using assms(2) by simp
  with c show ?thesis by blast
qed

lemma written_location:
  assumes "at_end (Fout sp)" "counts_ok sp" "\<forall>x\<in>set steps. keeps_output (snd x)"
    and "k < length (written_at sp steps)" "written_at sp steps ! k = (s, t)"
  shows "layout s = layout sp
    \<and> (\<exists>P Q. content (Fout (output_run sp steps)) = P @ recordHead s t @ Q
             \<and> length P = length (content (Fout sp)) + k * recordSize sp)"
proof -
  from output_run_content [OF assms(1,3)] obtain recs where
    l: "\<forall>w\<in>set (written_at sp steps). layout (fst w) = layout sp"
    and c: "content (Fout (output_run sp steps)) = content (Fout sp) @ concat recs"
    and r: "list_all2 is_record recs (written_at sp steps)"
    by blast
  have len: "length recs = length (written_at sp steps)"
    using r by (rule list_all2_lengthD)
  have ls: "layout s = layout sp"
    using l assms(4,5) by (metis fst_conv nth_mem)
  have u: "\<forall>x\<in>set recs. length x = recordSize sp"
  proof
    fix x assume "x \<in> set recs"
    then obtain i where i: "i < length recs" "recs ! i = x" by (meson in_set_conv_nth)
    have ir: "is_record x (written_at sp steps ! i)"
      using list_all2_nthD [OF r i(1)] i(2) by simp
    have m: "written_at sp steps ! i \<in> set (written_at sp steps)"
      using i(1) len by simp
    obtain s' t' where w: "written_at sp steps ! i = (s', t')"
      by (cases "written_at sp steps ! i")
    have l': "layout s' = layout sp" using l m w by auto
    have "counts_ok s'" using counts_ok_layout [OF l'] assms(2) by simp
    then have "length x = recordSize s'" using ir w is_record_length by simp
    then show "length x = recordSize sp" using recordSize_layout [OF l'] by simp
  qed
  have kk: "k < length recs" using assms(4) len by simp
  from concat_uniform_nth [OF u kk] obtain pre post where
    p: "concat recs = pre @ recs ! k @ post" "length pre = k * recordSize sp" by blast
  have "is_record (recs ! k) (s, t)"
    using list_all2_nthD [OF r kk] assms(5) by simp
  then obtain sys where
    rk: "recs ! k = recordHead s t @ floats (MAX_SYS_RESULTS s) sys"
    by (auto simp add: is_record_def)
  have "content (Fout (output_run sp steps))
          = (content (Fout sp) @ pre) @ recordHead s t @ (floats (MAX_SYS_RESULTS s) sys @ post)"
    using c p(1) rk by simp
  moreover have "length (content (Fout sp) @ pre) = length (content (Fout sp)) + k * recordSize sp"
    using p(2) by simp
  ultimately show ?thesis using ls by blast
qed

lemma chunk_location:
  assumes "j < length js"
  shows "\<exists>P Q. concat (map (\<lambda>j. floats n (f j)) js) = P @ floats n (f (js ! j)) @ Q
               \<and> length P = j * (4 * n)"
proof -
  have "\<forall>x\<in>set (map (\<lambda>j. floats n (f j)) js). length x = 4 * n"
    by (simp add: length_floats)
  from concat_uniform_nth [OF this, of j] assms show ?thesis by simp
qed

lemma recordHead_subcatch:
  assumes "j < countRpt (subcatchRpt s)"
  shows "\<exists>P Q. recordHead s t
      = P @ floats (NsubcatchResults s)
              (subcatch_getResults s (reported (subcatchRpt s) ! j) (weightRunoff s t)) @ Q
      \<and> length P = 8 + j * (4 * NsubcatchResults s)"
proof -
  have "j < length (reported (subcatchRpt s))" using assms by (simp add: length_reported)
  from chunk_location [OF this, of "NsubcatchResults s"
      "\<lambda>j. subcatch_getResults s j (weightRunoff s t)"]
  obtain P Q where
    c: "subcatchBytes s t (reported (subcatchRpt s))
          = P @ floats (NsubcatchResults s)
              (subcatch_getResults s (reported (subcatchRpt s) ! j) (weightRunoff s t)) @ Q"
    and p: "length P = j * (4 * NsubcatchResults s)"
    by (auto simp add: subcatchBytes_def)
  have "recordHead s t = (bytes8 (double_bits s (getDateTime s t)) @ P)
      @ floats (NsubcatchResults s)
              (subcatch_getResults s (reported (subcatchRpt s) ! j) (weightRunoff s t))
      @ (Q @ nodeBytes s t (reported (nodeRpt s)) @ linkBytes s t (reported (linkRpt s)))"
    by (simp add: recordHead_def c)
  moreover have "length (bytes8 (double_bits s (getDateTime s t)) @ P)
      = 8 + j * (4 * NsubcatchResults s)"
    by (simp add: p length_bytes8)
  ultimately show ?thesis by blast
qed

lemma recordHead_node:
  assumes "j < countRpt (nodeRpt s)"
  shows "\<exists>P Q. recordHead s t
      = P @ floats (NnodeResults s)
              (node_getResults s (reported (nodeRpt s) ! j) (weightRouting s t)) @ Q
      \<and> length P = 8 + countRpt (subcatchRpt s) * (4 * NsubcatchResults s)
                     + j * (4 * NnodeResults s)"
proof -
  have "j < length (reported (nodeRpt s))" using assms by (simp add: length_reported)
  from chunk_location [OF this, of "NnodeResults s"
      "\<lambda>j. node_getResults s j (weightRouting s t)"]
  obtain P Q where
    c: "nodeBytes s t (reported (nodeRpt s))
          = P @ floats (NnodeResults s)
              (node_getResults s (reported (nodeRpt s) ! j) (weightRouting s t)) @ Q"
    and p: "length P = j * (4 * NnodeResults s)"
    by (auto simp add: nodeBytes_def)
  have "recordHead s t = (bytes8 (double_bits s (getDateTime s t))
        @ subcatchBytes s t (reported (subcatchRpt s)) @ P)
      @ floats (NnodeResults s)
              (node_getResults s (reported (nodeRpt s) ! j) (weightRouting s t))
      @ (Q @ linkBytes s t (reported (linkRpt s)))"
    by (simp add: recordHead_def c)
  moreover have "length (bytes8 (double_bits s (getDateTime s t))
        @ subcatchBytes s t (reported (subcatchRpt s)) @ P)
      = 8 + countRpt (subcatchRpt s) * (4 * NsubcatchResults s) + j * (4 * NnodeResults s)"
    by (simp add: p length_bytes8 length_bytes length_reported)
  ultimately show ?thesis by blast
qed

lemma recordHead_link:
  assumes "j < countRpt (linkRpt s)"
  shows "\<exists>P Q. recordHead s t
      = P @ floats (NlinkResults s)
              (link_getResults s (reported (linkRpt s) ! j) (weightRouting s t)) @ Q
      \<and> length P = 8 + countRpt (subcatchRpt s) * (4 * NsubcatchResults s)
                     + countRpt (nodeRpt s) * (4 * NnodeResults s)
                     + j * (4 * NlinkResults s)"
proof -
  have "j < length (reported (linkRpt s))" using assms by (simp add: length_reported)
  from chunk_location [OF this, of "NlinkResults s"
      "\<lambda>j. link_getResults s j (weightRouting s t)"]
  obtain P Q where
    c: "linkBytes s t (reported (linkRpt s))
          = P @ floats (NlinkResults s)
              (link_getResults s (reported (linkRpt s) ! j) (weightRouting s t)) @ Q"
    and p: "length P = j * (4 * NlinkResults s)"
    by (auto simp add: linkBytes_def)
  have "recordHead s t = (bytes8 (double_bits s (getDateTime s t))
        @ subcatchBytes s t (reported (subcatchRpt s))
        @ nodeBytes s t (reported (nodeRpt s)) @ P)
      @ floats (NlinkResults s)
              (link_getResults s (reported (linkRpt s) ! j) (weightRouting s t))
      @ Q"
    by (simp add: recordHead_def c)
  moreover have "length (bytes8 (double_bits s (getDateTime s t))
        @ subcatchBytes s t (reported (subcatchRpt s))
        @ nodeBytes s t (reported (nodeRpt s)) @ P)
      = 8 + countRpt (subcatchRpt s) * (4 * NsubcatchResults s)
          + countRpt (nodeRpt s) * (4 * NnodeResults s) + j * (4 * NlinkResults s)"
    by (simp add: p length_bytes8 length_bytes length_reported)
  ultimately show ?thesis by blast
qed

lemma sint_of_nat_small: "T < 2 ^ 31 \<Longrightarrow> sint (of_nat T :: 32 word) = int T"
  by (simp add: signed_of_nat signed_take_bit_int_eq_self)

lemma fseek_nonneg: "fseek (int n) f = f\<lparr>fpos := n, feof := False\<rparr>"
  by (simp add: fseek_def)

lemma fread_floats_at:
  assumes "content f = P @ floats n buf @ Q" "i < n"
  shows "fst (fread_floats n (fseek (int (length P)) f) b0) i = buf i"
  using fread_floats_written(1) [of "f\<lparr>fpos := length P, feof := False\<rparr>" P n buf Q b0] assms
  by (simp add: fseek_nonneg)

lemma read_subcatch_at:
  assumes "content (Fout r) = P @ floats (NsubcatchResults r) buf @ Q"
    and "sint (OutputStartPos r + of_int (period - 1) * BytesPerPeriod r
               + (8 + of_int index * of_nat (NsubcatchResults r) * 4)) = int (length P)"
    and "i < NsubcatchResults r"
  shows "SubcatchResults (output_readSubcatchResults r period index) i = buf i"
  using fread_floats_at [OF assms(1,3)] assms(2)
  by (simp add: output_readSubcatchResults_def Let_def)

lemma read_node_at:
  assumes "content (Fout r) = P @ floats (NnodeResults r) buf @ Q"
    and "sint (OutputStartPos r + of_int (period - 1) * BytesPerPeriod r
               + (8 + of_nat (NumSubcatch r) * of_nat (NsubcatchResults r) * 4)
               + of_int index * of_nat (NnodeResults r) * 4) = int (length P)"
    and "i < NnodeResults r"
  shows "NodeResults (output_readNodeResults r period index) i = buf i"
  using fread_floats_at [OF assms(1,3)] assms(2)
  by (simp add: output_readNodeResults_def Let_def)

lemma read_link_at:
  assumes "content (Fout r) = P @ floats (NlinkResults r) buf @ Q"
    and "sint (OutputStartPos r + of_int (period - 1) * BytesPerPeriod r
               + (8 + of_nat (NumSubcatch r) * of_nat (NsubcatchResults r) * 4)
               + of_nat (NumNodes r) * of_nat (NnodeResults r) * 4
               + of_int index * of_nat (NlinkResults r) * 4) = int (length P)"
    and "i < NlinkResults r"
  shows "LinkResults (output_readLinkResults r period index) i = buf i"
  using fread_floats_at [OF assms(1,3)] assms(2)
  by (simp add: output_readLinkResults_def Let_def)

lemma offset_subcatch:
  fixes start :: INT4
  shows "start + of_int (int np + int k + 1 - 1) * of_nat R + (8 + of_int (int j) * of_nat n * 4)
    = of_nat (unat start + np * R + k * R + (8 + j * (4 * n)))"
  by (simp add: algebra_simps)

lemma offset_node:
  fixes start :: INT4
  shows "start + of_int (int np + int k + 1 - 1) * of_nat R + (8 + of_nat c1 * of_nat n1 * 4)
           + of_int (int j) * of_nat n * 4
    = of_nat (unat start + np * R + k * R + (8 + c1 * (4 * n1) + j * (4 * n)))"
  by (simp add: algebra_simps)

lemma offset_link:
  fixes start :: INT4
  shows "start + of_int (int np + int k + 1 - 1) * of_nat R + (8 + of_nat c1 * of_nat n1 * 4)
           + of_nat c2 * of_nat n2 * 4 + of_int (int j) * of_nat n * 4
    = of_nat (unat start + np * R + k * R
              + (8 + c1 * (4 * n1) + c2 * (4 * n2) + j * (4 * n)))"
  by (simp add: algebra_simps)

lemma read_prep:
  assumes ok: "stream_ok sp" and ks: "\<forall>x\<in>set steps. keeps_output (snd x)"
    and k: "k < length (written_at sp steps)" and w: "written_at sp steps ! k = (s, t)"
    and lr: "layout r = layout (output_run sp steps)"
    and cr: "content (Fout r) = content (Fout (output_run sp steps)) @ tail"
  shows "layout s = layout sp" and "layout r = layout sp" and "counts_ok s"
    and "BytesPerPeriod r = of_nat (recordSize sp)"
    and "Nperiods sp = int (nat (Nperiods sp))"
    and "\<exists>P Q. content (Fout r) = P @ recordHead s t @ Q
           \<and> length P = unat (OutputStartPos r) + nat (Nperiods sp) * recordSize sp
                          + k * recordSize sp
           \<and> length P + length (recordHead s t)
                 \<le> length (content (Fout (output_run sp steps)))"
proof -
  have e: "at_end (Fout sp)" and co: "counts_ok sp"
    and bp: "BytesPerPeriod sp = of_nat (recordSize sp)" and np: "0 \<le> Nperiods sp"
    and len: "length (content (Fout sp))
                = unat (OutputStartPos sp) + nat (Nperiods sp) * recordSize sp"
    using ok by (simp_all add: stream_ok_def at_end_def counts_ok_def)
  have lF: "layout (output_run sp steps) = layout sp"
    using output_run_content [OF e ks] by blast
  show l: "layout r = layout sp" using lr lF by simp
  from written_location [OF e co ks k w] obtain P Q where
    ls: "layout s = layout sp"
    and c: "content (Fout (output_run sp steps)) = P @ recordHead s t @ Q"
    and p: "length P = length (content (Fout sp)) + k * recordSize sp"
    by blast
  show "layout s = layout sp" by (rule ls)
  show "counts_ok s" using counts_ok_layout [OF ls] co by simp
  show "BytesPerPeriod r = of_nat (recordSize sp)"
    using layout_fields(12) [OF l] bp by simp
  show "Nperiods sp = int (nat (Nperiods sp))" using np by simp
  have "length P = unat (OutputStartPos r) + nat (Nperiods sp) * recordSize sp
                     + k * recordSize sp"
    using p len layout_fields(13) [OF l] by simp
  moreover have "content (Fout r) = P @ recordHead s t @ (Q @ tail)"
    using c cr by simp
  moreover have "length P + length (recordHead s t)
                   \<le> length (content (Fout (output_run sp steps)))"
    by (simp add: c)
  ultimately show "\<exists>P Q. content (Fout r) = P @ recordHead s t @ Q
           \<and> length P = unat (OutputStartPos r) + nat (Nperiods sp) * recordSize sp
                          + k * recordSize sp
           \<and> length P + length (recordHead s t)
                 \<le> length (content (Fout (output_run sp steps)))"
    by blast
qed

lemma read_written_subcatch:
  assumes ok: "stream_ok sp" and ks: "\<forall>x\<in>set steps. keeps_output (snd x)"
    and size: "length (content (Fout (output_run sp steps))) < 2 ^ 31"
    and k: "k < length (written_at sp steps)" and w: "written_at sp steps ! k = (s, t)"
    and lr: "layout r = layout (output_run sp steps)"
    and cr: "content (Fout r) = content (Fout (output_run sp steps)) @ tail"
    and j: "j < NumSubcatch sp" and i: "i < NsubcatchResults sp"
  shows "SubcatchResults (output_readSubcatchResults r (Nperiods sp + int k + 1) (int j)) i
           = subcatch_getResults s (reported (subcatchRpt sp) ! j) (weightRunoff s t) i"
proof -
  note pr = read_prep [OF ok ks k w lr cr]
  note fs = layout_fields [OF pr(1)]
  note fr = layout_fields [OF pr(2)]
  define buf where "buf = subcatch_getResults s (reported (subcatchRpt s) ! j) (weightRunoff s t)"
  define R where "R = recordSize sp"
  define np where "np = nat (Nperiods sp)"
  have npi: "Nperiods sp = int np" using pr(5) by (simp add: np_def)
  from pr(6) obtain P Q where
    c: "content (Fout r) = P @ recordHead s t @ Q"
    and p: "length P = unat (OutputStartPos r) + np * R + k * R"
    and b: "length P + length (recordHead s t)
              \<le> length (content (Fout (output_run sp steps)))"
    by (auto simp add: R_def np_def)
  have "j < countRpt (subcatchRpt s)" using j pr(3) fs by (simp add: counts_ok_def)
  from recordHead_subcatch [OF this, of t] obtain P' Q' where
    h: "recordHead s t = P' @ floats (NsubcatchResults s) buf @ Q'"
    and p': "length P' = 8 + j * (4 * NsubcatchResults s)"
    by (auto simp add: buf_def)
  have n: "NsubcatchResults s = NsubcatchResults r" using fs fr by simp
  have c': "content (Fout r) = (P @ P') @ floats (NsubcatchResults r) buf @ (Q' @ Q)"
    using c h n by simp
  have T: "length (P @ P') = unat (OutputStartPos r) + np * R + k * R
             + (8 + j * (4 * NsubcatchResults r))"
    using p p' n by simp
  have "length (P @ P') \<le> length P + length (recordHead s t)" by (simp add: h)
  then have small: "unat (OutputStartPos r) + np * R + k * R
             + (8 + j * (4 * NsubcatchResults r)) < 2 ^ 31"
    using size b T by simp
  have pos: "sint (OutputStartPos r + of_int (Nperiods sp + int k + 1 - 1) * BytesPerPeriod r
               + (8 + of_int (int j) * of_nat (NsubcatchResults r) * 4)) = int (length (P @ P'))"
    by (simp only: npi pr(4) R_def [symmetric] offset_subcatch T sint_of_nat_small [OF small])
  have "SubcatchResults (output_readSubcatchResults r (Nperiods sp + int k + 1) (int j)) i
          = buf i"
    using i fr by (intro read_subcatch_at [OF c' pos]) simp
  then show ?thesis using fs by (simp add: buf_def)
qed

lemma read_written_node:
  assumes ok: "stream_ok sp" and ks: "\<forall>x\<in>set steps. keeps_output (snd x)"
    and size: "length (content (Fout (output_run sp steps))) < 2 ^ 31"
    and k: "k < length (written_at sp steps)" and w: "written_at sp steps ! k = (s, t)"
    and lr: "layout r = layout (output_run sp steps)"
    and cr: "content (Fout r) = content (Fout (output_run sp steps)) @ tail"
    and j: "j < NumNodes sp" and i: "i < NnodeResults sp"
  shows "NodeResults (output_readNodeResults r (Nperiods sp + int k + 1) (int j)) i
           = node_getResults s (reported (nodeRpt sp) ! j) (weightRouting s t) i"
proof -
  note pr = read_prep [OF ok ks k w lr cr]
  note fs = layout_fields [OF pr(1)]
  note fr = layout_fields [OF pr(2)]
  define buf where "buf = node_getResults s (reported (nodeRpt s) ! j) (weightRouting s t)"
  define R where "R = recordSize sp"
  define np where "np = nat (Nperiods sp)"
  have npi: "Nperiods sp = int np" using pr(5) by (simp add: np_def)
  from pr(6) obtain P Q where
    c: "content (Fout r) = P @ recordHead s t @ Q"
    and p: "length P = unat (OutputStartPos r) + np * R + k * R"
    and b: "length P + length (recordHead s t)
              \<le> length (content (Fout (output_run sp steps)))"
    by (auto simp add: R_def np_def)
  have "j < countRpt (nodeRpt s)" using j pr(3) fs by (simp add: counts_ok_def)
  from recordHead_node [OF this, of t] obtain P' Q' where
    h: "recordHead s t = P' @ floats (NnodeResults s) buf @ Q'"
    and p': "length P' = 8 + countRpt (subcatchRpt s) * (4 * NsubcatchResults s)
                           + j * (4 * NnodeResults s)"
    by (auto simp add: buf_def)
  have n: "NnodeResults s = NnodeResults r" "NsubcatchResults s = NsubcatchResults r"
    "countRpt (subcatchRpt s) = NumSubcatch r"
    using fs fr pr(3) by (simp_all add: counts_ok_def)
  have c': "content (Fout r) = (P @ P') @ floats (NnodeResults r) buf @ (Q' @ Q)"
    using c h n by simp
  have T: "length (P @ P') = unat (OutputStartPos r) + np * R + k * R
             + (8 + NumSubcatch r * (4 * NsubcatchResults r) + j * (4 * NnodeResults r))"
    using p p' n by simp
  have "length (P @ P') \<le> length P + length (recordHead s t)" by (simp add: h)
  then have small: "unat (OutputStartPos r) + np * R + k * R
             + (8 + NumSubcatch r * (4 * NsubcatchResults r) + j * (4 * NnodeResults r))
             < 2 ^ 31"
    using size b T by simp
  have pos: "sint (OutputStartPos r + of_int (Nperiods sp + int k + 1 - 1) * BytesPerPeriod r
               + (8 + of_nat (NumSubcatch r) * of_nat (NsubcatchResults r) * 4)
               + of_int (int j) * of_nat (NnodeResults r) * 4) = int (length (P @ P'))"
    by (simp only: npi pr(4) R_def [symmetric] offset_node T sint_of_nat_small [OF small])
  have "NodeResults (output_readNodeResults r (Nperiods sp + int k + 1) (int j)) i = buf i"
    using i fr by (intro read_node_at [OF c' pos]) simp
  then show ?thesis using fs by (simp add: buf_def)
qed

lemma read_written_link:
  assumes ok: "stream_ok sp" and ks: "\<forall>x\<in>set steps. keeps_output (snd x)"
    and size: "length (content (Fout (output_run sp steps))) < 2 ^ 31"
    and k: "k < length (written_at sp steps)" and w: "written_at sp steps ! k = (s, t)"
    and lr: "layout r = layout (output_run sp steps)"
    and cr: "content (Fout r) = content (Fout (output_run sp steps)) @ tail"
    and j: "j < NumLinks sp" and i: "i < NlinkResults sp"
  shows "LinkResults (output_readLinkResults r (Nperiods sp + int k + 1) (int j)) i
           = link_getResults s (reported (linkRpt sp) ! j) (weightRouting s t) i"
proof -
  note pr = read_prep [OF ok ks k w lr cr]
  note fs = layout_fields [OF pr(1)]
  note fr = layout_fields [OF pr(2)]
  define buf where "buf = link_getResults s (reported (linkRpt s) ! j) (weightRouting s t)"
  define R where "R = recordSize sp"
  define np where "np = nat (Nperiods sp)"
  have npi: "Nperiods sp = int np" using pr(5) by (simp add: np_def)
  from pr(6) obtain P Q where
    c: "content (Fout r) = P @ recordHead s t @ Q"
    and p: "length P = unat (OutputStartPos r) + np * R + k * R"
    and b: "length P + length (recordHead s t)
              \<le> length (content (Fout (output_run sp steps)))"
    by (auto simp add: R_def np_def)
  have "j < countRpt (linkRpt s)" using j pr(3) fs by (simp add: counts_ok_def)
  from recordHead_link [OF this, of t] obtain P' Q' where
    h: "recordHead s t = P' @ floats (NlinkResults s) buf @ Q'"
    and p': "length P' = 8 + countRpt (subcatchRpt s) * (4 * NsubcatchResults s)
                           + countRpt (nodeRpt s) * (4 * NnodeResults s)
                           + j * (4 * NlinkResults s)"
    by (auto simp add: buf_def)
  have n: "NlinkResults s = NlinkResults r" "NnodeResults s = NnodeResults r"
    "NsubcatchResults s = NsubcatchResults r"
    "countRpt (subcatchRpt s) = NumSubcatch r" "countRpt (nodeRpt s) = NumNodes r"
    using fs fr pr(3) by (simp_all add: counts_ok_def)
  have c': "content (Fout r) = (P @ P') @ floats (NlinkResults r) buf @ (Q' @ Q)"
    using c h n by simp
  have T: "length (P @ P') = unat (OutputStartPos r) + np * R + k * R
             + (8 + NumSubcatch r * (4 * NsubcatchResults r)
                + NumNodes r * (4 * NnodeResults r) + j * (4 * NlinkResults r))"
    using p p' n by simp
  have "length (P @ P') \<le> length P + length (recordHead s t)" by (simp add: h)
  then have small: "unat (OutputStartPos r) + np * R + k * R
             + (8 + NumSubcatch r * (4 * NsubcatchResults r)
                + NumNodes r * (4 * NnodeResults r) + j * (4 * NlinkResults r)) < 2 ^ 31"
    using size b T by simp
  have pos: "sint (OutputStartPos r + of_int (Nperiods sp + int k + 1 - 1) * BytesPerPeriod r
               + (8 + of_nat (NumSubcatch r) * of_nat (NsubcatchResults r) * 4)
               + of_nat (NumNodes r) * of_nat (NnodeResults r) * 4
               + of_int (int j) * of_nat (NlinkResults r) * 4) = int (length (P @ P'))"
    by (simp only: npi pr(4) R_def [symmetric] offset_link T sint_of_nat_small [OF small])
  have "LinkResults (output_readLinkResults r (Nperiods sp + int k + 1) (int j)) i = buf i"
    using i fr by (intro read_link_at [OF c' pos]) simp
  then show ?thesis using fs by (simp add: buf_def)
qed

lemma oview_fields:
  assumes "oview a = oview b"
  shows "getDateTime a = getDateTime b" "ReportStart a = ReportStart b"
    "subcatch_getResults a = subcatch_getResults b" "node_getResults a = node_getResults b"
    "link_getResults a = link_getResults b"
    "OldRunoffTime a = OldRunoffTime b" "NewRunoffTime a = NewRunoffTime b"
    "OldRoutingTime a = OldRoutingTime b" "NewRoutingTime a = NewRoutingTime b"
    "linkRpt a = linkRpt b"
proof -
  have *: "\<And>sel. (\<And>s. sel (oview s) = sel s) \<Longrightarrow> sel a = sel b"
    using assms by metis
  show "getDateTime a = getDateTime b" by (rule *) (simp add: oview_def oframe_def)
  show "ReportStart a = ReportStart b" by (rule *) (simp add: oview_def oframe_def)
  show "subcatch_getResults a = subcatch_getResults b"
    by (rule *) (simp add: oview_def oframe_def)
  show "node_getResults a = node_getResults b" by (rule *) (simp add: oview_def oframe_def)
  show "link_getResults a = link_getResults b" by (rule *) (simp add: oview_def oframe_def)
  show "OldRunoffTime a = OldRunoffTime b" by (rule *) (simp add: oview_def oframe_def)
  show "NewRunoffTime a = NewRunoffTime b" by (rule *) (simp add: oview_def oframe_def)
  show "OldRoutingTime a = OldRoutingTime b" by (rule *) (simp add: oview_def oframe_def)
  show "NewRoutingTime a = NewRoutingTime b" by (rule *) (simp add: oview_def oframe_def)
  show "linkRpt a = linkRpt b" by (rule *) (simp add: oview_def oframe_def)
qed

lemma output_saveResults_oview:
  assumes "at_end (Fout sp)"
  shows "oview (output_saveResults sp t) = oview sp"
proof (cases "getDateTime sp t < ReportStart sp")
  case True
  then show ?thesis by (simp add: output_saveResults_skip)
next
  case False
  show ?thesis
    unfolding oview_def by (simp only: output_saveResults_write(1) [OF False assms]) simp
qed

lemma output_saveResults_at_end:
  assumes "at_end (Fout sp)"
  shows "at_end (Fout (output_saveResults sp t))"
proof (cases "getDateTime sp t < ReportStart sp")
  case True
  then show ?thesis using assms by (simp add: output_saveResults_skip)
next
  case False
  show ?thesis by (rule output_saveResults_write(2) [OF False assms])
qed

lemma output_run_append:
  "output_run sp (xs @ ys) = output_run (output_run sp xs) ys"
  by (induction sp xs rule: output_run.induct) simp_all

lemma run_id:
  assumes "at_end (Fout sp)" "\<forall>x\<in>set steps. snd x = (\<lambda>s. s)"
  shows "oview (output_run sp steps) = oview sp
    \<and> (\<forall>w\<in>set (written_at sp steps). oview (fst w) = oview sp)
    \<and> map snd (written_at sp steps)
        = filter (\<lambda>t. \<not> getDateTime sp t < ReportStart sp) (map fst steps)"
  using assms
proof (induction steps arbitrary: sp)
  case Nil
  then show ?case by simp
next
  case (Cons x steps)
  obtain t g where x: "x = (t, g)" by (cases x)
  have g: "g = (\<lambda>s. s)" using Cons.prems(2) x by simp
  define s2 where "s2 = output_saveResults sp t"
  have v2: "oview s2 = oview sp"
    using output_saveResults_oview [OF Cons.prems(1)] by (simp add: s2_def)
  have e2: "at_end (Fout s2)"
    using output_saveResults_at_end [OF Cons.prems(1)] by (simp add: s2_def)
  have ks: "\<forall>x\<in>set steps. snd x = (\<lambda>s. s)" using Cons.prems(2) by simp
  note ih = Cons.IH [OF e2 ks]
  note f2 = oview_fields [OF v2]
  have run: "output_run sp (x # steps) = output_run s2 steps"
    by (simp add: x g s2_def)
  have w: "written_at sp (x # steps)
      = (if getDateTime sp t < ReportStart sp then [] else [(sp, t)]) @ written_at s2 steps"
    by (simp add: x g s2_def)
  show ?case using ih v2 f2(1,2) by (simp only: run w) (simp add: x)
qed

lemma output_run_length:
  assumes "at_end (Fout sp)" "counts_ok sp" "\<forall>x\<in>set steps. keeps_output (snd x)"
  shows "length (content (Fout (output_run sp steps)))
           = length (content (Fout sp)) + length (written_at sp steps) * recordSize sp"
proof -
  from output_run_content [OF assms(1,3)] obtain recs where
    l: "\<forall>w\<in>set (written_at sp steps). layout (fst w) = layout sp"
    and c: "content (Fout (output_run sp steps)) = content (Fout sp) @ concat recs"
    and r: "list_all2 is_record recs (written_at sp steps)"
    by blast
  have len: "length recs = length (written_at sp steps)"
    using r by (rule list_all2_lengthD)
  have u: "\<forall>x\<in>set recs. length x = recordSize sp"
  proof
    fix x assume "x \<in> set recs"
    then obtain i where i: "i < length recs" "recs ! i = x" by (meson in_set_conv_nth)
    have ir: "is_record x (written_at sp steps ! i)"
      using list_all2_nthD [OF r i(1)] i(2) by simp
    have m: "written_at sp steps ! i \<in> set (written_at sp steps)"
      using i(1) len by simp
    obtain s' t' where w: "written_at sp steps ! i = (s', t')"
      by (cases "written_at sp steps ! i")
    have l': "layout s' = layout sp" using l m w by auto
    have "counts_ok s'" using counts_ok_layout [OF l'] assms(2) by simp
    then have "length x = recordSize s'" using ir w is_record_length by simp
    then show "length x = recordSize sp" using recordSize_layout [OF l'] by simp
  qed
  show ?thesis using length_concat_same [OF u] c len by simp
qed

lemma output_open_stream_ok:
  assumes "output_open z opened header = Some sp" "length header < 2 ^ 32"
  shows "stream_ok sp"
proof -
  have u: "unat (of_nat (length header) :: 32 word) = length header"
    using assms(2) by (simp add: unsigned_of_nat take_bit_nat_eq_self)
  have "opened" using assms(1) by (simp add: output_open_def split: if_splits)
  then show ?thesis
    using assms(1) u
    by (auto simp add: output_open_def Let_def stream_ok_def recordSize_def fwrite_def
        fseek_def algebra_simps)
qed

lemma saveLink_last:
  assumes "at_end (Fout p)" "linkRpt p = fl @ [b]"
  shows "LinkResults (output_saveLinkResults p t)
           = link_getResults p (length fl) (weightRouting p t)"
proof -
  define f where "f = weightRouting p t"
  define B :: "nat \<Rightarrow> oproject \<Rightarrow> oproject" where "B = (\<lambda>j p.
           (let p1 = p\<lparr>LinkResults := link_getResults p j f\<rparr>;
                p2 = (if linkRpt p1 ! j
                      then p1\<lparr>Fout := fwrite (floats (NlinkResults p1)
                                                  (LinkResults p1)) (Fout p1)\<rparr>
                      else p1)
            in p2\<lparr>SysResults := sys_link p2 j f (SysResults p2)\<rparr>))"
  define q where "q = fold B [0..<length fl] p"
  have fq: "oframe q = oframe p"
    using fold_link [OF assms(1), of f "[0..<length fl]"] by (simp add: q_def B_def)
  have "output_saveLinkResults p t = fold B [0..<length (linkRpt p)] p"
    by (simp add: output_saveLinkResults_def Let_def B_def f_def weightRouting_def)
  also have "\<dots> = B (length fl) q" by (simp add: assms(2) q_def)
  finally have "LinkResults (output_saveLinkResults p t) = link_getResults q (length fl) f"
    by (simp add: B_def Let_def)
  then show ?thesis using oframe_fields(10) [OF fq] by (simp add: f_def)
qed

lemma output_saveResults_LinkResults:
  assumes "\<not> getDateTime sp t < ReportStart sp" "at_end (Fout sp)" "linkRpt sp = fl @ [b]"
  shows "LinkResults (output_saveResults sp t)
           = link_getResults sp (length fl) (weightRouting sp t)"
proof -
  from output_saveResults_write(4) [OF assms(1,2)] obtain sp4 where
    f: "oframe sp4 = oframe sp" and e: "at_end (Fout sp4)"
    and l: "LinkResults (output_saveResults sp t)
               = LinkResults (if length (linkRpt sp4) > 0
                              then output_saveLinkResults sp4 t else sp4)"
    by blast
  note fs = oframe_fields [OF f]
  have r: "linkRpt sp4 = fl @ [b]" using fs(3) assms(3) by simp
  have "LinkResults (output_saveResults sp t) = LinkResults (output_saveLinkResults sp4 t)"
    using l r by simp
  also have "\<dots> = link_getResults sp4 (length fl) (weightRouting sp4 t)"
    by (rule saveLink_last [OF e r])
  finally show ?thesis using fs by (simp add: weightRouting_def)
qed

lemma fread_floats_at_end:
  assumes "at_end f"
  shows "fst (fread_floats n f buf) = buf"
  using assms by (simp add: fread_floats_def at_end_def)

lemma read_link_fail:
  assumes "at_end (Fout r)"
    and "sint (OutputStartPos r + of_int (period - 1) * BytesPerPeriod r
               + (8 + of_nat (NumSubcatch r) * of_nat (NsubcatchResults r) * 4)
               + of_nat (NumNodes r) * of_nat (NnodeResults r) * 4
               + of_int index * of_nat (NlinkResults r) * 4) < 0"
  shows "LinkResults (output_readLinkResults r period index) = LinkResults r"
  using assms
  by (simp add: output_readLinkResults_def Let_def fseek_def fread_floats_at_end)

subsection \<open>The sample project\<close>

lemma out0_open: "output_open z0 True hdr0 = Some out0"
  by (simp add: out0_def output_open_def Let_def)

lemma hdr0_length: "length hdr0 = 4"
  by (simp add: hdr0_def length_bytes4)

lemma out0_stream_ok: "stream_ok out0"
  using output_open_stream_ok [OF out0_open] by (simp add: hdr0_length)

lemma out0_at_end: "at_end (Fout out0)"
  using out0_stream_ok by (simp add: stream_ok_def at_end_def)

lemma out0_counts_ok: "counts_ok out0"
  using out0_stream_ok by (simp add: stream_ok_def counts_ok_def)

lemma out0_fields:
  "subcatchRpt out0 = [True]" "nodeRpt out0 = [False, True]" "linkRpt out0 = [True]"
  "MAX_SYS_RESULTS out0 = 15" "ReportStart out0 = 1" "getDateTime out0 = (\<lambda>t. t)"
  "OldRunoffTime out0 = 0" "NewRunoffTime out0 = 1"
  "OldRoutingTime out0 = 0" "NewRoutingTime out0 = 1"
  "subcatch_getResults out0 = (\<lambda>j f i. (if f = 2 then 100 else 200) + 10 * of_nat j + of_nat i)"
  "node_getResults out0 = (\<lambda>j f i. (if f = 2 then 100 else 200) + 10 * of_nat j + of_nat i)"
  "link_getResults out0 = (\<lambda>j f i. (if f = 2 then 100 else 200) + 10 * of_nat j + of_nat i)"
  "Nperiods out0 = 0" "content (Fout out0) = hdr0"
  by (simp_all add: out0_def output_open_def Let_def z0_def fwrite_def fseek_def)

lemma out0_layout:
  "NsubcatchResults out0 = 8" "NnodeResults out0 = 6" "NlinkResults out0 = 5"
  "NumSubcatch out0 = 1" "NumNodes out0 = 1" "NumLinks out0 = 1"
  "BytesPerPeriod out0 = 144" "OutputStartPos out0 = 4" "recordSize out0 = 144"
  by (simp_all add: out0_def output_open_def Let_def z0_def fwrite_def fseek_def
      countRpt_def MAX_SUBCATCH_RESULTS_def MAX_NODE_RESULTS_def MAX_LINK_RESULTS_def
      recordSize_def hdr0_length)

lemma keeps_output_id: "keeps_output (\<lambda>s. s)"
  by (simp add: keeps_output_def)

lemma out0_save_view:
  "getDateTime (output_saveResults out0 t) = (\<lambda>t. t)"
  "ReportStart (output_saveResults out0 t) = 1"
  "subcatch_getResults (output_saveResults out0 t) = subcatch_getResults out0"
  "node_getResults (output_saveResults out0 t) = node_getResults out0"
  "link_getResults (output_saveResults out0 t) = link_getResults out0"
  "weightRunoff (output_saveResults out0 t) u = u"
  "weightRouting (output_saveResults out0 t) u = u"
  using oview_fields [OF output_saveResults_oview [OF out0_at_end, of t]]
  by (simp_all add: out0_fields weightRunoff_def weightRouting_def)

lemma steps0_written:
  "written_at out0 steps0 = [(out0, 2), (output_saveResults out0 2, 3)]"
proof -
  have "output_saveResults out0 0 = out0"
    by (rule output_saveResults_skip) (simp add: out0_fields)
  then show ?thesis by (simp add: steps0_def out0_fields out0_save_view)
qed

lemma steps0_keeps: "\<forall>x\<in>set steps0. keeps_output (snd x)"
  by (simp add: steps0_def keeps_output_id)

lemma steps0_size: "length (content (Fout (output_run out0 steps0))) < 2 ^ 31"
  using output_run_length [OF out0_at_end out0_counts_ok steps0_keeps]
  by (simp add: steps0_written out0_fields out0_layout hdr0_length)

lemma reported_samples:
  "reported [True] ! 0 = 0" "reported [False, True] ! 0 = 1"
  by (simp_all add: reported_def upt_rec)

lemma bigsteps0_id: "\<forall>x\<in>set bigsteps0. snd x = (\<lambda>s. s)"
  by (simp add: bigsteps0_def)

lemma bigsteps0_keeps: "\<forall>x\<in>set bigsteps0. keeps_output (snd x)"
  using bigsteps0_id keeps_output_id by simp

lemma bigsteps0_times:
  "map snd (written_at out0 bigsteps0) = replicate 14913082 2 @ [3]"
  using run_id [OF out0_at_end bigsteps0_id]
  by (simp add: out0_fields bigsteps0_def)

lemma bigsteps0_length: "length (written_at out0 bigsteps0) = 14913083"
  using arg_cong [OF bigsteps0_times, of length] by simp

lemma bigsteps0_nth:
  "\<exists>s. written_at out0 bigsteps0 ! 14913081 = (s, 2) \<and> oview s = oview out0"
proof -
  have k: "14913081 < length (written_at out0 bigsteps0)" by (simp add: bigsteps0_length)
  have "snd (written_at out0 bigsteps0 ! 14913081)
          = map snd (written_at out0 bigsteps0) ! 14913081"
    using k by simp
  also have "\<dots> = 2" by (simp only: bigsteps0_times) (simp add: nth_append)
  finally have t: "snd (written_at out0 bigsteps0 ! 14913081) = 2" .
  have "written_at out0 bigsteps0 ! 14913081 \<in> set (written_at out0 bigsteps0)"
    using k by (rule nth_mem)
  then have "oview (fst (written_at out0 bigsteps0 ! 14913081)) = oview out0"
    using run_id [OF out0_at_end bigsteps0_id] by blast
  then show ?thesis using t by (metis prod.collapse)
qed

lemma bigsteps0_final:
  "at_end (Fout (output_run out0 bigsteps0))"
  "layout (output_run out0 bigsteps0) = layout out0"
  "LinkResults (output_run out0 bigsteps0) 0 = 200"
proof -
  define pre :: "(real \<times> (oproject \<Rightarrow> oproject)) list"
    where "pre = replicate 14913082 (2, \<lambda>s. s)"
  define m where "m = output_run out0 pre"
  have ids: "\<forall>x\<in>set pre. snd x = (\<lambda>s. s)" by (simp add: pre_def)
  have ks: "\<forall>x\<in>set pre. keeps_output (snd x)" using ids keeps_output_id by simp
  have run: "output_run out0 bigsteps0 = output_saveResults m 3"
    by (simp add: bigsteps0_def pre_def [symmetric] output_run_append m_def)
  have e: "at_end (Fout m)" and l: "layout m = layout out0"
    using output_run_content [OF out0_at_end ks] by (simp_all add: m_def)
  have v: "oview m = oview out0" using run_id [OF out0_at_end ids] by (simp add: m_def)
  note f = oview_fields [OF v]
  show "at_end (Fout (output_run out0 bigsteps0))"
    using output_saveResults_at_end [OF e] by (simp add: run)
  show "layout (output_run out0 bigsteps0) = layout out0"
    using output_saveResults_layout [OF e] l by (simp add: run)
  have d: "\<not> getDateTime m 3 < ReportStart m" using f by (simp add: out0_fields)
  have r: "linkRpt m = [] @ [True]" using f by (simp add: out0_fields)
  have "LinkResults (output_saveResults m 3) = link_getResults m (length ([] :: bool list))
          (weightRouting m 3)"
    by (rule output_saveResults_LinkResults [OF d e r])
  then show "LinkResults (output_run out0 bigsteps0) 0 = 200"
    using f by (simp add: run weightRouting_def out0_fields)
qed


section \<open>Properties of the runoff of a subarea\<close>




section \<open>Claims on flow routing\<close>

subsection \<open>C1: the updated flags after a routing step\<close>

text \<open>
  Claim C1 says that after every steady or kinematic-wave step of \<^verbatim>\<open>flowrout_execute\<close> the
  \<open>updated\<close> flag of every node is true. The step resets every flag, and only
  \<^verbatim>\<open>updateStorageState\<close> sets one, for a storage node: \<^verbatim>\<open>setNewNodeState\<close> closes out
  the other nodes without touching their flag. On a network of one junction and no link
  the flag of the junction is false after a steady flow step.
\<close>

theorem flowrout_execute_updated_counterexample:
  "\<not> (\<forall>nd \<in> set (Node (snd (flowrout_execute E0 (tank0\<lparr>Node := [node0]\<rparr>) [] SF 1))). updated nd)"
  by (simp add: flowrout_execute_def Let_def tank0_def node0_def E0_def resetNode_def
        setNewNodeState_def)

text \<open>
  C1 as the code has it: when no error code is set, a step of a routing model other than
  dynamic wave keeps the number and the types of the nodes, and afterwards the
  \<open>updated\<close> flag of a node is true exactly when the node is a storage node.
\<close>

theorem flowrout_execute_updated:
  assumes "ErrorCode sp = 0" and "routingModel \<noteq> DW"
  shows "length (Node (snd (flowrout_execute E sp links routingModel tStep))) = length (Node sp)
    \<and> (\<forall>k<length (Node sp).
          ntype (Node (snd (flowrout_execute E sp links routingModel tStep)) ! k) = ntype (Node sp ! k)
          \<and> (updated (Node (snd (flowrout_execute E sp links routingModel tStep)) ! k)
                \<longleftrightarrow> ntype (Node sp ! k) = STORAGE))"
  using flowrout_execute_closed [OF assms, of E links tStep]
  by (auto simp: nodes_closed_def)

theorem flowrout_execute_updated_witness:
  "ErrorCode net0 = 0 \<and> SF \<noteq> DW
   \<and> length (Node (snd (flowrout_execute E0 net0 [0, 2, 1] SF 60))) = 3
   \<and> updated (Node (snd (flowrout_execute E0 net0 [0, 2, 1] SF 60)) ! 0)
   \<and> \<not> updated (Node (snd (flowrout_execute E0 net0 [0, 2, 1] SF 60)) ! 1)
   \<and> \<not> updated (Node (snd (flowrout_execute E0 net0 [0, 2, 1] SF 60)) ! 2)"
proof -
  have h: "ErrorCode net0 = 0" "SF \<noteq> DW" by (simp_all add: net0_def)
  have t: "ntype (Node net0 ! 0) = STORAGE" "ntype (Node net0 ! 1) \<noteq> STORAGE"
    "ntype (Node net0 ! 2) \<noteq> STORAGE" "length (Node net0) = 3"
    by (simp_all add: net0_def node0_def)
  from flowrout_execute_updated [OF h, of E0 "[0, 2, 1]" 60]
  have len: "length (Node (snd (flowrout_execute E0 net0 [0, 2, 1] SF 60))) = length (Node net0)"
    and u: "\<And>k. k < length (Node net0) \<Longrightarrow>
              updated (Node (snd (flowrout_execute E0 net0 [0, 2, 1] SF 60)) ! k)
                \<longleftrightarrow> ntype (Node net0 ! k) = STORAGE"
    by simp_all
  from u [of 0] u [of 1] u [of 2] len h t show ?thesis by simp
qed

subsection \<open>C3: the iteration of updateStorageState\<close>

text \<open>
  Claim C3 says that the loop of \<^verbatim>\<open>updateStorageState\<close> stops on a depth change of at
  most \<^verbatim>\<open>STOPTOL\<close> or is clamped to 10 iterations. The counter \<open>iter\<close> starts at 1 and
  the loop runs while \<open>iter < MAXITER\<close>, so the loop is left after nine passes. For a
  tank with unit area, no outlet and fixed terms of 100 in the flow balance, the depth
  after pass \<open>n\<close> is \<open>100 (1 - 0.45 ^ n)\<close>: the ninth pass still changes it by more
  than 0.09, and the loop is left with \<open>iter = 10\<close>, not stopped, in the state after
  nine passes.
\<close>

theorem storage_iterate_ten_counterexample:
  "storage_iterate E0 0 0 [] 1 100 (tank0, 0) 1 False
     = (((storage_pass E0 0 0 [] 1 100) ^^ 9) (tank0, 0), 10, False)"
  by (simp add: eval_nat_numeral funpow_swap1 storage_iterate.simps storage_pass_def Let_def
        E0_def tank0_def node0_def OMEGA_def STOPTOL_def MAXITER_def getStorageOutflow_def
        getStorageOutflow_loop.simps [of _ _ _ _ _ 0 0])

text \<open>
  C3 as the code has it: for a storage node that is not yet updated,
  \<^verbatim>\<open>updateStorageState\<close> returns, and it makes \<open>n\<close> passes with \<open>1 \<le> n \<le> 9\<close>. No pass
  before the last meets the stopping test; the last one meets it, or it is the ninth. The
  node state is the one the last pass leaves, its depth being the under-relaxed depth of
  that pass, with the node marked as updated.
\<close>

theorem updateStorageState_passes:
  assumes "ntype (Node sp ! i) = STORAGE" and "\<not> updated (Node sp ! i)"
  shows "\<exists>n. 1 \<le> n \<and> n \<le> 9
     \<and> updateStorageState E sp i j links dt
         = markUpdated i (fst (((storage_pass E i j links dt (storage_vFixed sp i dt)) ^^ n)
                                 (sp, newDepth (Node sp ! i))))
     \<and> (i < length (Node sp) \<longrightarrow>
          newDepth (Node (updateStorageState E sp i j links dt) ! i)
            = snd (((storage_pass E i j links dt (storage_vFixed sp i dt)) ^^ n)
                     (sp, newDepth (Node sp ! i))))
     \<and> (\<forall>m<n - 1. \<not> storage_converged E i j links dt (storage_vFixed sp i dt)
            (((storage_pass E i j links dt (storage_vFixed sp i dt)) ^^ m)
               (sp, newDepth (Node sp ! i))))
     \<and> (storage_converged E i j links dt (storage_vFixed sp i dt)
            (((storage_pass E i j links dt (storage_vFixed sp i dt)) ^^ (n - 1))
               (sp, newDepth (Node sp ! i))) \<or> n = 9)"
proof -
  let ?P = "storage_pass E i j links dt (storage_vFixed sp i dt)"
  let ?s = "(sp, newDepth (Node sp ! i))"
  from assms obtain n where n: "1 \<le> n" "n \<le> 9"
    "updateStorageState E sp i j links dt = markUpdated i (fst ((?P ^^ n) ?s))"
    "\<forall>m<n - 1. \<not> storage_converged E i j links dt (storage_vFixed sp i dt) ((?P ^^ m) ?s)"
    "storage_converged E i j links dt (storage_vFixed sp i dt) ((?P ^^ (n - 1)) ?s) \<or> n = 9"
    using updateStorageState_run [of sp i E j links dt] by blast
  have "newDepth (Node (updateStorageState E sp i j links dt) ! i) = snd ((?P ^^ n) ?s)"
    if i: "i < length (Node sp)"
  proof -
    from n(1) obtain m where m: "n = Suc m" by (cases n) auto
    have "i < length (Node (fst ((?P ^^ m) ?s)))" using i by (simp add: storage_funpow_length)
    then have "newDepth (Node (fst (?P ((?P ^^ m) ?s))) ! i) = snd (?P ((?P ^^ m) ?s))"
      by (rule storage_pass_depth)
    moreover have "i < length (Node (fst ((?P ^^ n) ?s)))"
      using i by (simp add: storage_funpow_length)
    ultimately show ?thesis by (simp add: n(3) m markUpdated_simps)
  qed
  with n show ?thesis by blast
qed

theorem updateStorageState_passes_witness:
  "ntype (Node tank0 ! 0) = STORAGE \<and> \<not> updated (Node tank0 ! 0) \<and> 0 < length (Node tank0)
   \<and> (\<exists>n. 1 \<le> n \<and> n \<le> 9
        \<and> updateStorageState E0 tank0 0 0 [] 1
            = markUpdated 0 (fst (((storage_pass E0 0 0 [] 1 (storage_vFixed tank0 0 1)) ^^ n)
                                    (tank0, newDepth (Node tank0 ! 0))))
        \<and> newDepth (Node (updateStorageState E0 tank0 0 0 [] 1) ! 0)
            = snd (((storage_pass E0 0 0 [] 1 (storage_vFixed tank0 0 1)) ^^ n)
                     (tank0, newDepth (Node tank0 ! 0))))"
proof -
  have h: "ntype (Node tank0 ! 0) = STORAGE" "\<not> updated (Node tank0 ! 0)" "0 < length (Node tank0)"
    by (simp_all add: tank0_def node0_def)
  from updateStorageState_passes [OF h(1,2), of E0 0 "[]" 1] h show ?thesis by blast
qed

subsection \<open>C5: the outflow sum of a storage node\<close>

text \<open>
  Claim C5 says that the outflow sum of a storage node is the sum of the inflows of every
  link whose upstream node is that node, wherever those links are in the sorted array.
  The loop of \<^verbatim>\<open>getStorageOutflow\<close> is left at the first link with another upstream
  node. In the sample network the links 0 and 2 leave the storage node 0 and link 1
  leaves node 1; the order 0, 1, 2 is a topological order, each link has an inflow of 1,
  and the outflow sum from position 0 is 1, not 2.
\<close>

theorem getStorageOutflow_counterexample:
  "getStorageOutflow E0 net0 0 0 [0, 1, 2] 60 = 1
   \<and> (\<Sum>m\<leftarrow>filter (\<lambda>m. node1 (Link net0 ! m) = 0) [0, 1, 2]. getLinkInflow E0 net0 m 60) = 2"
  by (simp add: getStorageOutflow_def getStorageOutflow_loop.simps [of _ _ _ _ _ 0]
        getStorageOutflow_loop.simps [of _ _ _ _ _ "Suc 0"] getLinkInflow_def Let_def
        net0_def link0_def node0_def E0_def)

text \<open>
  C5 as the code has it: the outflow sum taken at position \<open>j\<close> of the sorted array is
  the sum of the inflows of the links in the longest run of entries, starting at \<open>j\<close>,
  whose upstream node is the storage node, each inflow being computed on the project as
  it is then. It is the sum over every such link from \<open>j\<close> on when those links are that
  run, and 0 for a node called with \<open>j\<close> past the last link.
\<close>

theorem getStorageOutflow_run:
  assumes "length (Link sp) \<le> length links \<or> length (Link sp) \<le> j"
  shows "getStorageOutflow E sp i j links dt =
           (\<Sum>m\<leftarrow>takeWhile (\<lambda>m. node1 (Link sp ! m) = i) (drop j (take (length (Link sp)) links)).
              getLinkInflow E sp m dt)
    \<and> (filter (\<lambda>m. node1 (Link sp ! m) = i) (drop j (take (length (Link sp)) links))
          = takeWhile (\<lambda>m. node1 (Link sp ! m) = i) (drop j (take (length (Link sp)) links)) \<longrightarrow>
        getStorageOutflow E sp i j links dt =
           (\<Sum>m\<leftarrow>filter (\<lambda>m. node1 (Link sp ! m) = i) (drop j (take (length (Link sp)) links)).
              getLinkInflow E sp m dt))
    \<and> (length (Link sp) \<le> j \<longrightarrow> getStorageOutflow E sp i j links dt = 0)"
  using assms by (simp add: getStorageOutflow_def getStorageOutflow_loop_sum)

theorem getStorageOutflow_run_witness:
  "length (Link net0) \<le> length [0, 2, 1 :: nat]
   \<and> filter (\<lambda>m. node1 (Link net0 ! m) = 0) (drop 0 (take (length (Link net0)) [0, 2, 1]))
       = takeWhile (\<lambda>m. node1 (Link net0 ! m) = 0) (drop 0 (take (length (Link net0)) [0, 2, 1]))
   \<and> getStorageOutflow E0 net0 0 0 [0, 2, 1] 60 = 2
   \<and> length (Link net0) \<le> 3 \<and> getStorageOutflow E0 net0 0 3 [] 60 = 0"
  using getStorageOutflow_run [of net0 "[0, 2, 1]" 0 E0 0 60]
    getStorageOutflow_run [of net0 "[]" 3 E0 0 60]
  by (simp add: getLinkInflow_def Let_def net0_def link0_def node0_def E0_def)

subsection \<open>C6: steady flow routing of a link\<close>

text \<open>
  Claim C6: for a conduit with a cross-section that is not \<^verbatim>\<open>DUMMY\<close>, the flow per barrel
  \<open>q\<close> is \<open>qin / barrels\<close> less the loss rate, not below 0; if it exceeds \<open>qFull\<close> then \<open>q\<close>
  is \<open>qFull\<close>, \<open>a1\<close> is \<open>aFull\<close> and the link inflow becomes \<open>q * barrels\<close>; otherwise \<open>a1\<close>
  is the area of the section factor \<open>q / beta\<close>; in both cases \<open>a2 = a1\<close> and
  \<open>qout = q * barrels\<close>. For a link that is not a conduit, \<open>qout = qin\<close> and nothing
  changes.
\<close>

theorem steadyflow_execute_spec:
  "steadyflow_execute E sp j qin tStep = (r, qin', qout, sp') \<Longrightarrow>
   (ltype (Link sp ! j) \<noteq> CONDUIT \<longrightarrow> qout = qin \<and> qin' = qin \<and> sp' = sp) \<and>
   (ltype (Link sp ! j) = CONDUIT \<and> xtype (xsect (Link sp ! j)) \<noteq> DUMMY
      \<and> subIndex (Link sp ! j) < length (Conduit sp) \<longrightarrow>
     (let lk = Link sp ! j; c = Conduit sp ! subIndex lk; c' = Conduit sp' ! subIndex lk;
          b = real_of_int (barrels c);
          q0 = max 0 (qin / b - link_getLossRate E sp j (qin / b) tStep)
      in (if q0 > qFull lk
          then q1 c' = qFull lk \<and> a1 c' = aFull (xsect lk) \<and> qin' = qFull lk * b
          else q1 c' = q0 \<and> a1 c' = xsect_getAofS E (xsect lk) (q0 / beta c) \<and> qin' = qin)
         \<and> a2 c' = a1 c' \<and> q2 c' = q1 c' \<and> qout = q1 c' * b))"
  by (auto simp: steadyflow_execute_def Let_def max_def split: if_splits)

theorem steadyflow_execute_spec_witness:
  "steadyflow_execute E0 net0 0 30 60
     = (1, 20, 20, net0\<lparr>Conduit := [conduit0\<lparr>a1 := 3, a2 := 3, q1 := 10, q2 := 10\<rparr>,
                                     conduit0, conduit0]\<rparr>)
   \<and> ltype (Link net0 ! 0) = CONDUIT \<and> xtype (xsect (Link net0 ! 0)) \<noteq> DUMMY
   \<and> subIndex (Link net0 ! 0) < length (Conduit net0)
   \<and> steadyflow_execute E0 (net0\<lparr>Link := [link0\<lparr>ltype := PUMP\<rparr>]\<rparr>) 0 30 60
       = (1, 30, 30, net0\<lparr>Link := [link0\<lparr>ltype := PUMP\<rparr>]\<rparr>)
   \<and> ltype (Link (net0\<lparr>Link := [link0\<lparr>ltype := PUMP\<rparr>]\<rparr>) ! 0) \<noteq> CONDUIT"
  using steadyflow_execute_spec [of E0 net0 0 30 60 1 20 20
           "net0\<lparr>Conduit := [conduit0\<lparr>a1 := 3, a2 := 3, q1 := 10, q2 := 10\<rparr>,
                              conduit0, conduit0]\<rparr>"]
    steadyflow_execute_spec [of E0 "net0\<lparr>Link := [link0\<lparr>ltype := PUMP\<rparr>]\<rparr>" 0 30 60 1 30 30
           "net0\<lparr>Link := [link0\<lparr>ltype := PUMP\<rparr>]\<rparr>"]
  by (simp add: steadyflow_execute_def E0_def net0_def link0_def conduit0_def node0_def Let_def)

subsection \<open>C7: overflow and volume are not negative\<close>

text \<open>
  Claim C7: after every steady or kinematic-wave routing step, the overflow rate and the
  new volume of every node are not negative, and no overflow lies between 0 and the
  tolerance \<^verbatim>\<open>FUDGE\<close>: the node update and the storage iteration clamp the volume at 0 and
  set an overflow below \<^verbatim>\<open>FUDGE\<close> to 0. The time step is positive. Both updates also cut
  the volume down to the full volume of the node, so the full volumes, like the
  tolerance, are taken not to be negative.

  What the two updates write, for any project: \<^verbatim>\<open>setNewNodeState\<close> takes for a node that is
  no storage node the mid-point balance \<open>v\<close>, or 0 when the balance is below \<^verbatim>\<open>FUDGE\<close>;
  \<^verbatim>\<open>updateStorageState\<close> makes between 1 and 9 passes and takes in its last pass the balance
  with the outflow of the state before that pass, or 0 when the balance is negative.
  The new volume is \<open>v\<close>, cut down to the full volume unless the node can pond; the
  overflow is the rate \<open>q\<close> at which \<open>v\<close> exceeds the larger of the old and the full
  volume, when \<open>v\<close> exceeds the full volume and \<open>q\<close> is not below \<^verbatim>\<open>FUDGE\<close>, and 0 otherwise.
\<close>

theorem flowrout_execute_nonneg:
  assumes "ErrorCode sp = 0" and "routingModel \<noteq> DW" and "0 \<le> FUDGE E"
    and "\<forall>nd \<in> set (Node sp). 0 \<le> fullVolume nd" and "0 < tStep"
  shows "(\<forall>nd \<in> set (Node (snd (flowrout_execute E sp links routingModel tStep))).
            0 \<le> overflow nd \<and> (overflow nd < FUDGE E \<longrightarrow> overflow nd = 0) \<and> 0 \<le> newVolume nd)
    \<and> (\<forall>p j. j < length (Node p) \<and> ntype (Node p ! j) \<noteq> STORAGE \<longrightarrow>
          (let nd = Node p ! j;
               v = oldVolume nd
                     + 0.5 * (oldNetInflow nd + (inflow nd - outflow nd - losses nd)) * tStep;
               v = (if v < FUDGE E then 0 else v);
               q = (v - max (oldVolume nd) (fullVolume nd)) / tStep;
               nd' = Node (setNewNodeState E p j tStep) ! j
           in newVolume nd' = (if AllowPonding p \<and> pondedArea nd > 0 then v
                               else min v (fullVolume nd))
              \<and> overflow nd' = (if v > fullVolume nd \<and> FUDGE E \<le> q then q else 0)))
    \<and> (\<forall>p i j ls. i < length (Node p) \<and> ntype (Node p ! i) = STORAGE
                    \<and> \<not> updated (Node p ! i) \<longrightarrow>
          (\<exists>n. 1 \<le> n \<and> n \<le> 9 \<and>
             (let s = ((storage_pass E i j ls tStep (storage_vFixed p i tStep)) ^^ (n - 1))
                        (p, newDepth (Node p ! i));
                  nd = Node p ! i;
                  v = max 0 (storage_vFixed p i tStep
                             - 0.5 * getStorageOutflow E (fst s) i j ls tStep * tStep);
                  q = (v - max (oldVolume nd) (fullVolume nd)) / tStep;
                  nd' = Node (updateStorageState E p i j ls tStep) ! i
              in newVolume nd' = (if AllowPonding p \<and> pondedArea nd \<noteq> 0 then v
                                  else min v (fullVolume nd))
                 \<and> overflow nd' = (if v > fullVolume nd \<and> FUDGE E \<le> q then q else 0))))"
proof (intro conjI ballI allI impI)
  fix nd assume "nd \<in> set (Node (snd (flowrout_execute E sp links routingModel tStep)))"
  then obtain k where k: "k < length (Node (snd (flowrout_execute E sp links routingModel tStep)))"
    "nd = Node (snd (flowrout_execute E sp links routingModel tStep)) ! k"
    by (auto simp: in_set_conv_nth)
  from flowrout_execute_closed [OF assms(1,2), of E links tStep] k assms(3,4)
  have ok: "node_ok E nd" by (auto simp: nodes_closed_def)
  show "0 \<le> overflow nd" using ok assms(3) by (auto simp: node_ok_def)
  show "0 \<le> newVolume nd" using ok by (auto simp: node_ok_def)
  assume "overflow nd < FUDGE E"
  then show "overflow nd = 0" using ok by (auto simp: node_ok_def)
next
  fix p :: project and j
  assume "j < length (Node p) \<and> ntype (Node p ! j) \<noteq> STORAGE"
  then show "let nd = Node p ! j;
               v = oldVolume nd
                     + 0.5 * (oldNetInflow nd + (inflow nd - outflow nd - losses nd)) * tStep;
               v = (if v < FUDGE E then 0 else v);
               q = (v - max (oldVolume nd) (fullVolume nd)) / tStep;
               nd' = Node (setNewNodeState E p j tStep) ! j
           in newVolume nd' = (if AllowPonding p \<and> pondedArea nd > 0 then v
                               else min v (fullVolume nd))
              \<and> overflow nd' = (if v > fullVolume nd \<and> FUDGE E \<le> q then q else 0)"
    using setNewNodeState_writes [where j = j and sp = p and E = E and dt = tStep] by simp
next
  fix p :: project and i j ls
  assume "i < length (Node p) \<and> ntype (Node p ! i) = STORAGE \<and> \<not> updated (Node p ! i)"
  then show "\<exists>n. 1 \<le> n \<and> n \<le> 9 \<and>
             (let s = ((storage_pass E i j ls tStep (storage_vFixed p i tStep)) ^^ (n - 1))
                        (p, newDepth (Node p ! i));
                  nd = Node p ! i;
                  v = max 0 (storage_vFixed p i tStep
                             - 0.5 * getStorageOutflow E (fst s) i j ls tStep * tStep);
                  q = (v - max (oldVolume nd) (fullVolume nd)) / tStep;
                  nd' = Node (updateStorageState E p i j ls tStep) ! i
              in newVolume nd' = (if AllowPonding p \<and> pondedArea nd \<noteq> 0 then v
                                  else min v (fullVolume nd))
                 \<and> overflow nd' = (if v > fullVolume nd \<and> FUDGE E \<le> q then q else 0))"
    using updateStorageState_writes [where i = i and sp = p and E = E and j = j
        and links = ls and dt = tStep] by simp
qed

theorem flowrout_execute_nonneg_witness:
  "ErrorCode net0 = 0 \<and> KW \<noteq> DW \<and> 0 \<le> FUDGE E0 \<and> (0 :: real) < 60
   \<and> 0 \<le> fullVolume (Node net0 ! 0) \<and> 0 \<le> fullVolume (Node net0 ! 1)
   \<and> 0 \<le> fullVolume (Node net0 ! 2) \<and> length (Node net0) = 3
   \<and> 0 \<le> overflow (Node (snd (flowrout_execute E0 net0 [0, 2, 1] KW 60)) ! 0)
   \<and> 0 \<le> newVolume (Node (snd (flowrout_execute E0 net0 [0, 2, 1] KW 60)) ! 0)
   \<and> 0 \<le> overflow (Node (snd (flowrout_execute E0 net0 [0, 2, 1] KW 60)) ! 1)
   \<and> 0 \<le> newVolume (Node (snd (flowrout_execute E0 net0 [0, 2, 1] KW 60)) ! 1)
   \<and> 0 \<le> overflow (Node (snd (flowrout_execute E0 net0 [0, 2, 1] KW 60)) ! 2)
   \<and> 0 \<le> newVolume (Node (snd (flowrout_execute E0 net0 [0, 2, 1] KW 60)) ! 2)
   \<and> newVolume (Node (setNewNodeState E0 full0 1 60) ! 1) = 1000
   \<and> overflow (Node (setNewNodeState E0 full0 1 60) ! 1) = 4 / 3
   \<and> newVolume (Node (setNewNodeState E0 dry0 1 60) ! 1) = 0
   \<and> overflow (Node (setNewNodeState E0 dry0 1 60) ! 1) = 0
   \<and> newVolume (Node (updateStorageState E0 full0 0 3 [] 60) ! 0) = 1000
   \<and> overflow (Node (updateStorageState E0 full0 0 3 [] 60) ! 0) = 4 / 3
   \<and> newVolume (Node (updateStorageState E0 dry0 0 3 [] 60) ! 0) = 0
   \<and> overflow (Node (updateStorageState E0 dry0 0 3 [] 60) ! 0) = 0"
proof -
  let ?R = "snd (flowrout_execute E0 net0 [0, 2, 1] KW 60)"
  have h: "ErrorCode net0 = 0" "KW \<noteq> DW" "0 \<le> FUDGE E0"
    "\<forall>nd \<in> set (Node net0). 0 \<le> fullVolume nd" "(0 :: real) < 60"
    by (simp_all add: net0_def E0_def node0_def)
  have f: "0 \<le> fullVolume (Node net0 ! 0)" "0 \<le> fullVolume (Node net0 ! 1)"
    "0 \<le> fullVolume (Node net0 ! 2)" "length (Node net0) = 3"
    by (simp_all add: net0_def node0_def)
  have len: "length (Node ?R) = 3"
    using flowrout_execute_closed [OF h(1,2), of E0 "[0, 2, 1]" 60] f(4)
    by (simp add: nodes_closed_def)
  note t = flowrout_execute_nonneg [OF h, of "[0, 2, 1]"]
  have "0 \<le> overflow (Node ?R ! k) \<and> 0 \<le> newVolume (Node ?R ! k)" if "k < 3" for k
    using t that len by (simp add: nth_mem)
  note a = this [of 0] this [of 1] this [of 2]
  have b1: "newVolume (Node (setNewNodeState E0 full0 1 60) ! 1) = 1000
      \<and> overflow (Node (setNewNodeState E0 full0 1 60) ! 1) = 4 / 3"
  proof -
    have "1 < length (Node full0) \<and> ntype (Node full0 ! 1) \<noteq> STORAGE"
      by (simp add: full0_def net0_def node0_def)
    with t have "let nd = Node full0 ! 1;
               v = oldVolume nd
                     + 0.5 * (oldNetInflow nd + (inflow nd - outflow nd - losses nd)) * 60;
               v = (if v < FUDGE E0 then 0 else v);
               q = (v - max (oldVolume nd) (fullVolume nd)) / 60;
               nd' = Node (setNewNodeState E0 full0 1 60) ! 1
           in newVolume nd' = (if AllowPonding full0 \<and> pondedArea nd > 0 then v
                               else min v (fullVolume nd))
              \<and> overflow nd' = (if v > fullVolume nd \<and> FUDGE E0 \<le> q then q else 0)"
      by blast
    then show ?thesis by (simp add: Let_def full0_def net0_def node0_def E0_def)
  qed
  have b2: "newVolume (Node (setNewNodeState E0 dry0 1 60) ! 1) = 0
      \<and> overflow (Node (setNewNodeState E0 dry0 1 60) ! 1) = 0"
  proof -
    have "1 < length (Node dry0) \<and> ntype (Node dry0 ! 1) \<noteq> STORAGE"
      by (simp add: dry0_def net0_def node0_def)
    with t have "let nd = Node dry0 ! 1;
               v = oldVolume nd
                     + 0.5 * (oldNetInflow nd + (inflow nd - outflow nd - losses nd)) * 60;
               v = (if v < FUDGE E0 then 0 else v);
               q = (v - max (oldVolume nd) (fullVolume nd)) / 60;
               nd' = Node (setNewNodeState E0 dry0 1 60) ! 1
           in newVolume nd' = (if AllowPonding dry0 \<and> pondedArea nd > 0 then v
                               else min v (fullVolume nd))
              \<and> overflow nd' = (if v > fullVolume nd \<and> FUDGE E0 \<le> q then q else 0)"
      by blast
    then show ?thesis by (simp add: Let_def dry0_def net0_def node0_def E0_def)
  qed
  have c: "newVolume (Node (updateStorageState E0 p 0 3 [] 60) ! 0)
             = min (max 0 (storage_vFixed p 0 60)) (fullVolume (Node p ! 0))
      \<and> overflow (Node (updateStorageState E0 p 0 3 [] 60) ! 0)
          = (if max 0 (storage_vFixed p 0 60) > fullVolume (Node p ! 0)
                \<and> FUDGE E0 \<le> (max 0 (storage_vFixed p 0 60)
                       - max (oldVolume (Node p ! 0)) (fullVolume (Node p ! 0))) / 60
             then (max 0 (storage_vFixed p 0 60)
                       - max (oldVolume (Node p ! 0)) (fullVolume (Node p ! 0))) / 60
             else 0)"
    if p: "0 < length (Node p) \<and> ntype (Node p ! 0) = STORAGE \<and> \<not> updated (Node p ! 0)"
      and l: "length (Link p) = 3" and ap: "\<not> AllowPonding p"
    for p
  proof -
    from t p obtain n where
      n: "let s = ((storage_pass E0 0 3 [] 60 (storage_vFixed p 0 60)) ^^ (n - 1))
                        (p, newDepth (Node p ! 0));
                  nd = Node p ! 0;
                  v = max 0 (storage_vFixed p 0 60
                             - 0.5 * getStorageOutflow E0 (fst s) 0 3 [] 60 * 60);
                  q = (v - max (oldVolume nd) (fullVolume nd)) / 60;
                  nd' = Node (updateStorageState E0 p 0 3 [] 60) ! 0
              in newVolume nd' = (if AllowPonding p \<and> pondedArea nd \<noteq> 0 then v
                                  else min v (fullVolume nd))
                 \<and> overflow nd' = (if v > fullVolume nd \<and> FUDGE E0 \<le> q then q else 0)"
      by blast
    have "getStorageOutflow E0
            (fst (((storage_pass E0 0 3 [] 60 (storage_vFixed p 0 60)) ^^ (n - 1))
                        (p, newDepth (Node p ! 0)))) 0 3 [] 60 = 0"
      by (rule getStorageOutflow_end) (simp add: storage_funpow_frame l)
    with n ap show ?thesis by (simp add: Let_def)
  qed
  have c1: "newVolume (Node (updateStorageState E0 full0 0 3 [] 60) ! 0) = 1000
      \<and> overflow (Node (updateStorageState E0 full0 0 3 [] 60) ! 0) = 4 / 3"
    using c [of full0]
    by (simp add: full0_def net0_def node0_def E0_def storage_vFixed_def)
  have c2: "newVolume (Node (updateStorageState E0 dry0 0 3 [] 60) ! 0) = 0
      \<and> overflow (Node (updateStorageState E0 dry0 0 3 [] 60) ! 0) = 0"
    using c [of dry0]
    by (simp add: dry0_def net0_def node0_def E0_def storage_vFixed_def)
  from a b1 b2 c1 c2 h f show ?thesis by simp
qed

section \<open>Claims on the hot start file\<close>

subsection \<open>C4: a NaN in the hot start file\<close>

text \<open>
  Claim C4 says that a NaN among the numbers read from a hot start file, float or double,
  makes the load fail with \<^verbatim>\<open>ERR_HOTSTART_FILE_READ\<close>. \<^verbatim>\<open>readFloat\<close> reports the error;
  \<^verbatim>\<open>readDouble\<close> resets the value and returns \<^verbatim>\<open>FALSE\<close> without reporting anything, so
  \<^verbatim>\<open>readRunoff\<close> stops, \<^verbatim>\<open>readRouting\<close> reads on from where it stopped, and the error code
  stays clear. In the sample file the double at offset 39, the first ponded depth, is a
  NaN: the file is opened with success and no error code.
\<close>

theorem openHotstartFile1_nan_double:
  "double_isNaN (word8 (take 8 (drop 39 hotfile0)))
   \<and> fst (openHotstartFile1 hs0 (Some hotfile0))
   \<and> hsErrorCode (snd (openHotstartFile1 hs0 (Some hotfile0))) = None"
proof -
  let ?sp1 = "hs0\<lparr>FileVersion := 4\<rparr>"
  let ?sp2 = "?sp1\<lparr>Fhotstart1_file := hf 39\<rparr>"
  have h: "FileVersion ?sp1 = 4" "nSubcatch ?sp1 = 1" "nLandUses ?sp1 = 0"
    "nNodes ?sp1 = 1" "nLinks ?sp1 = 0" "nPollut ?sp1 = 0" "FlowUnits ?sp1 = 0"
    by (simp_all add: hs0_def)
  have a: "Fhotstart1_file ?sp2 = hf 39" "nSubcatch ?sp2 = 1" by (simp_all add: hs0_def)
  note r = readRunoff_nan [OF a]
  have s: "FileVersion ?sp2 = 4" "nNodes ?sp2 = 1" "nLinks ?sp2 = 0" "nPollut ?sp2 = 0"
    "nodeType ?sp2 = [JUNCTION]" "hsErrorCode ?sp2 = None"
    by (simp_all add: hs0_def)
  have "hsErrorCode (readRouting (readRunoff ?sp2)) = hsErrorCode (readRunoff ?sp2)"
    by (rule readRouting_ok) (simp_all only: r s)
  also have "\<dots> = None" by (simp only: r s)
  finally have e: "hsErrorCode (readRouting (readRunoff ?sp2)) = None" .
  have n: "double_isNaN (word8 (take 8 (drop 39 hotfile0)))"
    using nan8_isNaN by (simp add: hotfile0_bytes nan8_def)
  have f0: "\<lparr>content = hotfile0, fpos = 0, feof = False\<rparr> = hf 0" by (simp add: hf_def)
  have m: "Fhotstart1_mode hs0 = USE_FILE" by (simp add: hs0_def)
  have "openHotstartFile1 hs0 (Some hotfile0) = readContents ?sp1 (hf 15)"
    by (simp add: openHotstartFile1_def m f0 hf_readStamp)
  also have "\<dots> = (hsErrorCode (readRouting (readRunoff ?sp2)) = None,
                    readRouting (readRunoff ?sp2))"
    by (rule hf_readContents [OF h])
  finally show ?thesis using e n by simp
qed


section \<open>Claims on the runoff of a subarea\<close>

subsection \<open>C8: instantaneous spill\<close>




section \<open>Claims on the runoff step\<close>

subsection \<open>C9: sweeping, buildup and washoff\<close>

text \<open>
  Claim C9 says that at a runoff step street sweeping is applied to a subcatchment exactly
  when the day of the year lies in the sweeping season and the rainfall is negligible,
  that buildup is added when the runoff is negligible, and that washoff is computed.
  \<^verbatim>\<open>runoff_execute\<close> compares the day with the reporting step \<^verbatim>\<open>ReportStep\<close>, a number of
  seconds, where the first day of the season belongs. With a season from day 60 to day
  300 and a reporting step of 900 seconds, day 100 is in the season and the subcatchment
  is dry, but sweeping cannot occur: buildup and washoff are called, sweeping is not.
\<close>

theorem runoffQuality_sweep_missed:
  "SweepStart rp0 \<le> 100 \<and> 100 \<le> SweepEnd rp0
   \<and> rainfall (Subcatch rp0 ! 0) \<le> MIN_RUNOFF renv0
   \<and> \<not> canSweep rp0 100
   \<and> qualCalls (runoffQuality renv0 100 42000 300 rp0)
        = [surfqual_getBuildup 0 300, surfqual_getWashoff 0 0 300]"
  by (simp add: rp0_def renv0_def canSweep_def runoffQuality_def runoffSubcatch_def
        qualCall_def Let_def)


section \<open>Claims on the binary output file\<close>

subsection \<open>C10: one record for each report at or after the start of reporting\<close>

text \<open>
  Claim C10: \<^verbatim>\<open>output_saveResults\<close> does nothing when the date of the report time is before
  \<^verbatim>\<open>ReportStart\<close>: no byte is written and \<^verbatim>\<open>Nperiods\<close> stays. In every other call one
  record of the fixed layout is appended and \<^verbatim>\<open>Nperiods\<close> grows by one, so that the stream
  holds one record for each report time at or after \<^verbatim>\<open>ReportStart\<close>.

  The stream is written at its end (\<^verbatim>\<open>output_open\<close> leaves it there and the writer only
  appends) and the counts of the header are those of the reporting flags. A record is
  the date, the results of the reported subcatchments, nodes and links and the
  system-wide totals; its length is \<open>recordSize\<close>, the number of \<^verbatim>\<open>BytesPerPeriod\<close>. For a
  run of reports, between which the simulation leaves the stream and the layout alone,
  the file is what it was and one record for each report that \<open>written_at\<close> lists,
  in order, and \<^verbatim>\<open>Nperiods\<close> has grown by their number.
\<close>

theorem output_saveResults_period:
  assumes "at_end (Fout sp)" and "counts_ok sp"
  shows "(getDateTime sp t < ReportStart sp \<longrightarrow> output_saveResults sp t = sp)
    \<and> (\<not> getDateTime sp t < ReportStart sp \<longrightarrow>
         (\<exists>bs. is_record bs (sp, t) \<and> length bs = recordSize sp
               \<and> content (Fout (output_saveResults sp t)) = content (Fout sp) @ bs)
         \<and> at_end (Fout (output_saveResults sp t))
         \<and> Nperiods (output_saveResults sp t) = Nperiods sp + 1)
    \<and> (\<forall>steps. (\<forall>x\<in>set steps. keeps_output (snd x)) \<longrightarrow>
         (\<exists>recs. content (Fout (output_run sp steps)) = content (Fout sp) @ concat recs
                \<and> list_all2 is_record recs (written_at sp steps)
                \<and> (\<forall>bs\<in>set recs. length bs = recordSize sp))
         \<and> Nperiods (output_run sp steps) = Nperiods sp + int (length (written_at sp steps)))"
proof (intro conjI impI allI)
  assume "getDateTime sp t < ReportStart sp"
  then show "output_saveResults sp t = sp" by (rule output_saveResults_skip)
next
  assume d: "\<not> getDateTime sp t < ReportStart sp"
  from output_saveResults_write(3) [OF d assms(1)] obtain sys where
    c: "content (Fout (output_saveResults sp t))
          = content (Fout sp) @ recordHead sp t @ floats (MAX_SYS_RESULTS sp) sys"
    by blast
  have "is_record (recordHead sp t @ floats (MAX_SYS_RESULTS sp) sys) (sp, t)"
    by (auto simp add: is_record_def)
  moreover have "length (recordHead sp t @ floats (MAX_SYS_RESULTS sp) sys) = recordSize sp"
    by (rule length_record [OF assms(2)])
  ultimately show "\<exists>bs. is_record bs (sp, t) \<and> length bs = recordSize sp
               \<and> content (Fout (output_saveResults sp t)) = content (Fout sp) @ bs"
    using c by blast
  show "at_end (Fout (output_saveResults sp t))"
    by (rule output_saveResults_write(2) [OF d assms(1)])
  show "Nperiods (output_saveResults sp t) = Nperiods sp + 1"
    by (rule output_saveResults_Nperiods [OF d assms(1)])
next
  fix steps :: "(real \<times> (oproject \<Rightarrow> oproject)) list"
  assume ks: "\<forall>x\<in>set steps. keeps_output (snd x)"
  from output_run_content [OF assms(1) ks] obtain recs where
    l: "\<forall>w\<in>set (written_at sp steps). layout (fst w) = layout sp"
    and c: "content (Fout (output_run sp steps)) = content (Fout sp) @ concat recs"
    and r: "list_all2 is_record recs (written_at sp steps)"
    and n: "Nperiods (output_run sp steps) = Nperiods sp + int (length (written_at sp steps))"
    by blast
  have len: "length recs = length (written_at sp steps)"
    using r by (rule list_all2_lengthD)
  have u: "\<forall>x\<in>set recs. length x = recordSize sp"
  proof
    fix x assume "x \<in> set recs"
    then obtain i where i: "i < length recs" "recs ! i = x" by (meson in_set_conv_nth)
    have ir: "is_record x (written_at sp steps ! i)"
      using list_all2_nthD [OF r i(1)] i(2) by simp
    have m: "written_at sp steps ! i \<in> set (written_at sp steps)"
      using i(1) len by simp
    obtain s' t' where w: "written_at sp steps ! i = (s', t')"
      by (cases "written_at sp steps ! i")
    have l': "layout s' = layout sp" using l m w by auto
    have "counts_ok s'" using counts_ok_layout [OF l'] assms(2) by simp
    then have "length x = recordSize s'" using ir w is_record_length by simp
    then show "length x = recordSize sp" using recordSize_layout [OF l'] by simp
  qed
  show "\<exists>recs. content (Fout (output_run sp steps)) = content (Fout sp) @ concat recs
                \<and> list_all2 is_record recs (written_at sp steps)
                \<and> (\<forall>bs\<in>set recs. length bs = recordSize sp)"
    using c r u by blast
  show "Nperiods (output_run sp steps) = Nperiods sp + int (length (written_at sp steps))"
    by (rule n)
qed

theorem output_saveResults_period_witness:
  "output_saveResults out0 0 = out0
   \<and> (\<exists>bs. length bs = 144
          \<and> content (Fout (output_saveResults out0 2)) = hdr0 @ bs)
   \<and> Nperiods (output_saveResults out0 2) = 1
   \<and> (\<exists>recs. content (Fout (output_run out0 steps0)) = hdr0 @ concat recs
           \<and> length recs = 2)
   \<and> Nperiods (output_run out0 steps0) = 2"
proof -
  note a = output_saveResults_period [OF out0_at_end out0_counts_ok, of 0]
  note b = output_saveResults_period [OF out0_at_end out0_counts_ok, of 2]
  have 1: "output_saveResults out0 0 = out0" using a by (simp add: out0_fields)
  have 2: "(\<exists>bs. length bs = 144
          \<and> content (Fout (output_saveResults out0 2)) = hdr0 @ bs)
      \<and> Nperiods (output_saveResults out0 2) = 1"
    using b by (auto simp add: out0_fields out0_layout)
  from b steps0_keeps obtain recs where
    r: "content (Fout (output_run out0 steps0)) = content (Fout out0) @ concat recs"
      "list_all2 is_record recs (written_at out0 steps0)"
    and n: "Nperiods (output_run out0 steps0)
              = Nperiods out0 + int (length (written_at out0 steps0))"
    by blast
  have "length recs = 2" using list_all2_lengthD [OF r(2)] by (simp add: steps0_written)
  then have 3: "\<exists>recs. content (Fout (output_run out0 steps0)) = hdr0 @ concat recs
           \<and> length recs = 2"
    using r(1) by (auto simp add: out0_fields)
  have 4: "Nperiods (output_run out0 steps0) = 2"
    using n by (simp add: steps0_written out0_fields)
  show ?thesis using 1 2 3 4 by blast
qed

subsection \<open>C2: reading a period back\<close>

text \<open>
  Claim C2 says that reading period \<open>k\<close> back returns the values written for period
  \<open>k\<close>, for every period written, the offset of the reader landing on the bytes that
  the writer appended. The reader computes the offset in a 4-byte integer \<^verbatim>\<open>INT4\<close> and
  hands it to \<^verbatim>\<open>fseek\<close>. In the sample project a record takes 144 bytes after a header of
  4 bytes; of the 14913083 records of \<open>bigsteps0\<close>, the record of period 14913082 holds
  the results of the link at offset \<open>4 + 14913081 * 144 + 68 = 2147483732\<close>, which is not
  below \<open>2^31\<close>. The 4-byte offset is negative, \<^verbatim>\<open>fseek\<close> fails, the stream stays at its
  end, \<^verbatim>\<open>fread\<close> delivers nothing and \<^verbatim>\<open>LinkResults\<close> keeps the value 200 of the last
  period written, where 100 was written for period 14913082.
\<close>

theorem output_read_counterexample:
  "\<exists>s. stream_ok out0
       \<and> 14913081 < length (written_at out0 bigsteps0)
       \<and> written_at out0 bigsteps0 ! 14913081 = (s, 2)
       \<and> link_getResults s (reported (linkRpt out0) ! 0) (weightRouting s 2) 0 = 100
       \<and> LinkResults (output_readLinkResults (output_run out0 bigsteps0)
                        (Nperiods out0 + int 14913081 + 1) (int 0)) 0 = 200
       \<and> 2 ^ 31 \<le> length (content (Fout (output_run out0 bigsteps0)))"
proof -
  from bigsteps0_nth obtain s where
    w: "written_at out0 bigsteps0 ! 14913081 = (s, 2)" and v: "oview s = oview out0"
    by blast
  note f = oview_fields [OF v]
  have 1: "link_getResults s (reported (linkRpt out0) ! 0) (weightRouting s 2) 0 = 100"
    using f by (simp add: weightRouting_def out0_fields reported_samples)
  note lf = layout_fields [OF bigsteps0_final(2)]
  have neg: "sint (OutputStartPos (output_run out0 bigsteps0)
               + of_int (Nperiods out0 + int 14913081 + 1 - 1)
                   * BytesPerPeriod (output_run out0 bigsteps0)
               + (8 + of_nat (NumSubcatch (output_run out0 bigsteps0))
                        * of_nat (NsubcatchResults (output_run out0 bigsteps0)) * 4)
               + of_nat (NumNodes (output_run out0 bigsteps0))
                   * of_nat (NnodeResults (output_run out0 bigsteps0)) * 4
               + of_int (int 0) * of_nat (NlinkResults (output_run out0 bigsteps0)) * 4) < 0"
    by (simp add: lf out0_layout out0_fields)
  have 2: "LinkResults (output_readLinkResults (output_run out0 bigsteps0)
                        (Nperiods out0 + int 14913081 + 1) (int 0)) 0 = 200"
    using read_link_fail [OF bigsteps0_final(1) neg] bigsteps0_final(3) by simp
  have 3: "2 ^ 31 \<le> length (content (Fout (output_run out0 bigsteps0)))"
    using output_run_length [OF out0_at_end out0_counts_ok bigsteps0_keeps]
    by (simp add: bigsteps0_length out0_fields out0_layout hdr0_length)
  show ?thesis using out0_stream_ok w 1 2 3 by (simp add: bigsteps0_length)
qed

text \<open>
  C2 as the code has it: while the file is shorter than \<open>2^31\<close> bytes (the size that
  \<^verbatim>\<open>output_checkFileSize\<close> tests, for a scratch file, when the file is opened), reading a
  period back returns what was written for it. The run starts from a stream as
  \<^verbatim>\<open>output_open\<close> and the writer leave it, that holds \<^verbatim>\<open>Nperiods\<close> records; between the
  reports the simulation leaves the stream and the layout alone. For the \<open>k\<close>-th report
  written by the run, made in state \<open>s\<close> at time \<open>t\<close>, which is period
  \<open>Nperiods sp + k + 1\<close>, and for any state \<open>r\<close> of the reader with the layout of the end
  of the run and a file that is the file of the end of the run and any bytes after it
  (the closing record that \<^verbatim>\<open>output_end\<close> appends), wherever its stream is positioned: the
  results read for the \<open>j\<close>-th reported subcatchment, node or link are those that the
  writer got for that object from the state \<open>s\<close> with the weight of time \<open>t\<close>.
\<close>

theorem output_read_written:
  assumes "stream_ok sp" and "\<forall>x\<in>set steps. keeps_output (snd x)"
    and "length (content (Fout (output_run sp steps))) < 2 ^ 31"
    and "k < length (written_at sp steps)" and "written_at sp steps ! k = (s, t)"
    and "layout r = layout (output_run sp steps)"
    and "content (Fout r) = content (Fout (output_run sp steps)) @ tail"
  shows "(\<forall>j<NumSubcatch sp. \<forall>i<NsubcatchResults sp.
            SubcatchResults (output_readSubcatchResults r (Nperiods sp + int k + 1) (int j)) i
              = subcatch_getResults s (reported (subcatchRpt sp) ! j) (weightRunoff s t) i)
    \<and> (\<forall>j<NumNodes sp. \<forall>i<NnodeResults sp.
            NodeResults (output_readNodeResults r (Nperiods sp + int k + 1) (int j)) i
              = node_getResults s (reported (nodeRpt sp) ! j) (weightRouting s t) i)
    \<and> (\<forall>j<NumLinks sp. \<forall>i<NlinkResults sp.
            LinkResults (output_readLinkResults r (Nperiods sp + int k + 1) (int j)) i
              = link_getResults s (reported (linkRpt sp) ! j) (weightRouting s t) i)"
  using read_written_subcatch [OF assms] read_written_node [OF assms]
    read_written_link [OF assms]
  by blast

theorem output_read_written_witness:
  "SubcatchResults (output_readSubcatchResults (output_run out0 steps0) 2 0) 3 = 203
   \<and> NodeResults (output_readNodeResults (output_run out0 steps0) 2 0) 5 = 215
   \<and> LinkResults (output_readLinkResults (output_run out0 steps0) 2 0) 4 = 204"
proof -
  have k: "1 < length (written_at out0 steps0)" by (simp add: steps0_written)
  have w: "written_at out0 steps0 ! 1 = (output_saveResults out0 2, 3)"
    by (simp add: steps0_written)
  note t = output_read_written [OF out0_stream_ok steps0_keeps steps0_size k w refl
      append_Nil2 [symmetric]]
  have a: "SubcatchResults (output_readSubcatchResults (output_run out0 steps0)
             (Nperiods out0 + int 1 + 1) (int 0)) 3
           = subcatch_getResults (output_saveResults out0 2) (reported (subcatchRpt out0) ! 0)
               (weightRunoff (output_saveResults out0 2) 3) 3"
    using t by (simp add: out0_layout)
  have b: "NodeResults (output_readNodeResults (output_run out0 steps0)
             (Nperiods out0 + int 1 + 1) (int 0)) 5
           = node_getResults (output_saveResults out0 2) (reported (nodeRpt out0) ! 0)
               (weightRouting (output_saveResults out0 2) 3) 5"
    using t by (simp add: out0_layout)
  have c: "LinkResults (output_readLinkResults (output_run out0 steps0)
             (Nperiods out0 + int 1 + 1) (int 0)) 4
           = link_getResults (output_saveResults out0 2) (reported (linkRpt out0) ! 0)
               (weightRouting (output_saveResults out0 2) 3) 4"
    using t by (simp add: out0_layout)
  show ?thesis
    using a b c by (simp add: out0_fields out0_save_view reported_samples)
qed

end
